(* ===== verification/Prelude.thy ===== *)
theory Prelude
  imports Main "HOL-Library.Word" "HOL-Library.Code_Target_Numeral"
begin

text \<open>
  Vocabulary shared by every component: the outcome of a fallible Rust function
  (\<open>Result<T, anyhow::Error>\<close>, with a panic as a third outcome, because the release profile
  aborts on panic and no \<open>match\<close> of the program can observe one), the \<open>?\<close> operator, the
  \<open>.context(..)\<close> combinator of \<open>anyhow\<close>, computations over an explicit state, the interface
  of an encoder and its decoder, and the interface of a loop that records the failures of
  its items and goes on.
\<close>

section \<open>Bytes and machine integers\<close>

text \<open>
  A Rust \<open>String\<close>, \<open>&str\<close> or \<open>[u8]\<close> is the list of its bytes: the \<open>char\<close> type of HOL is one
  8-bit byte, so a string is its UTF-8 encoding and \<open>length\<close> is Rust's \<open>len()\<close>.
\<close>

type_synonym bytes = string
type_synonym u8 = "8 word"
type_synonym u16 = "16 word"
type_synonym u32 = "32 word"
type_synonym i64 = "64 word"

section \<open>Outcomes\<close>

datatype io_kind = NotFound | PermissionDenied | OtherKind nat

text \<open>
  \<open>Bail\<close> is a message the program makes itself (\<open>anyhow!\<close>, \<open>bail!\<close>), \<open>External\<close> an error of a
  library, \<open>Io\<close> an \<open>std::io::Error\<close>, and \<open>Context\<close> the layer \<open>.context(..)\<close> adds.
\<close>

datatype error =
    Bail string
  | External string
  | Io io_kind
  | Context string error

datatype 'a result = Ok 'a | Err error | Panic string

named_theorems outcome_simps "how outcomes propagate through and_then, ctx and io_bind"
named_theorems ok_iff "when a composed computation returns Ok"

text \<open>The \<open>?\<close> operator: an error leaves the function, a panic leaves the program.\<close>

fun and_then :: "'a result \<Rightarrow> ('a \<Rightarrow> 'b result) \<Rightarrow> 'b result" where
  "and_then (Ok x) f = f x"
| "and_then (Err e) f = Err e"
| "and_then (Panic m) f = Panic m"

text \<open>\<open>anyhow::Context::context\<close>.\<close>

fun ctx :: "string \<Rightarrow> 'a result \<Rightarrow> 'a result" where
  "ctx m (Ok x) = Ok x"
| "ctx m (Err e) = Err (Context m e)"
| "ctx m (Panic p) = Panic p"

fun is_ok :: "'a result \<Rightarrow> bool" where
  "is_ok (Ok x) = True"
| "is_ok (Err e) = False"
| "is_ok (Panic m) = False"

text \<open>\<open>Option::ok_or\<close> and \<open>Option::ok_or_else\<close>.\<close>

fun ok_or :: "error \<Rightarrow> 'a option \<Rightarrow> 'a result" where
  "ok_or e None = Err e"
| "ok_or e (Some x) = Ok x"

lemma and_then_Ok_iff [ok_iff]: "and_then r f = Ok y \<longleftrightarrow> (\<exists>x. r = Ok x \<and> f x = Ok y)"
  by (cases r) auto

lemma and_then_Panic_iff:
  "and_then r f = Panic m \<longleftrightarrow> r = Panic m \<or> (\<exists>x. r = Ok x \<and> f x = Panic m)"
  by (cases r) auto

lemma ctx_Ok_iff [ok_iff]: "ctx m r = Ok x \<longleftrightarrow> r = Ok x"
  by (cases r) auto

lemma ctx_Panic_iff [ok_iff]: "ctx m r = Panic p \<longleftrightarrow> r = Panic p"
  by (cases r) auto

lemma ctx_Err_iff [ok_iff]: "ctx m r = Err e \<longleftrightarrow> (\<exists>e'. r = Err e' \<and> e = Context m e')"
  by (cases r) auto

lemma ok_or_Ok_iff [ok_iff]: "ok_or e v = Ok x \<longleftrightarrow> v = Some x"
  by (cases v) auto

lemma if_Ok_iff [ok_iff]: "(if b then Ok x else Err e) = Ok y \<longleftrightarrow> b \<and> x = y"
  by simp

lemma ok_or_not_Panic [simp]: "ok_or e v \<noteq> Panic m"
  by (cases v) auto

lemma is_ok_iff: "is_ok r \<longleftrightarrow> (\<exists>x. r = Ok x)"
  by (cases r) auto

lemma is_ok_fst: "is_ok (fst p) \<longleftrightarrow> (\<exists>x t. p = (Ok x, t))"
  by (cases p) (auto simp: is_ok_iff)

lemma and_then_assoc: "and_then (and_then r f) g = and_then r (\<lambda>x. and_then (f x) g)"
  by (cases r) auto

lemma and_then_not_Panic:
  "r \<noteq> Panic m \<Longrightarrow> (\<And>x. r = Ok x \<Longrightarrow> f x \<noteq> Panic m) \<Longrightarrow> and_then r f \<noteq> Panic m"
  by (cases r) auto

section \<open>Computations over an explicit state\<close>

type_synonym ('s, 'a) io = "'s \<Rightarrow> 'a result \<times> 's"

text \<open>The \<open>?\<close> operator where the computation also changes the state.\<close>

definition io_bind :: "('s, 'a) io \<Rightarrow> ('a \<Rightarrow> ('s, 'b) io) \<Rightarrow> ('s, 'b) io" where
  "io_bind m f s =
     (case m s of
        (Ok x, s') \<Rightarrow> f x s'
      | (Err e, s') \<Rightarrow> (Err e, s')
      | (Panic p, s') \<Rightarrow> (Panic p, s'))"

definition io_ret :: "'a \<Rightarrow> ('s, 'a) io" where
  "io_ret x s = (Ok x, s)"

text \<open>A pure fallible step inside a stateful function.\<close>

definition io_lift :: "'a result \<Rightarrow> ('s, 'a) io" where
  "io_lift r s = (r, s)"

definition io_ctx :: "string \<Rightarrow> ('s, 'a) io \<Rightarrow> ('s, 'a) io" where
  "io_ctx msg m s = (case m s of (r, s') \<Rightarrow> (ctx msg r, s'))"

lemma io_ret_apply [simp, outcome_simps]: "io_ret x s = (Ok x, s)"
  by (simp add: io_ret_def)

lemma io_lift_apply [simp, outcome_simps]: "io_lift r s = (r, s)"
  by (simp add: io_lift_def)

lemma io_bind_Ok [outcome_simps]: "m s = (Ok x, s') \<Longrightarrow> io_bind m f s = f x s'"
  by (simp add: io_bind_def)

lemma io_bind_Err [outcome_simps]: "m s = (Err e, s') \<Longrightarrow> io_bind m f s = (Err e, s')"
  by (simp add: io_bind_def)

lemma io_bind_Panic [outcome_simps]: "m s = (Panic p, s') \<Longrightarrow> io_bind m f s = (Panic p, s')"
  by (simp add: io_bind_def)

lemma io_bind_Ok_iff [ok_iff]:
  "io_bind m f s = (Ok y, t) \<longleftrightarrow> (\<exists>x s'. m s = (Ok x, s') \<and> f x s' = (Ok y, t))"
  by (auto simp: io_bind_def split: prod.splits result.splits)

lemma io_ctx_Ok_iff [ok_iff]: "io_ctx msg m s = (Ok x, t) \<longleftrightarrow> m s = (Ok x, t)"
  by (auto simp: io_ctx_def ok_iff split: prod.splits)

lemma snd_io_ctx [simp]: "snd (io_ctx msg m s) = snd (m s)"
  by (simp add: io_ctx_def split: prod.split)

lemma snd_io_bind:
  "snd (io_bind m f s) =
     (case fst (m s) of Ok x \<Rightarrow> snd (f x (snd (m s))) | Err e \<Rightarrow> snd (m s) | Panic p \<Rightarrow> snd (m s))"
  by (auto simp: io_bind_def split: prod.splits result.splits)

section \<open>The interface of an encoder and its decoder\<close>

text \<open>
  Text forms of addresses, JSON forms of records: one side writes with \<open>encode\<close>, the other reads
  with \<open>decode\<close>, and relies on getting back what was written.
\<close>

locale codec =
  fixes encode :: "'a \<Rightarrow> 'b"
    and decode :: "'b \<Rightarrow> 'a option"
  assumes decode_encode: "decode (encode x) = Some x"
begin

lemma encode_inj: "encode x = encode y \<longleftrightarrow> x = y"
  by (metis decode_encode option.inject)

lemma encode_in_domain: "decode (encode x) \<noteq> None"
  by (simp add: decode_encode)

lemma encode_list_inj: "map encode xs = map encode ys \<longleftrightarrow> xs = ys"
  by (induction xs arbitrary: ys) (auto simp: encode_inj Cons_eq_map_conv)

end

section \<open>The interface of a loop that records failures and goes on\<close>

text \<open>
  The server has four loops of one shape: each item adds what it yields, or its failure, to
  accumulators (a list of successes, the struct of errors), and the loop goes on; only a panic or an
  error that the body does not catch stops it. \<open>step\<close> is the body, \<open>run\<close> the loop, and \<open>ext\<close> says
  that an accumulator holds everything another one holds. What the rest of the server relies on:
  nothing already collected is lost, no item is skipped, and what holds of every step holds of the
  whole.
\<close>

locale accumulating_loop =
  fixes step :: "'i \<Rightarrow> 'acc \<Rightarrow> ('s, 'acc) io"
    and run :: "'i list \<Rightarrow> 'acc \<Rightarrow> ('s, 'acc) io"
    and ext :: "'acc \<Rightarrow> 'acc \<Rightarrow> bool"
  assumes run_Nil: "run [] acc s = (Ok acc, s)"
    and run_Cons: "run (x # xs) acc s = io_bind (step x acc) (run xs) s"
    and ext_refl: "ext acc acc"
    and ext_trans: "ext acc1 acc2 \<Longrightarrow> ext acc2 acc3 \<Longrightarrow> ext acc1 acc3"
    and step_ext: "step x acc s = (Ok acc', t) \<Longrightarrow> ext acc acc'"
begin

lemma run_append: "run (xs @ ys) acc s = io_bind (run xs acc) (run ys) s"
proof (induction xs arbitrary: acc s)
  case Nil
  then show ?case by (simp add: io_bind_def run_Nil)
next
  case (Cons x xs)
  show ?case
  proof (cases "step x acc s")
    case (Pair r t)
    then show ?thesis
      using Cons.IH by (cases r) (auto simp: run_Cons io_bind_def)
  qed
qed

lemma run_ext: "run xs acc s = (Ok acc', t) \<Longrightarrow> ext acc acc'"
proof (induction xs arbitrary: acc s)
  case Nil
  then show ?case by (simp add: run_Nil ext_refl)
next
  case (Cons x xs)
  then show ?case by (auto simp: run_Cons ok_iff intro: ext_trans step_ext)
qed

text \<open>What every step keeps, the loop keeps.\<close>

lemma run_invariant:
  assumes "run xs acc s = (Ok acc', t)" and "keeps acc"
    and "\<And>x a u a' u'. x \<in> set xs \<Longrightarrow> keeps a \<Longrightarrow> step x a u = (Ok a', u') \<Longrightarrow> keeps a'"
  shows "keeps acc'"
  using assms
proof (induction xs arbitrary: acc s)
  case Nil
  then show ?case by (simp add: run_Nil)
next
  case (Cons x xs)
  from Cons.prems(1) obtain a u where step: "step x acc s = (Ok a, u)"
    and rest: "run xs a u = (Ok acc', t)" by (auto simp: run_Cons ok_iff)
  have "keeps a" using Cons.prems(2,3) step by (meson list.set_intros(1))
  from Cons.IH [OF rest this] Cons.prems(3) show ?case by (meson list.set_intros(2))
qed

text \<open>Every item was processed, and what its step left is part of the result.\<close>

lemma run_covers:
  "run xs acc s = (Ok acc', t) \<Longrightarrow> x \<in> set xs \<Longrightarrow> \<exists>a u a' u'. step x a u = (Ok a', u') \<and> ext a' acc'"
proof (induction xs arbitrary: acc s)
  case Nil
  then show ?case by simp
next
  case (Cons y ys)
  from Cons.prems(1) obtain a u where step: "step y acc s = (Ok a, u)"
    and rest: "run ys a u = (Ok acc', t)" by (auto simp: run_Cons ok_iff)
  show ?case
  proof (cases "x = y")
    case True
    with step run_ext [OF rest] show ?thesis by blast
  next
    case False
    with Cons.prems(2) Cons.IH [OF rest] show ?thesis by auto
  qed
qed

text \<open>If every step adds one to a count, every item is counted once.\<close>

lemma run_counts:
  assumes "run xs acc s = (Ok acc', t)"
    and "\<And>x a u a' u'. x \<in> set xs \<Longrightarrow> step x a u = (Ok a', u') \<Longrightarrow> count a' = Suc (count a)"
  shows "count acc' = count acc + length xs"
  using assms
proof (induction xs arbitrary: acc s)
  case Nil
  then show ?case by (simp add: run_Nil)
next
  case (Cons x xs)
  from Cons.prems(1) obtain a u where step: "step x acc s = (Ok a, u)"
    and rest: "run xs a u = (Ok acc', t)" by (auto simp: run_Cons ok_iff)
  have "count a = Suc (count acc)" using Cons.prems(2) step by (meson list.set_intros(1))
  moreover have "count acc' = count a + length xs"
    using Cons.IH [OF rest] Cons.prems(2) by (meson list.set_intros(2))
  ultimately show ?case by simp
qed

text \<open>A body that cannot fail makes a loop that cannot fail.\<close>

lemma run_total:
  assumes "\<And>x a u. x \<in> set xs \<Longrightarrow> \<exists>a' u'. step x a u = (Ok a', u')"
  shows "\<exists>acc' t. run xs acc s = (Ok acc', t)"
  using assms
proof (induction xs arbitrary: acc s)
  case Nil
  then show ?case by (simp add: run_Nil)
next
  case (Cons x xs)
  from Cons.prems obtain a u where step: "step x acc s = (Ok a, u)" by (meson list.set_intros(1))
  moreover have "\<exists>acc' t. run xs a u = (Ok acc', t)" using Cons by simp
  ultimately show ?case by (simp add: run_Cons io_bind_def)
qed

end

section \<open>Lists\<close>

lemma list_all_concat [simp]: "list_all P (concat xss) \<longleftrightarrow> list_all (list_all P) xss"
  by (induction xss) auto

lemma filter_concat_map: "filter P (concat (map f xs)) = concat (map (\<lambda>x. filter P (f x)) xs)"
  by (induction xs) auto

lemma find_cong_set: "(\<And>x. x \<in> set xs \<Longrightarrow> P x = Q x) \<Longrightarrow> find P xs = find Q xs"
  by (induction xs) auto

end
