(* ===== verification/Rust_Str.thy ===== *)
theory Rust_Str
  imports Prelude
begin

text \<open>
  The operations of \<open>str\<close>, \<open>[u8]\<close> and \<open>char\<close> of the Rust standard library that the program
  uses, on strings as lists of UTF-8 bytes, and the decimal and hexadecimal output of
  \<open>format!\<close>. UTF-8 is self-synchronising, so prefix, suffix, split and search by an ASCII
  character or by a whole string are the same on bytes as on characters.
\<close>

section \<open>Prefixes, suffixes, search\<close>

fun strip_prefix :: "string \<Rightarrow> string \<Rightarrow> string option" where
  "strip_prefix [] s = Some s"
| "strip_prefix (p # ps) [] = None"
| "strip_prefix (p # ps) (c # cs) = (if p = c then strip_prefix ps cs else None)"

definition starts_with :: "string \<Rightarrow> string \<Rightarrow> bool" where
  "starts_with p s \<longleftrightarrow> strip_prefix p s \<noteq> None"

definition ends_with :: "string \<Rightarrow> string \<Rightarrow> bool" where
  "ends_with p s \<longleftrightarrow> starts_with (rev p) (rev s)"

text \<open>\<open>s.strip_suffix(p).unwrap_or(s)\<close>.\<close>

definition without_suffix :: "string \<Rightarrow> string \<Rightarrow> string" where
  "without_suffix p s = (case strip_prefix (rev p) (rev s) of None \<Rightarrow> s | Some r \<Rightarrow> rev r)"

text \<open>\<open>s.find(pat)\<close>: the byte index of the first occurrence.\<close>

fun find_str :: "string \<Rightarrow> string \<Rightarrow> nat option" where
  "find_str p [] = (if p = [] then Some 0 else None)"
| "find_str p (c # cs) = (if starts_with p (c # cs) then Some 0 else map_option Suc (find_str p cs))"

text \<open>\<open>s.split(sep)\<close> for an ASCII separator: never empty.\<close>

fun split_on :: "char \<Rightarrow> string \<Rightarrow> string list" where
  "split_on sep [] = [[]]"
| "split_on sep (c # cs) =
     (if c = sep then [] # split_on sep cs
      else (case split_on sep cs of [] \<Rightarrow> [[c]] | w # ws \<Rightarrow> (c # w) # ws))"

text \<open>\<open>[..].join(sep)\<close>.\<close>

fun join_with :: "string \<Rightarrow> string list \<Rightarrow> string" where
  "join_with sep [] = []"
| "join_with sep [w] = w"
| "join_with sep (w # ws) = w @ sep @ join_with sep ws"

lemma strip_prefix_Some_iff: "strip_prefix p s = Some r \<longleftrightarrow> s = p @ r"
  by (induction p s rule: strip_prefix.induct) auto

lemma strip_prefix_None_iff: "strip_prefix p s = None \<longleftrightarrow> (\<forall>r. s \<noteq> p @ r)"
  by (metis option.exhaust option.distinct(1) strip_prefix_Some_iff)

lemma starts_with_iff: "starts_with p s \<longleftrightarrow> (\<exists>r. s = p @ r)"
  unfolding starts_with_def using strip_prefix_Some_iff by (metis option.exhaust option.distinct(1))

lemma starts_with_append [simp]: "starts_with p (p @ r)"
  by (auto simp: starts_with_iff)

lemma ends_with_iff: "ends_with p s \<longleftrightarrow> (\<exists>r. s = r @ p)"
proof
  assume "ends_with p s"
  then obtain r where "rev s = rev p @ r" by (auto simp: ends_with_def starts_with_iff)
  then have "s = rev r @ p" by (metis rev_append rev_rev_ident)
  then show "\<exists>r. s = r @ p" ..
qed (auto simp: ends_with_def starts_with_iff)

lemma ends_with_append [simp]: "ends_with p (r @ p)"
  by (auto simp: ends_with_iff)

lemma without_suffix_append [simp]: "without_suffix p (s @ p) = s"
  using strip_prefix_Some_iff [of "rev p" "rev (s @ p)" "rev s"] by (simp add: without_suffix_def)

lemma without_suffix_other: "\<not> ends_with p s \<Longrightarrow> without_suffix p s = s"
  by (simp add: without_suffix_def ends_with_def starts_with_def)

lemma without_suffix_cases: "without_suffix p s = s \<or> s = without_suffix p s @ p"
proof (cases "ends_with p s")
  case True
  then obtain r where "s = r @ p" by (auto simp: ends_with_iff)
  then show ?thesis by simp
qed (simp add: without_suffix_other)

lemma set_without_suffix: "set (without_suffix p s) \<subseteq> set s"
  using without_suffix_cases [of p s] by (metis Un_upper1 set_append subset_refl)

lemma find_str_None_iff: "find_str p s = None \<longleftrightarrow> (\<forall>a b. s \<noteq> a @ p @ b)"
proof (induction s)
  case (Cons c s)
  show ?case
  proof (cases "starts_with p (c # s)")
    case True
    then show ?thesis by (metis append_Nil find_str.simps(2) option.distinct(1) starts_with_iff)
  next
    case False
    then have "(\<forall>a b. c # s \<noteq> a @ p @ b) \<longleftrightarrow> (\<forall>a b. s \<noteq> a @ p @ b)"
      by (metis append_Cons append_Nil list.sel(3) neq_Nil_conv starts_with_append tl_append2)
    with False Cons show ?thesis by simp
  qed
qed auto

text \<open>The index found is that of the leftmost occurrence.\<close>

lemma find_str_Some:
  "find_str p s = Some n \<Longrightarrow>
     n + length p \<le> length s \<and> take (length p) (drop n s) = p \<and> (\<forall>m < n. \<not> starts_with p (drop m s))"
proof (induction s arbitrary: n)
  case (Cons c s)
  show ?case
  proof (cases "starts_with p (c # s)")
    case True
    with Cons.prems have "n = 0" by simp
    with True show ?thesis
      by (metis append_eq_conv_conj drop0 length_append less_nat_zero_code le_add1 plus_nat.add_0 starts_with_iff)
  next
    case False
    with Cons.prems obtain k where k: "find_str p s = Some k" "n = Suc k" by auto
    from Cons.IH [OF k(1)] k(2) False show ?thesis
      by (auto simp: less_Suc_eq_0_disj)
  qed
qed (auto split: if_splits)

lemma find_str_first:
  assumes "\<And>m. m < length a \<Longrightarrow> \<not> starts_with p (drop m a @ p @ b)"
  shows "find_str p (a @ p @ b) = Some (length a)"
  using assms
proof (induction a)
  case Nil
  then show ?case
    by (metis append_Nil find_str.elims list.size(3) starts_with_append append_is_Nil_conv)
next
  case (Cons c a)
  have "\<not> starts_with p (c # a @ p @ b)" using Cons.prems [of 0] by simp
  moreover have "find_str p (a @ p @ b) = Some (length a)"
  proof (rule Cons.IH)
    fix m assume "m < length a"
    then show "\<not> starts_with p (drop m a @ p @ b)" using Cons.prems [of "Suc m"] by simp
  qed
  ultimately show ?case by simp
qed

lemma split_on_not_Nil [simp]: "split_on sep s \<noteq> []"
  by (cases s) (auto split: list.splits)

lemma split_on_parts: "w \<in> set (split_on sep s) \<Longrightarrow> sep \<notin> set w \<and> set w \<subseteq> set s"
proof (induction s arbitrary: w)
  case (Cons c s)
  then show ?case
    by (cases "split_on sep s") (fastforce split: if_splits)+
qed auto

lemma join_split: "join_with [sep] (split_on sep s) = s"
proof (induction s)
  case (Cons c s)
  show ?case
  proof (cases "split_on sep s")
    case Nil
    then show ?thesis by simp
  next
    case (Cons w ws)
    with Cons.IH show ?thesis
      by (cases ws) auto
  qed
qed simp

lemma split_on_fresh: "sep \<notin> set w \<Longrightarrow> split_on sep w = [w]"
  by (induction w) auto

lemma split_on_append: "sep \<notin> set w \<Longrightarrow> split_on sep (w @ sep # s) = w # split_on sep s"
  by (induction w) auto

lemma split_join:
  "ws \<noteq> [] \<Longrightarrow> (\<And>w. w \<in> set ws \<Longrightarrow> sep \<notin> set w) \<Longrightarrow> split_on sep (join_with [sep] ws) = ws"
proof (induction ws rule: induct_list012)
  case (3 w v ws)
  then show ?case by (simp add: split_on_append)
qed (auto simp: split_on_fresh)

lemma set_join_with: "set (join_with sep ws) \<subseteq> set sep \<union> (\<Union>w \<in> set ws. set w)"
  by (induction sep ws rule: join_with.induct) auto

end
