(* ===== verification/Rust_Text.thy ===== *)
theory Rust_Text
  imports Rust_Str
begin

text \<open>
  Characters of the Rust standard library: ASCII classes, trimming, lower-casing, UTF-8 checking
  and lossy decoding, and the digits that \<open>format!\<close> prints and \<open>char::to_digit\<close> reads.
\<close>

section \<open>ASCII classes\<close>

abbreviation byte :: "char \<Rightarrow> nat" where
  "byte c \<equiv> of_char c"

definition is_ascii_digit :: "char \<Rightarrow> bool" where
  "is_ascii_digit c \<longleftrightarrow> 48 \<le> byte c \<and> byte c \<le> 57"

definition is_ascii_upper :: "char \<Rightarrow> bool" where
  "is_ascii_upper c \<longleftrightarrow> 65 \<le> byte c \<and> byte c \<le> 90"

definition is_ascii_lower :: "char \<Rightarrow> bool" where
  "is_ascii_lower c \<longleftrightarrow> 97 \<le> byte c \<and> byte c \<le> 122"

definition is_ascii_alphanumeric :: "char \<Rightarrow> bool" where
  "is_ascii_alphanumeric c \<longleftrightarrow> is_ascii_digit c \<or> is_ascii_upper c \<or> is_ascii_lower c"

text \<open>\<open>u8::is_ascii_whitespace\<close>: the vertical tab is not in it.\<close>

definition is_ascii_whitespace :: "char \<Rightarrow> bool" where
  "is_ascii_whitespace c \<longleftrightarrow> byte c \<in> {9, 10, 12, 13, 32}"

definition to_ascii_lower :: "char \<Rightarrow> char" where
  "to_ascii_lower c = (if is_ascii_upper c then char_of (byte c + 32) else c)"

lemmas ascii_defs = is_ascii_digit_def is_ascii_upper_def is_ascii_lower_def
  is_ascii_alphanumeric_def is_ascii_whitespace_def

lemma byte_less [simp]: "byte c < 256"
  by (metis char.size(2) of_char_eq_iff nat_of_char_less_256)

lemma byte_eq_iff: "byte c = byte d \<longleftrightarrow> c = d"
  by simp

lemma to_ascii_lower_not_upper: "\<not> is_ascii_upper (to_ascii_lower c)"
  by (auto simp: to_ascii_lower_def is_ascii_upper_def)

lemma to_ascii_lower_id: "\<not> is_ascii_upper c \<Longrightarrow> to_ascii_lower c = c"
  by (simp add: to_ascii_lower_def)

section \<open>Trimming\<close>

text \<open>\<open>[u8]::trim_ascii\<close>.\<close>

definition trim_ascii :: "bytes \<Rightarrow> bytes" where
  "trim_ascii s = rev (dropWhile is_ascii_whitespace (rev (dropWhile is_ascii_whitespace s)))"

text \<open>
  \<open>str::trim\<close> removes the characters with the Unicode property White\_Space, here by their UTF-8
  encodings: U+0009 to U+000D, U+0020, U+0085, U+00A0, U+1680, U+2000 to U+200A, U+2028, U+2029,
  U+202F, U+205F and U+3000.
\<close>

definition white_space :: "string list" where
  "white_space =
     map (\<lambda>b. [char_of b]) [9 :: nat, 10, 11, 12, 13, 32] @
     map (\<lambda>b. [char_of (194 :: nat), char_of b]) [133 :: nat, 160] @
     [map char_of [225 :: nat, 154, 128]] @
     map (\<lambda>b. map char_of [226 :: nat, 128, b])
       [128, 129, 130, 131, 132, 133, 134, 135, 136, 137, 138, 168, 169, 175] @
     [map char_of [226 :: nat, 129, 159], map char_of [227 :: nat, 128, 128]]"

fun strip_any :: "string list \<Rightarrow> string \<Rightarrow> string option" where
  "strip_any [] s = None"
| "strip_any (p # ps) s =
     (case strip_prefix p s of
        None \<Rightarrow> strip_any ps s
      | Some r \<Rightarrow> if p = [] then strip_any ps s else Some r)"

lemma strip_any_Some: "strip_any ps s = Some r \<Longrightarrow> \<exists>p \<in> set ps. p \<noteq> [] \<and> s = p @ r"
  by (induction ps) (auto simp: strip_prefix_Some_iff split: option.splits if_splits)

lemma strip_any_None_iff: "strip_any ps s = None \<longleftrightarrow> (\<forall>p \<in> set ps. p \<noteq> [] \<longrightarrow> (\<forall>r. s \<noteq> p @ r))"
proof (induction ps)
  case (Cons p ps)
  show ?case
  proof (cases "strip_prefix p s")
    case None
    then have "strip_any (p # ps) s = strip_any ps s" by simp
    with Cons.IH None show ?thesis by (simp add: strip_prefix_None_iff)
  next
    case (Some r)
    then have "strip_any (p # ps) s = (if p = [] then strip_any ps s else Some r)" by simp
    moreover from Some have "s = p @ r" by (simp add: strip_prefix_Some_iff)
    ultimately show ?thesis using Cons.IH by auto
  qed
qed simp

lemma strip_any_shorter: "strip_any ps s = Some r \<Longrightarrow> length r < length s"
  by (auto dest!: strip_any_Some)

text \<open>Remove any of the patterns from the front as often as one is there.\<close>

function strip_while :: "string list \<Rightarrow> string \<Rightarrow> string" where
  "strip_while ps s = (case strip_any ps s of None \<Rightarrow> s | Some r \<Rightarrow> strip_while ps r)"
  by pat_completeness auto
termination
  by (relation "measure (\<lambda>(ps, s). length s)") (auto dest: strip_any_shorter)

declare strip_while.simps [simp del]

definition trim_start :: "string \<Rightarrow> string" where
  "trim_start s = strip_while white_space s"

definition trim_end :: "string \<Rightarrow> string" where
  "trim_end s = rev (strip_while (map rev white_space) (rev s))"

definition trim :: "string \<Rightarrow> string" where
  "trim s = trim_end (trim_start s)"

text \<open>\<open>s.trim_start_matches(p)\<close> for a non-empty pattern.\<close>

definition trim_start_matches :: "string \<Rightarrow> string \<Rightarrow> string" where
  "trim_start_matches p s = strip_while [p] s"

lemma strip_while_suffix: "\<exists>a. s = a @ strip_while ps s"
proof (induction ps s rule: strip_while.induct)
  case (1 ps s)
  show ?case
  proof (cases "strip_any ps s")
    case None
    then show ?thesis by (simp add: strip_while.simps [of ps s])
  next
    case (Some r)
    with "1.IH" obtain a where a: "r = a @ strip_while ps r" by blast
    obtain p where p: "s = p @ r" using strip_any_Some [OF Some] by blast
    have "strip_while ps s = strip_while ps r" by (simp add: strip_while.simps [of ps s] Some)
    with a p have "s = (p @ a) @ strip_while ps s" by simp
    then show ?thesis ..
  qed
qed

lemma strip_any_strip_while: "strip_any ps (strip_while ps s) = None"
proof (induction ps s rule: strip_while.induct)
  case (1 ps s)
  then show ?case
    by (cases "strip_any ps s") (simp_all add: strip_while.simps [of ps s])
qed

lemma strip_while_idem: "strip_while ps (strip_while ps s) = strip_while ps s"
  by (simp add: strip_while.simps [of ps "strip_while ps s"] strip_any_strip_while)

lemma strip_any_append: "strip_any ps (s @ t) = None \<Longrightarrow> strip_any ps s = None"
  by (auto simp: strip_any_None_iff)

lemma strip_while_None: "strip_any ps s = None \<Longrightarrow> strip_while ps s = s"
  by (simp add: strip_while.simps [of ps s])

lemma trim_infix: "\<exists>a b. s = a @ trim s @ b"
proof -
  obtain a where a: "s = a @ trim_start s"
    using strip_while_suffix unfolding trim_start_def by blast
  obtain b where "rev (trim_start s) = b @ strip_while (map rev white_space) (rev (trim_start s))"
    using strip_while_suffix by blast
  then have "rev (rev (trim_start s)) =
      rev (b @ strip_while (map rev white_space) (rev (trim_start s)))" by simp
  then have "trim_start s = trim s @ rev b" by (simp add: trim_def trim_end_def)
  with a show ?thesis by metis
qed

lemma set_trim: "set (trim s) \<subseteq> set s"
  using trim_infix [of s] by (metis Un_upper1 Un_upper2 set_append subset_trans)

text \<open>Trimming leaves nothing to trim on either side.\<close>

lemma trim_start_trim: "trim_start (trim s) = trim s"
proof -
  obtain b where "rev (trim_start s) = b @ strip_while (map rev white_space) (rev (trim_start s))"
    using strip_while_suffix by blast
  then have "trim_start s = rev (strip_while (map rev white_space) (rev (trim_start s))) @ rev b"
    by (metis rev_append rev_rev_ident)
  then have split: "trim_start s = trim s @ rev b" by (simp add: trim_def trim_end_def)
  have "strip_any white_space (trim_start s) = None"
    by (simp add: trim_start_def strip_any_strip_while)
  with split have "strip_any white_space (trim s) = None" by (metis strip_any_append)
  then show ?thesis by (simp add: trim_start_def strip_while_None)
qed

lemma trim_idem [simp]: "trim (trim s) = trim s"
proof -
  have "trim_end (trim s) = trim s"
    by (simp add: trim_def trim_end_def strip_while_idem)
  then show ?thesis by (simp add: trim_def [of "trim s"] trim_start_trim)
qed

text \<open>A string none of whose bytes starts or ends a white-space character is left alone.\<close>

lemma strip_any_heads: "(\<And>p. p \<in> set ps \<Longrightarrow> p \<noteq> [] \<and> hd p \<notin> set s) \<Longrightarrow> strip_any ps s = None"
  by (fastforce simp: strip_any_None_iff neq_Nil_conv)

definition plain_text :: "char \<Rightarrow> bool" where
  "plain_text c \<longleftrightarrow> 33 \<le> byte c \<and> byte c < 128"

lemma white_space_plain: "p \<in> set white_space \<Longrightarrow> p \<noteq> [] \<and> \<not> plain_text (hd p) \<and> \<not> plain_text (last p)"
  by (auto simp: white_space_def plain_text_def)

lemma trim_plain: "list_all plain_text s \<Longrightarrow> trim s = s"
proof -
  assume plain: "list_all plain_text s"
  have "strip_any white_space s = None"
    using plain white_space_plain by (intro strip_any_heads) (auto simp: list_all_iff)
  moreover have "strip_any (map rev white_space) (rev s) = None"
    using plain white_space_plain by (intro strip_any_heads) (auto simp: list_all_iff hd_rev)
  ultimately show ?thesis
    by (simp add: trim_def trim_start_def trim_end_def strip_while_None)
qed

section \<open>Lower case\<close>

text \<open>
  \<open>str::to_lowercase\<close>. ASCII letters are mapped here; the lower case of any other character
  comes from the Unicode tables of the Rust release and may depend on its neighbours (final
  sigma), so it is the parameter \<open>lower s i\<close>: the bytes for the character of \<open>s\<close> that starts at
  byte \<open>i\<close>. The bytes 128 to 191 continue a character that has been mapped at its first byte.
\<close>

definition lower_at :: "(string \<Rightarrow> nat \<Rightarrow> string) \<Rightarrow> string \<Rightarrow> nat \<times> char \<Rightarrow> string" where
  "lower_at lower s ic =
     (case ic of (i, c) \<Rightarrow>
        if byte c < 128 then [to_ascii_lower c]
        else if byte c < 192 then []
        else lower s i)"

definition to_lowercase :: "(string \<Rightarrow> nat \<Rightarrow> string) \<Rightarrow> string \<Rightarrow> string" where
  "to_lowercase lower s = concat (map (lower_at lower s) (enumerate 0 s))"

lemma map_enumerate_snd: "map (\<lambda>ic. f (snd ic)) (enumerate n xs) = map f xs"
  by (induction xs arbitrary: n) auto

lemma to_lowercase_ascii:
  assumes "list_all (\<lambda>c. byte c < 128) s"
  shows "to_lowercase lower s = map to_ascii_lower s"
proof -
  have "map (lower_at lower s) (enumerate 0 s) = map (\<lambda>ic. [to_ascii_lower (snd ic)]) (enumerate 0 s)"
    using assms by (auto simp: lower_at_def list_all_iff in_set_enumerate_eq)
  also have "\<dots> = map (\<lambda>c. [to_ascii_lower c]) s"
    by (rule map_enumerate_snd)
  finally have "map (lower_at lower s) (enumerate 0 s) = map (\<lambda>c. [to_ascii_lower c]) s" .
  then show ?thesis by (simp add: to_lowercase_def)
qed

lemma to_lowercase_bytes:
  "c \<in> set (to_lowercase lower s) \<Longrightarrow>
     (\<exists>d. c = to_ascii_lower d) \<or> (\<exists>i < length s. c \<in> set (lower s i))"
  by (fastforce simp: to_lowercase_def lower_at_def in_set_enumerate_eq split: if_splits)

section \<open>UTF-8\<close>

text \<open>
  The character at the front of a non-empty byte sequence: how many bytes belong to it, and
  whether they are a valid encoding. For an invalid one the count is that of the bytes Rust
  replaces by one U+FFFD (the longest prefix of a valid encoding, or a single byte).
\<close>

definition continues :: "nat \<Rightarrow> nat \<Rightarrow> string \<Rightarrow> nat \<Rightarrow> bool" where
  "continues lo hi s i \<longleftrightarrow> i < length s \<and> lo \<le> byte (s ! i) \<and> byte (s ! i) \<le> hi"

definition utf8_step :: "string \<Rightarrow> nat \<times> bool" where
  "utf8_step s =
     (let b = byte (hd s) in
      if b < 128 then (1, True)
      else if 194 \<le> b \<and> b \<le> 223 then
        (if continues 128 191 s 1 then (2, True) else (1, False))
      else if 224 \<le> b \<and> b \<le> 239 then
        (let lo = (if b = 224 then 160 else 128); hi = (if b = 237 then 159 else 191) in
         if \<not> continues lo hi s 1 then (1, False)
         else if \<not> continues 128 191 s 2 then (2, False)
         else (3, True))
      else if 240 \<le> b \<and> b \<le> 244 then
        (let lo = (if b = 240 then 144 else 128); hi = (if b = 244 then 143 else 191) in
         if \<not> continues lo hi s 1 then (1, False)
         else if \<not> continues 128 191 s 2 then (2, False)
         else if \<not> continues 128 191 s 3 then (3, False)
         else (4, True))
      else (1, False))"

lemma utf8_step_pos: "0 < fst (utf8_step s)"
  by (simp add: utf8_step_def Let_def)

lemma drop_utf8_step_shorter: "s \<noteq> [] \<Longrightarrow> length (drop (fst (utf8_step s)) s) < length s"
  using utf8_step_pos [of s] by (cases s) auto

text \<open>\<open>std::str::from_utf8(s).is_ok()\<close>.\<close>

function utf8_valid :: "string \<Rightarrow> bool" where
  "utf8_valid s =
     (if s = [] then True
      else snd (utf8_step s) \<and> utf8_valid (drop (fst (utf8_step s)) s))"
  by pat_completeness auto
termination
  by (relation "measure length") (simp, metis drop_utf8_step_shorter in_measure)

declare utf8_valid.simps [simp del]

text \<open>\<open>String::from_utf8_lossy\<close>: each invalid piece becomes U+FFFD.\<close>

function from_utf8_lossy :: "string \<Rightarrow> string" where
  "from_utf8_lossy s =
     (if s = [] then []
      else (if snd (utf8_step s) then take (fst (utf8_step s)) s else map char_of [239 :: nat, 191, 189])
        @ from_utf8_lossy (drop (fst (utf8_step s)) s))"
  by pat_completeness auto
termination
  by (relation "measure length") (simp, metis drop_utf8_step_shorter in_measure)

declare from_utf8_lossy.simps [simp del]

lemma from_utf8_lossy_ascii:
  "list_all (\<lambda>c. byte c < 128) s \<Longrightarrow> from_utf8_lossy s = s"
proof (induction s)
  case Nil
  then show ?case by (simp add: from_utf8_lossy.simps)
next
  case (Cons c s)
  then show ?case
    by (simp add: from_utf8_lossy.simps [of "c # s"] utf8_step_def)
qed

lemma from_utf8_lossy_valid: "utf8_valid s \<Longrightarrow> from_utf8_lossy s = s"
proof (induction s rule: from_utf8_lossy.induct)
  case (1 s)
  show ?case
  proof (cases "s = []")
    case True
    then show ?thesis by (simp add: from_utf8_lossy.simps)
  next
    case False
    with "1.prems" have "snd (utf8_step s)" and "utf8_valid (drop (fst (utf8_step s)) s)"
      by (simp_all add: utf8_valid.simps [of s])
    with "1.IH" False show ?thesis
      by (simp add: from_utf8_lossy.simps [of s])
  qed
qed

section \<open>Digits\<close>

text \<open>The digits of a number, most significant first, without leading zeros.\<close>

fun to_digits :: "nat \<Rightarrow> nat \<Rightarrow> nat list" where
  "to_digits b n = (if b < 2 \<or> n < b then [n] else to_digits b (n div b) @ [n mod b])"

declare to_digits.simps [simp del]

definition digit_char :: "nat \<Rightarrow> char" where
  "digit_char d = char_of (if d < 10 then 48 + d else 87 + d)"

text \<open>\<open>format!("{}")\<close> of an unsigned integer.\<close>

definition fmt_dec :: "nat \<Rightarrow> string" where
  "fmt_dec n = map digit_char (to_digits 10 n)"

text \<open>\<open>format!("{:x}")\<close> of an unsigned integer.\<close>

definition fmt_hex :: "nat \<Rightarrow> string" where
  "fmt_hex n = map digit_char (to_digits 16 n)"

text \<open>\<open>char::to_digit\<close>.\<close>

definition to_digit :: "nat \<Rightarrow> char \<Rightarrow> nat option" where
  "to_digit radix c =
     (let d = (if is_ascii_digit c then byte c - 48
               else if is_ascii_lower c then byte c - 87
               else if is_ascii_upper c then byte c - 55
               else radix)
      in if d < radix then Some d else None)"

definition digits_value :: "nat \<Rightarrow> nat list \<Rightarrow> nat" where
  "digits_value b ds = foldl (\<lambda>acc d. acc * b + d) 0 ds"

lemma digits_value_to_digits: "2 \<le> b \<Longrightarrow> digits_value b (to_digits b n) = n"
proof (induction b n rule: to_digits.induct)
  case (1 b n)
  then show ?case
    by (cases "n < b") (simp_all add: to_digits.simps [of b n] digits_value_def)
qed

lemma to_digits_less: "2 \<le> b \<Longrightarrow> d \<in> set (to_digits b n) \<Longrightarrow> d < b"
proof (induction b n rule: to_digits.induct)
  case (1 b n)
  then show ?case
    by (cases "n < b") (auto simp: to_digits.simps [of b n])
qed

lemma to_digits_not_Nil [simp]: "to_digits b n \<noteq> []"
  by (simp add: to_digits.simps)

lemma to_digits_length: "2 \<le> b \<Longrightarrow> n < b ^ k \<Longrightarrow> 0 < k \<Longrightarrow> length (to_digits b n) \<le> k"
proof (induction b n arbitrary: k rule: to_digits.induct)
  case (1 b n)
  show ?case
  proof (cases "n < b")
    case True
    with "1.prems" show ?thesis by (simp add: to_digits.simps [of b n])
  next
    case False
    with "1.prems" have "k \<noteq> 1" by auto
    with "1.prems"(3) obtain j where j: "k = Suc j" "0 < j"
      by (cases k) auto
    have "n div b < b ^ j"
      using "1.prems"(1,2) j by (simp add: less_mult_imp_div_less mult.commute)
    with "1.IH" False "1.prems"(1) j have "length (to_digits b (n div b)) \<le> j" by simp
    with False "1.prems"(1) j show ?thesis by (simp add: to_digits.simps [of b n])
  qed
qed

lemma hd_to_digits: "2 \<le> b \<Longrightarrow> 0 < n \<Longrightarrow> hd (to_digits b n) \<noteq> 0"
proof (induction b n rule: to_digits.induct)
  case (1 b n)
  show ?case
  proof (cases "n < b")
    case True
    with "1.prems" show ?thesis by (simp add: to_digits.simps [of b n])
  next
    case False
    with "1.prems" have "0 < n div b" by (simp add: div_greater_zero_iff)
    with "1.IH" False "1.prems"(1) show ?thesis by (simp add: to_digits.simps [of b n])
  qed
qed

lemma to_digit_digit_char: "d < radix \<Longrightarrow> radix \<le> 36 \<Longrightarrow> to_digit radix (digit_char d) = Some d"
  by (auto simp: to_digit_def digit_char_def Let_def ascii_defs)

lemma byte_digit_char: "d < 16 \<Longrightarrow> byte (digit_char d) = (if d < 10 then 48 + d else 87 + d)"
  by (simp add: digit_char_def)

lemma fmt_dec_digits: "c \<in> set (fmt_dec n) \<Longrightarrow> is_ascii_digit c"
  by (auto simp: fmt_dec_def is_ascii_digit_def digit_char_def dest!: to_digits_less [rotated])

lemma fmt_hex_digits: "c \<in> set (fmt_hex n) \<Longrightarrow> is_ascii_digit c \<or> (97 \<le> byte c \<and> byte c \<le> 102)"
  by (auto simp: fmt_hex_def is_ascii_digit_def digit_char_def split: if_splits
      dest!: to_digits_less [rotated])

lemma fmt_not_Nil [simp]: "fmt_dec n \<noteq> []" "fmt_hex n \<noteq> []"
  by (simp_all add: fmt_dec_def fmt_hex_def)

text \<open>The decimal text determines the number.\<close>

lemma fmt_dec_digits_back: "map (to_digit 10) (fmt_dec n) = map Some (to_digits 10 n)"
  by (auto simp: fmt_dec_def intro!: to_digit_digit_char to_digits_less)

lemma fmt_dec_inj: "fmt_dec m = fmt_dec n \<longleftrightarrow> m = n"
proof
  assume "fmt_dec m = fmt_dec n"
  then have "map Some (to_digits 10 m) = map Some (to_digits 10 n)"
    unfolding fmt_dec_digits_back [symmetric] by (rule arg_cong)
  then have "to_digits 10 m = to_digits 10 n" by (simp add: inj_map_eq_map)
  then have "digits_value 10 (to_digits 10 m) = digits_value 10 (to_digits 10 n)" by simp
  then show "m = n" by (simp add: digits_value_to_digits)
qed simp

section \<open>Removing a prefix as often as it is there\<close>

lemma trim_start_matches_prefix:
  assumes "p \<noteq> []"
  shows "trim_start_matches p (p @ s) = trim_start_matches p s"
proof -
  have "strip_prefix p (p @ s) = Some s" by (simp add: strip_prefix_Some_iff)
  with assms show ?thesis by (simp add: trim_start_matches_def strip_while.simps [of _ "p @ s"])
qed

lemma trim_start_matches_none:
  assumes "c \<in> set p" and "c \<notin> set s"
  shows "trim_start_matches p s = s"
proof -
  have "strip_prefix p s = None" using assms by (auto simp: strip_prefix_None_iff)
  then show ?thesis by (simp add: trim_start_matches_def strip_while_None)
qed

end
