(* ===== verification/Net_Addr.thy ===== *)
theory Net_Addr
  imports Rust_Text
begin

text \<open>
  \<open>std::net::{Ipv4Addr, Ipv6Addr, IpAddr}\<close>: their text form (\<open>Display\<close>) and their parser
  (\<open>FromStr\<close>), as the standard library has them. The client parses what the address service
  answers, both sides carry addresses as text in JSON, and the Route 53 request prints them.
  The last section shows that parsing is the inverse of printing.
\<close>

section \<open>Addresses\<close>

datatype ipv4_addr = Ipv4_Addr u8 u8 u8 u8

text \<open>The eight segments of an IPv6 address.\<close>

datatype ipv6_addr = Ipv6_Addr u16 u16 u16 u16 u16 u16 u16 u16

datatype ip_addr = V4 ipv4_addr | V6 ipv6_addr

fun octets :: "ipv4_addr \<Rightarrow> u8 list" where
  "octets (Ipv4_Addr a b c d) = [a, b, c, d]"

fun segments :: "ipv6_addr \<Rightarrow> u16 list" where
  "segments (Ipv6_Addr a b c d e f g h) = [a, b, c, d, e, f, g, h]"

fun ipv4_of :: "u8 list \<Rightarrow> ipv4_addr option" where
  "ipv4_of [a, b, c, d] = Some (Ipv4_Addr a b c d)"
| "ipv4_of _ = None"

fun ipv6_of :: "u16 list \<Rightarrow> ipv6_addr option" where
  "ipv6_of [a, b, c, d, e, f, g, h] = Some (Ipv6_Addr a b c d e f g h)"
| "ipv6_of _ = None"

lemma ipv4_of_octets [simp]: "ipv4_of (octets ip) = Some ip"
  by (cases ip) simp

lemma ipv6_of_segments [simp]: "ipv6_of (segments ip) = Some ip"
  by (cases ip) simp

lemma length_segments [simp]: "length (segments ip) = 8"
  by (cases ip) simp

section \<open>Text form\<close>

definition ipv4_display :: "ipv4_addr \<Rightarrow> string" where
  "ipv4_display ip = join_with ''.'' (map (\<lambda>b. fmt_dec (unat b)) (octets ip))"

text \<open>\<open>fmt_subslice\<close>: segments in hexadecimal, separated by colons.\<close>

definition fmt_segments :: "u16 list \<Rightarrow> string" where
  "fmt_segments ws = join_with '':'' (map (\<lambda>w. fmt_hex (unat w)) ws)"

text \<open>
  The loop that finds the longest run of zero segments; a span is its start and length, and an
  earlier span wins over a later one of the same length.
\<close>

fun zero_spans :: "u16 list \<Rightarrow> nat \<Rightarrow> nat \<times> nat \<Rightarrow> nat \<times> nat \<Rightarrow> nat \<times> nat" where
  "zero_spans [] i longest current = longest"
| "zero_spans (w # ws) i (ls, ll) (cs, cl) =
     (if w = 0 then
        (let cs' = (if cl = 0 then i else cs); cl' = Suc cl in
         zero_spans ws (Suc i) (if ll < cl' then (cs', cl') else (ls, ll)) (cs', cl'))
      else zero_spans ws (Suc i) (ls, ll) (0, 0))"

definition longest_zeroes :: "u16 list \<Rightarrow> nat \<times> nat" where
  "longest_zeroes ws = zero_spans ws 0 (0, 0) (0, 0)"

text \<open>\<open>u16::from_be_bytes\<close> and its inverse.\<close>

definition u16_of_be :: "u8 \<Rightarrow> u8 \<Rightarrow> u16" where
  "u16_of_be hi lo = word_of_nat (unat hi * 256 + unat lo)"

definition be_of_u16 :: "u16 \<Rightarrow> u8 \<times> u8" where
  "be_of_u16 w = (word_of_nat (unat w div 256), word_of_nat (unat w mod 256))"

text \<open>\<open>Ipv6Addr::to_ipv4_mapped\<close>: the address \<open>::ffff:a.b.c.d\<close>.\<close>

definition to_ipv4_mapped :: "ipv6_addr \<Rightarrow> ipv4_addr option" where
  "to_ipv4_mapped ip =
     (case ip of Ipv6_Addr a b c d e f g h \<Rightarrow>
        if a = 0 \<and> b = 0 \<and> c = 0 \<and> d = 0 \<and> e = 0 \<and> f = 65535 then
          (case (be_of_u16 g, be_of_u16 h) of ((g1, g2), (h1, h2)) \<Rightarrow> Some (Ipv4_Addr g1 g2 h1 h2))
        else None)"

definition ipv6_display :: "ipv6_addr \<Rightarrow> string" where
  "ipv6_display ip =
     (case to_ipv4_mapped ip of
        Some v4 \<Rightarrow> ''::ffff:'' @ ipv4_display v4
      | None \<Rightarrow>
          (case longest_zeroes (segments ip) of (start, len) \<Rightarrow>
             if 1 < len then
               fmt_segments (take start (segments ip)) @ ''::'' @
               fmt_segments (drop (start + len) (segments ip))
             else fmt_segments (segments ip)))"

section \<open>The parser\<close>

text \<open>
  A step of the parser that runs atomically: it fails and leaves the input where it was, or it
  succeeds with the rest of the input.
\<close>

type_synonym 'a parser = "string \<Rightarrow> ('a \<times> string) option"

definition read_given_char :: "char \<Rightarrow> unit parser" where
  "read_given_char c s = (case s of [] \<Rightarrow> None | d # ds \<Rightarrow> if d = c then Some ((), ds) else None)"

definition read_separator :: "char \<Rightarrow> nat \<Rightarrow> 'a parser \<Rightarrow> 'a parser" where
  "read_separator sep index inner s =
     (if 0 < index then (case read_given_char sep s of None \<Rightarrow> None | Some (_, r) \<Rightarrow> inner r)
      else inner s)"

text \<open>The digit loop of \<open>read_number\<close>: the number, how many digits it had, and the rest.\<close>

fun number_loop :: "nat \<Rightarrow> nat \<Rightarrow> nat \<Rightarrow> nat \<Rightarrow> string \<Rightarrow> (nat \<times> nat \<times> string) option" where
  "number_loop radix maxd acc cnt [] = Some (acc, cnt, [])"
| "number_loop radix maxd acc cnt (c # cs) =
     (case to_digit radix c of
        None \<Rightarrow> Some (acc, cnt, c # cs)
      | Some d \<Rightarrow>
          if maxd < Suc cnt then None
          else number_loop radix maxd (acc * radix + d) (Suc cnt) cs)"

text \<open>\<open>limit\<close> is the number of values of the result type, for \<open>try_into\<close>.\<close>

definition read_number :: "nat \<Rightarrow> nat \<Rightarrow> bool \<Rightarrow> nat \<Rightarrow> nat parser" where
  "read_number radix maxd allow_zero_prefix limit s =
     (case number_loop radix maxd 0 0 s of
        None \<Rightarrow> None
      | Some (v, cnt, rest) \<Rightarrow>
          if cnt = 0 then None
          else if \<not> allow_zero_prefix \<and> starts_with ''0'' s \<and> 1 < cnt then None
          else if v < limit then Some (v, rest) else None)"

text \<open>The four groups of \<open>read_ipv4_addr\<close>.\<close>

fun read_octets :: "nat \<Rightarrow> nat \<Rightarrow> u8 list parser" where
  "read_octets 0 i s = Some ([], s)"
| "read_octets (Suc n) i s =
     (case read_separator (CHR ''.'') i (read_number 10 3 False 256) s of
        None \<Rightarrow> None
      | Some (v, r) \<Rightarrow> map_option (\<lambda>(vs, r'). (word_of_nat v # vs, r')) (read_octets n (Suc i) r))"

definition read_ipv4_addr :: "ipv4_addr parser" where
  "read_ipv4_addr s =
     (case read_octets 4 0 s of
        None \<Rightarrow> None
      | Some (vs, r) \<Rightarrow> map_option (\<lambda>ip. (ip, r)) (ipv4_of vs))"

text \<open>
  \<open>read_groups\<close> fills at most \<open>i + n\<close> groups, of which \<open>i\<close> are there already: the groups
  read, whether they ended with an embedded IPv4 address, and the rest of the input.
\<close>

fun read_groups :: "nat \<Rightarrow> nat \<Rightarrow> string \<Rightarrow> u16 list \<times> bool \<times> string" where
  "read_groups 0 i s = ([], False, s)"
| "read_groups (Suc n) i s =
     (case (if 0 < n then read_separator (CHR '':'') i read_ipv4_addr s else None) of
        Some (Ipv4_Addr a b c d, r) \<Rightarrow> ([u16_of_be a b, u16_of_be c d], True, r)
      | None \<Rightarrow>
          (case read_separator (CHR '':'') i (read_number 16 4 True 65536) s of
             None \<Rightarrow> ([], False, s)
           | Some (v, r) \<Rightarrow>
               (case read_groups n (Suc i) r of (gs, v4, r') \<Rightarrow> (word_of_nat v # gs, v4, r'))))"

definition read_ipv6_addr :: "ipv6_addr parser" where
  "read_ipv6_addr s =
     (case read_groups 8 0 s of (head, head_v4, r) \<Rightarrow>
        if length head = 8 then map_option (\<lambda>ip. (ip, r)) (ipv6_of head)
        else if head_v4 then None
        else (case read_given_char (CHR '':'') r of
          None \<Rightarrow> None
        | Some (_, r1) \<Rightarrow>
            (case read_given_char (CHR '':'') r1 of
               None \<Rightarrow> None
             | Some (_, r2) \<Rightarrow>
                 (case read_groups (8 - (length head + 1)) 0 r2 of (tail, _, r3) \<Rightarrow>
                    map_option (\<lambda>ip. (ip, r3))
                      (ipv6_of (head @ replicate (8 - length head - length tail) 0 @ tail))))))"

definition read_ip_addr :: "ip_addr parser" where
  "read_ip_addr s =
     (case read_ipv4_addr s of
        Some (v4, r) \<Rightarrow> Some (V4 v4, r)
      | None \<Rightarrow> map_option (\<lambda>(v6, r). (V6 v6, r)) (read_ipv6_addr s))"

text \<open>\<open>parse_with\<close>: the whole input must be consumed.\<close>

definition parse_with :: "'a parser \<Rightarrow> string \<Rightarrow> 'a option" where
  "parse_with p s = (case p s of Some (x, []) \<Rightarrow> Some x | _ \<Rightarrow> None)"

definition ip_from_str :: "string \<Rightarrow> ip_addr option" where
  "ip_from_str s = parse_with read_ip_addr s"

text \<open>\<open>Ipv4Addr::from_str\<close> refuses long input before it parses.\<close>

definition ipv4_from_str :: "string \<Rightarrow> ipv4_addr option" where
  "ipv4_from_str s = (if 15 < length s then None else parse_with read_ipv4_addr s)"

definition ipv6_from_str :: "string \<Rightarrow> ipv6_addr option" where
  "ipv6_from_str s = parse_with read_ipv6_addr s"

fun ip_display :: "ip_addr \<Rightarrow> string" where
  "ip_display (V4 ip) = ipv4_display ip"
| "ip_display (V6 ip) = ipv6_display ip"

section \<open>Reading back a printed number\<close>

text \<open>What follows the digits of a number: the end of the input or a character that is no digit.\<close>

definition stops :: "nat \<Rightarrow> string \<Rightarrow> bool" where
  "stops radix r \<longleftrightarrow> (case r of [] \<Rightarrow> True | c # _ \<Rightarrow> to_digit radix c = None)"

lemma stops_simps [simp]:
  "stops radix []" "stops radix (c # r) \<longleftrightarrow> to_digit radix c = None"
  by (simp_all add: stops_def)

lemma to_digit_separators [simp]:
  "to_digit 10 (CHR ''.'') = None" "to_digit 10 (CHR '':'') = None" "to_digit 16 (CHR '':'') = None"
  by (simp_all add: to_digit_def ascii_defs)

lemma number_loop_digits:
  "\<forall>d \<in> set ds. d < radix \<Longrightarrow> radix \<le> 36 \<Longrightarrow> cnt + length ds \<le> maxd \<Longrightarrow> stops radix r \<Longrightarrow>
   number_loop radix maxd acc cnt (map digit_char ds @ r) =
     Some (foldl (\<lambda>a d. a * radix + d) acc ds, cnt + length ds, r)"
proof (induction ds arbitrary: acc cnt)
  case Nil
  then show ?case by (cases r) auto
next
  case (Cons d ds)
  then show ?case by (simp add: to_digit_digit_char)
qed

lemma read_number_printed:
  assumes radix: "2 \<le> radix" "radix \<le> 36" and n: "n < radix ^ maxd" "0 < maxd" "n < limit"
    and stop: "stops radix r"
  shows "read_number radix maxd allow_zero limit (map digit_char (to_digits radix n) @ r) = Some (n, r)"
proof -
  let ?ds = "to_digits radix n"
  have len: "length ?ds \<le> maxd" using to_digits_length radix n by blast
  have loop: "number_loop radix maxd 0 0 (map digit_char ?ds @ r) = Some (n, length ?ds, r)"
    using number_loop_digits [of ?ds radix 0 maxd r 0] to_digits_less [of radix] len radix stop
      digits_value_to_digits [of radix n] by (simp add: digits_value_def)
  have "\<not> (starts_with ''0'' (map digit_char ?ds @ r) \<and> 1 < length ?ds)"
  proof
    assume zero: "starts_with ''0'' (map digit_char ?ds @ r) \<and> 1 < length ?ds"
    then have "\<not> n < radix" using radix by (auto simp: to_digits.simps [of radix n])
    then have "hd ?ds \<noteq> 0" using hd_to_digits [of radix n] radix by simp
    moreover have "hd ?ds < radix" using to_digits_less [of radix] radix by (metis hd_in_set to_digits_not_Nil)
    moreover have "digit_char (hd ?ds) = CHR ''0''"
      using zero by (cases ?ds) (auto simp: starts_with_iff)
    ultimately show False
      using to_digit_digit_char [of "hd ?ds" radix] radix by (simp add: to_digit_def ascii_defs)
  qed
  moreover have "length ?ds \<noteq> 0" by simp
  ultimately show ?thesis using loop n(3) by (auto simp: read_number_def)
qed

lemma read_dec_printed:
  "n < 256 \<Longrightarrow> stops 10 r \<Longrightarrow> read_number 10 3 False 256 (fmt_dec n @ r) = Some (n, r)"
  unfolding fmt_dec_def by (rule read_number_printed) auto

lemma read_hex_printed:
  "n < 65536 \<Longrightarrow> stops 16 r \<Longrightarrow> read_number 16 4 True 65536 (fmt_hex n @ r) = Some (n, r)"
  unfolding fmt_hex_def by (rule read_number_printed) auto

lemma read_number_no_digit: "stops radix r \<Longrightarrow> read_number radix maxd az limit r = None"
  by (cases r) (auto simp: read_number_def)

lemma unat_u8 [simp]: "unat (b :: u8) < 256"
  using unsigned_less [of b] by simp

lemma unat_u16 [simp]: "unat (w :: u16) < 65536"
  using unsigned_less [of w] by simp

section \<open>IPv4: parsing is the inverse of printing\<close>

lemma read_octets_4:
  "read_octets 4 0 s = read_octets (Suc (Suc (Suc (Suc 0)))) 0 s"
  by (simp add: eval_nat_numeral)

lemma read_ipv4_printed:
  assumes "stops 10 r"
  shows "read_ipv4_addr (ipv4_display ip @ r) = Some (ip, r)"
proof -
  obtain a b c d where ip: "ip = Ipv4_Addr a b c d" by (cases ip)
  show ?thesis
    using assms
    by (simp add: read_ipv4_addr_def read_octets_4 ip ipv4_display_def read_separator_def
        read_given_char_def read_dec_printed)
qed

lemma length_fmt_u8: "length (fmt_dec (unat (b :: u8))) \<le> 3"
  unfolding fmt_dec_def using to_digits_length [of 10 "unat b" 3] unat_u8 [of b] by simp

lemma length_ipv4_display: "length (ipv4_display ip) \<le> 15"
proof -
  obtain a b c d where ip: "ip = Ipv4_Addr a b c d" by (cases ip)
  show ?thesis
    using length_fmt_u8 [of a] length_fmt_u8 [of b] length_fmt_u8 [of c] length_fmt_u8 [of d]
    by (simp add: ip ipv4_display_def)
qed

lemma ipv4_from_str_display: "ipv4_from_str (ipv4_display ip) = Some ip"
  using length_ipv4_display [of ip] read_ipv4_printed [of "[]" ip]
  by (simp add: ipv4_from_str_def parse_with_def)

interpretation ipv4_text: codec ipv4_display ipv4_from_str
  by unfold_locales (rule ipv4_from_str_display)

lemma ipv4_display_chars: "c \<in> set (ipv4_display ip) \<Longrightarrow> is_ascii_digit c \<or> c = CHR ''.''"
proof -
  assume "c \<in> set (ipv4_display ip)"
  then have "c \<in> set ''.'' \<union> (\<Union>w \<in> set (map (\<lambda>b. fmt_dec (unat b)) (octets ip)). set w)"
    unfolding ipv4_display_def using set_join_with by blast
  then show ?thesis by (auto dest: fmt_dec_digits)
qed

section \<open>IPv6: parsing is the inverse of printing\<close>

lemma number_loop_rest: "number_loop radix maxd acc cnt s = Some (v, n, r) \<Longrightarrow> set r \<subseteq> set s"
  by (induction radix maxd acc cnt s rule: number_loop.induct)
     (auto split: option.splits if_splits)

lemma read_number_rest: "read_number radix maxd az limit s = Some (v, r) \<Longrightarrow> set r \<subseteq> set s"
  by (auto simp: read_number_def dest!: number_loop_rest split: option.splits if_splits)

text \<open>Text without a dot is no IPv4 address.\<close>

lemma read_ipv4_no_dot: "CHR ''.'' \<notin> set s \<Longrightarrow> read_ipv4_addr s = None"
proof -
  assume no_dot: "CHR ''.'' \<notin> set s"
  have "read_octets 4 0 s = None"
  proof (cases "read_number 10 3 False 256 s")
    case (Some vr)
    obtain v r where vr: "vr = (v, r)" by (cases vr)
    with Some no_dot have "CHR ''.'' \<notin> set r" using read_number_rest by blast
    then have "read_given_char (CHR ''.'') r = None"
      by (auto simp: read_given_char_def split: list.splits)
    with Some vr show ?thesis by (simp add: read_octets_4 read_separator_def)
  qed (simp add: read_octets_4 read_separator_def)
  then show ?thesis by (simp add: read_ipv4_addr_def)
qed

lemma separated_ipv4_no_dot: "CHR ''.'' \<notin> set s \<Longrightarrow> read_separator (CHR '':'') i read_ipv4_addr s = None"
  by (auto simp: read_separator_def read_given_char_def read_ipv4_no_dot split: list.splits)

text \<open>The groups after the first, each with its colon.\<close>

definition later_groups :: "u16 list \<Rightarrow> string" where
  "later_groups ws = concat (map (\<lambda>w. CHR '':'' # fmt_hex (unat w)) ws)"

lemma later_groups_simps [simp]:
  "later_groups [] = []"
  "later_groups (w # ws) = CHR '':'' # fmt_hex (unat w) @ later_groups ws"
  by (simp_all add: later_groups_def)

lemma fmt_segments_Nil [simp]: "fmt_segments [] = []"
  by (simp add: fmt_segments_def)

lemma fmt_segments_Cons: "fmt_segments (w # ws) = fmt_hex (unat w) @ later_groups ws"
  by (induction ws arbitrary: w) (simp_all add: fmt_segments_def)

lemma fmt_hex_no_dot: "CHR ''.'' \<notin> set (fmt_hex n)"
  by (auto simp: is_ascii_digit_def dest!: fmt_hex_digits)

lemma later_groups_no_dot: "CHR ''.'' \<notin> set (later_groups ws)"
  by (induction ws) (auto simp: fmt_hex_no_dot)

lemma fmt_segments_no_dot: "CHR ''.'' \<notin> set (fmt_segments ws)"
  by (cases ws) (auto simp: fmt_segments_Cons fmt_hex_no_dot later_groups_no_dot)

text \<open>Text at which the group loop stops: the end, or the two colons of the gap.\<close>

definition gap_or_end :: "string \<Rightarrow> bool" where
  "gap_or_end r \<longleftrightarrow> r = [] \<or> (\<exists>t. r = CHR '':'' # CHR '':'' # t)"

lemma gap_stops: "gap_or_end r \<Longrightarrow> stops 16 r"
  by (auto simp: gap_or_end_def)

lemma later_groups_stop: "gap_or_end r \<Longrightarrow> stops 16 (later_groups ws @ r)"
  by (cases ws) (auto dest: gap_stops)

lemma separated_number_gap:
  "gap_or_end r \<Longrightarrow> read_separator (CHR '':'') i (read_number 16 4 True 65536) r = None"
  by (auto simp: gap_or_end_def read_separator_def read_given_char_def read_number_no_digit)

lemma read_later_groups:
  "gap_or_end r \<Longrightarrow> CHR ''.'' \<notin> set r \<Longrightarrow> length ws \<le> n \<Longrightarrow>
   read_groups n (Suc i) (later_groups ws @ r) = (ws, False, r)"
proof (induction ws arbitrary: n i)
  case Nil
  then show ?case
    by (cases n) (simp_all add: separated_ipv4_no_dot separated_number_gap)
next
  case (Cons w ws)
  from Cons.prems obtain m where n: "n = Suc m" by (cases n) auto
  have "read_separator (CHR '':'') (Suc i) read_ipv4_addr (later_groups (w # ws) @ r) = None"
    using later_groups_no_dot [of "w # ws"] Cons.prems(2) by (intro separated_ipv4_no_dot) simp
  then have ipv4: "(if 0 < m then read_separator (CHR '':'') (Suc i) read_ipv4_addr
      (later_groups (w # ws) @ r) else None) = None" by simp
  have "read_separator (CHR '':'') (Suc i) (read_number 16 4 True 65536) (later_groups (w # ws) @ r)
      = Some (unat w, later_groups ws @ r)"
    using later_groups_stop [OF Cons.prems(1), of ws]
    by (simp add: read_separator_def read_given_char_def read_hex_printed)
  moreover have "read_groups m (Suc (Suc i)) (later_groups ws @ r) = (ws, False, r)"
    using Cons n by simp
  ultimately show ?case
    unfolding n read_groups.simps ipv4 by simp
qed

lemma read_first_groups:
  assumes "gap_or_end r" and "CHR ''.'' \<notin> set r" and "length ws \<le> n"
  shows "read_groups n 0 (fmt_segments ws @ r) = (ws, False, r)"
proof (cases ws)
  case Nil
  with assms show ?thesis
    by (cases n) (simp_all add: separated_ipv4_no_dot separated_number_gap)
next
  case (Cons w vs)
  with assms(3) obtain m where n: "n = Suc m" by (cases n) auto
  have "read_separator (CHR '':'') 0 read_ipv4_addr (fmt_segments ws @ r) = None"
    using fmt_segments_no_dot [of ws] assms(2) by (intro separated_ipv4_no_dot) simp
  then have ipv4: "(if 0 < m then read_separator (CHR '':'') 0 read_ipv4_addr
      (fmt_segments ws @ r) else None) = None" by simp
  have "read_separator (CHR '':'') 0 (read_number 16 4 True 65536) (fmt_segments ws @ r)
      = Some (unat w, later_groups vs @ r)"
    using later_groups_stop [OF assms(1), of vs]
    by (simp add: read_separator_def Cons fmt_segments_Cons read_hex_printed)
  moreover have "read_groups m (Suc 0) (later_groups vs @ r) = (vs, False, r)"
    using assms Cons n by (intro read_later_groups) auto
  ultimately show ?thesis
    unfolding n read_groups.simps ipv4 using Cons by simp
qed

text \<open>The span found lies inside the address and covers zero segments only.\<close>

definition zero_span :: "u16 list \<Rightarrow> nat \<times> nat \<Rightarrow> bool" where
  "zero_span ws sl \<longleftrightarrow>
     (case sl of (s, l) \<Rightarrow> s + l \<le> length ws \<and> take l (drop s ws) = replicate l 0)"

lemma zero_span_extend: "zero_span pre sl \<Longrightarrow> zero_span (pre @ ws) sl"
  by (auto simp: zero_span_def split: prod.splits)

lemma zero_spans_inv:
  assumes "zero_span pre longest" and "zero_span pre (cs, cl)" and "0 < cl \<longrightarrow> cs + cl = length pre"
  shows "zero_span (pre @ ws) (zero_spans ws (length pre) longest (cs, cl))"
  using assms
proof (induction ws arbitrary: pre longest cs cl)
  case Nil
  then show ?case by simp
next
  case (Cons w ws)
  obtain ls ll where longest: "longest = (ls, ll)" by (cases longest)
  show ?case
  proof (cases "w = 0")
    case True
    define cs' where "cs' = (if cl = 0 then length pre else cs)"
    have cur: "zero_span (pre @ [w]) (cs', Suc cl)"
    proof (cases "cl = 0")
      case True
      with \<open>w = 0\<close> show ?thesis by (simp add: zero_span_def cs'_def)
    next
      case False
      with Cons.prems have end_cur: "cs + cl = length pre" and z: "take cl (drop cs pre) = replicate cl 0"
        by (simp_all add: zero_span_def)
      then have "drop cs pre = replicate cl 0" by simp
      with end_cur False \<open>w = 0\<close> show ?thesis
        by (simp add: zero_span_def cs'_def replicate_append_same)
    qed
    have "cs' + Suc cl = length (pre @ [w])" using Cons.prems(3) by (auto simp: cs'_def)
    moreover have "zero_span (pre @ [w]) (if ll < Suc cl then (cs', Suc cl) else (ls, ll))"
      using cur zero_span_extend [OF Cons.prems(1)] longest by simp
    ultimately have "zero_span ((pre @ [w]) @ ws) (zero_spans ws (length (pre @ [w]))
        (if ll < Suc cl then (cs', Suc cl) else (ls, ll)) (cs', Suc cl))"
      using cur by (intro Cons.IH) simp_all
    moreover have "zero_spans (w # ws) (length pre) longest (cs, cl) =
        zero_spans ws (length (pre @ [w])) (if ll < Suc cl then (cs', Suc cl) else (ls, ll)) (cs', Suc cl)"
      by (simp add: True longest Let_def cs'_def)
    ultimately show ?thesis by simp
  next
    case False
    have "zero_span ((pre @ [w]) @ ws) (zero_spans ws (length (pre @ [w])) longest (0, 0))"
    proof (rule Cons.IH)
      show "zero_span (pre @ [w]) longest" by (rule zero_span_extend [OF Cons.prems(1)])
    qed (simp_all add: zero_span_def)
    with False longest show ?thesis by simp
  qed
qed

lemma longest_zeroes_span: "zero_span ws (longest_zeroes ws)"
  using zero_spans_inv [of "[]" "(0, 0)" 0 0 ws] by (simp add: longest_zeroes_def zero_span_def)

lemma zero_span_split:
  "zero_span ws (s, l) \<Longrightarrow> take s ws @ replicate l 0 @ drop (s + l) ws = ws"
proof -
  assume "zero_span ws (s, l)"
  then have "replicate l 0 = take l (drop s ws)" by (simp add: zero_span_def)
  moreover have "drop (s + l) ws = drop l (drop s ws)" by (simp add: add.commute)
  ultimately show ?thesis by (simp only: append_take_drop_id)
qed

text \<open>The mapped form carries its last two segments as an IPv4 address.\<close>

lemma u16_of_be_of: "(case be_of_u16 w of (hi, lo) \<Rightarrow> u16_of_be hi lo) = w"
proof -
  have "unat w div 256 < 256" using unat_u16 [of w] by (simp add: less_mult_imp_div_less)
  then have hi: "unat (word_of_nat (unat w div 256) :: u8) = unat w div 256"
    by (simp add: unat_of_nat)
  have lo: "unat (word_of_nat (unat w mod 256) :: u8) = unat w mod 256"
    by (simp add: unat_of_nat)
  show ?thesis
    by (simp only: be_of_u16_def u16_of_be_def prod.case hi lo div_mult_mod_eq) simp
qed

lemma mapped_text_groups:
  "read_groups 8 0 (''::ffff:'' @ t) = ([], False, ''::ffff:'' @ t)"
proof -
  have "read_ipv4_addr (''::ffff:'' @ t) = None"
    by (simp add: read_ipv4_addr_def read_octets_4 read_separator_def read_number_no_digit)
  moreover have "read_groups 8 0 s = read_groups (Suc 7) 0 s" for s by simp
  ultimately show ?thesis
    by (simp only: read_groups.simps) (simp add: read_separator_def read_number_no_digit)
qed

lemma mapped_text_tail:
  "read_groups 7 0 (''ffff:'' @ ipv4_display (Ipv4_Addr a b c d)) =
     ([65535, u16_of_be a b, u16_of_be c d], True, [])"
proof -
  have "stops 10 (''ffff:'' @ t)" for t by (simp add: to_digit_def ascii_defs)
  then have no_ipv4: "read_ipv4_addr (''ffff:'' @ t) = None" for t
    unfolding read_ipv4_addr_def read_octets_4 by (simp add: read_separator_def read_number_no_digit)
  have "fmt_hex 65535 = ''ffff''"
    by (simp add: fmt_hex_def to_digits.simps digit_char_def char_of_def bit_0)
  then have ffff: "read_number 16 4 True 65536 (''ffff:'' @ t) = Some (65535, CHR '':'' # t)" for t
    using read_hex_printed [of 65535 "CHR '':'' # t"] by simp
  have six: "read_groups 6 i s = read_groups (Suc 5) i s" for i s by simp
  have v4: "read_groups 6 (Suc 0) (CHR '':'' # ipv4_display (Ipv4_Addr a b c d)) =
      ([u16_of_be a b, u16_of_be c d], True, [])"
    unfolding six read_groups.simps
    using read_ipv4_printed [of "[]" "Ipv4_Addr a b c d"]
    by (simp add: read_separator_def read_given_char_def)
  have seven: "read_groups 7 0 s = read_groups (Suc 6) 0 s" for s by simp
  show ?thesis
    unfolding seven read_groups.simps
    using no_ipv4 [of "ipv4_display (Ipv4_Addr a b c d)"]
      ffff [of "ipv4_display (Ipv4_Addr a b c d)"] v4
    by (simp add: read_separator_def)
qed

lemma read_mapped_printed:
  assumes "to_ipv4_mapped ip = Some v4"
  shows "read_ipv6_addr (''::ffff:'' @ ipv4_display v4) = Some (ip, [])"
proof -
  obtain a b c d e f g h where ip: "ip = Ipv6_Addr a b c d e f g h" by (cases ip)
  obtain g1 g2 where g: "be_of_u16 g = (g1, g2)" by (cases "be_of_u16 g")
  obtain h1 h2 where h: "be_of_u16 h = (h1, h2)" by (cases "be_of_u16 h")
  from assms ip g h have zero: "a = 0" "b = 0" "c = 0" "d = 0" "e = 0" "f = 65535"
    and v4: "v4 = Ipv4_Addr g1 g2 h1 h2"
    by (auto simp: to_ipv4_mapped_def split: if_splits)
  have halves: "u16_of_be g1 g2 = g" "u16_of_be h1 h2 = h"
    using u16_of_be_of [of g] u16_of_be_of [of h] g h by simp_all
  show ?thesis
    using mapped_text_groups [of "ipv4_display v4"] mapped_text_tail [of g1 g2 h1 h2]
    by (simp add: read_ipv6_addr_def read_given_char_def v4 halves ip zero eval_nat_numeral)
qed

lemma read_gap_printed:
  assumes span: "zero_span (segments ip) (s, l)" and l: "1 < l"
  shows "read_ipv6_addr (fmt_segments (take s (segments ip)) @ ''::'' @
      fmt_segments (drop (s + l) (segments ip))) = Some (ip, [])"
proof -
  let ?head = "take s (segments ip)" and ?tail = "drop (s + l) (segments ip)"
  have bound: "s + l \<le> 8" using span by (simp add: zero_span_def)
  have "read_groups 8 0 (fmt_segments ?head @ ''::'' @ fmt_segments ?tail) =
      (?head, False, ''::'' @ fmt_segments ?tail)"
    by (rule read_first_groups) (auto simp: gap_or_end_def fmt_segments_no_dot)
  moreover have "read_groups (8 - (length ?head + 1)) 0 (fmt_segments ?tail) = (?tail, False, [])"
    using read_first_groups [of "[]" ?tail "8 - (length ?head + 1)"] bound l
    by (simp add: gap_or_end_def)
  moreover have "8 - length ?head - length ?tail = l" using bound by simp
  ultimately show ?thesis
    using bound l zero_span_split [OF span]
    by (simp add: read_ipv6_addr_def read_given_char_def)
qed

lemma read_full_printed: "read_ipv6_addr (fmt_segments (segments ip)) = Some (ip, [])"
  using read_first_groups [of "[]" "segments ip" 8]
  by (simp add: read_ipv6_addr_def gap_or_end_def)

lemma read_ipv6_printed: "read_ipv6_addr (ipv6_display ip) = Some (ip, [])"
proof (cases "to_ipv4_mapped ip")
  case (Some v4)
  then show ?thesis using read_mapped_printed by (simp add: ipv6_display_def)
next
  case None
  obtain s l where sl: "longest_zeroes (segments ip) = (s, l)"
    by (cases "longest_zeroes (segments ip)")
  then have "zero_span (segments ip) (s, l)" using longest_zeroes_span [of "segments ip"] by simp
  then show ?thesis
    using None sl read_gap_printed [of ip s l] read_full_printed [of ip]
    by (simp add: ipv6_display_def)
qed

lemma ipv6_from_str_display: "ipv6_from_str (ipv6_display ip) = Some ip"
  by (simp add: ipv6_from_str_def parse_with_def read_ipv6_printed)

interpretation ipv6_text: codec ipv6_display ipv6_from_str
  by unfold_locales (rule ipv6_from_str_display)

text \<open>The text of an IPv6 address is never read as an IPv4 address.\<close>

lemma ipv6_display_not_ipv4: "read_ipv4_addr (ipv6_display ip) = None"
proof (cases "to_ipv4_mapped ip")
  case (Some v4)
  then show ?thesis
    by (simp add: ipv6_display_def read_ipv4_addr_def read_octets_4 read_separator_def
        read_number_no_digit)
next
  case None
  then have "CHR ''.'' \<notin> set (ipv6_display ip)"
    by (auto simp: ipv6_display_def fmt_segments_no_dot split: prod.splits)
  then show ?thesis by (rule read_ipv4_no_dot)
qed

lemma ip_from_str_display: "ip_from_str (ip_display ip) = Some ip"
proof (cases ip)
  case (V4 v4)
  then show ?thesis
    using read_ipv4_printed [of "[]" v4] by (simp add: ip_from_str_def parse_with_def read_ip_addr_def)
next
  case (V6 v6)
  then show ?thesis
    by (simp add: ip_from_str_def parse_with_def read_ip_addr_def ipv6_display_not_ipv4 read_ipv6_printed)
qed

interpretation ip_text: codec ip_display ip_from_str
  by unfold_locales (rule ip_from_str_display)

end
