(* ===== verification/Dns.thy ===== *)
theory Dns
  imports Net_Addr
begin

text \<open>
  \<open>src/dns/mod.rs\<close>: record types, record data, record sets, changes, and the text forms that
  \<open>Display\<close> gives them.
\<close>

datatype record_type = RT_A | RT_AAAA

datatype change_action = Upsert

text \<open>\<open>RecordData\<close>: the constructor fixes the kind of address.\<close>

datatype record_data = A "ipv4_addr list" | AAAA "ipv6_addr list"

text \<open>\<open>ResourceRecordSet\<close>: the name, the TTL in seconds and the data.\<close>

record resource_record_set =
  rr_name :: string
  rr_ttl :: u32
  rr_data :: record_data

text \<open>\<open>Change\<close> and \<open>ChangeInfo\<close>.\<close>

record change =
  action :: change_action
  record_set :: resource_record_set

record change_info =
  change_id :: string
  change_status :: string

definition record_type_display :: "record_type \<Rightarrow> string" where
  "record_type_display t = (case t of RT_A \<Rightarrow> ''A'' | RT_AAAA \<Rightarrow> ''AAAA'')"

definition change_action_display :: "change_action \<Rightarrow> string" where
  "change_action_display a = (case a of Upsert \<Rightarrow> ''UPSERT'')"

fun data_record_type :: "record_data \<Rightarrow> record_type" where
  "data_record_type (A addrs) = RT_A"
| "data_record_type (AAAA addrs) = RT_AAAA"

definition record_data_display :: "record_data \<Rightarrow> string" where
  "record_data_display d =
     (case d of
        A addrs \<Rightarrow> ''A'' @ concat (map (\<lambda>a. '' '' @ ipv4_display a) addrs)
      | AAAA addrs \<Rightarrow> ''AAAA'' @ concat (map (\<lambda>a. '' '' @ ipv6_display a) addrs))"

definition ddns_json_file_ext :: string where
  "ddns_json_file_ext = ''.ddns.json''"

definition make_filename :: "resource_record_set \<Rightarrow> string" where
  "make_filename r = rr_name r @ ddns_json_file_ext"

text \<open>The address texts of a record set, as the Route 53 request prints them.\<close>

definition data_addresses :: "record_data \<Rightarrow> string list" where
  "data_addresses d =
     (case d of A addrs \<Rightarrow> map ipv4_display addrs | AAAA addrs \<Rightarrow> map ipv6_display addrs)"

lemma make_filename_ext: "ends_with ddns_json_file_ext (make_filename r)"
  by (simp add: make_filename_def)

text \<open>The file name determines the domain name.\<close>

lemma make_filename_inj: "make_filename r = make_filename q \<longleftrightarrow> rr_name r = rr_name q"
  by (simp add: make_filename_def)

lemma record_type_display_inj: "record_type_display t = record_type_display u \<longleftrightarrow> t = u"
  by (cases t; cases u) (simp_all add: record_type_display_def)

text \<open>The text of record data starts with its type, then one blank before each address.\<close>

lemma record_data_display_eq:
  "record_data_display d =
     record_type_display (data_record_type d) @ concat (map (\<lambda>t. '' '' @ t) (data_addresses d))"
  by (cases d) (simp_all add: record_data_display_def record_type_display_def data_addresses_def
      comp_def)

text \<open>Addresses contain no blank, so the words of the text are the type and the addresses.\<close>

lemma ipv4_display_no_blank: "CHR '' '' \<notin> set (ipv4_display ip)"
  by (auto simp: is_ascii_digit_def dest!: ipv4_display_chars)

lemma fmt_segments_chars:
  "c \<in> set (fmt_segments ws) \<Longrightarrow> is_ascii_digit c \<or> (97 \<le> byte c \<and> byte c \<le> 102) \<or> c = CHR '':''"
proof -
  assume "c \<in> set (fmt_segments ws)"
  then have "c \<in> set '':'' \<union> (\<Union>w \<in> set (map (\<lambda>w. fmt_hex (unat w)) ws). set w)"
    unfolding fmt_segments_def using set_join_with by blast
  then show ?thesis by (auto dest: fmt_hex_digits)
qed

lemma ipv6_display_chars:
  "c \<in> set (ipv6_display ip) \<Longrightarrow>
     is_ascii_digit c \<or> (97 \<le> byte c \<and> byte c \<le> 102) \<or> c = CHR '':'' \<or> c = CHR ''.''"
  by (auto simp: ipv6_display_def dest!: fmt_segments_chars ipv4_display_chars
      split: option.splits prod.splits if_splits)

lemma ipv6_display_no_blank: "CHR '' '' \<notin> set (ipv6_display ip)"
  by (auto simp: is_ascii_digit_def dest!: ipv6_display_chars)

lemma split_blank_words:
  "CHR '' '' \<notin> set h \<Longrightarrow> (\<And>t. t \<in> set ts \<Longrightarrow> CHR '' '' \<notin> set t) \<Longrightarrow>
   split_on (CHR '' '') (h @ concat (map (\<lambda>t. '' '' @ t) ts)) = h # ts"
proof (induction ts arbitrary: h)
  case Nil
  then show ?case by (simp add: split_on_fresh)
next
  case (Cons t ts)
  then show ?case by (simp add: split_on_append)
qed

lemma record_data_display_words:
  "split_on (CHR '' '') (record_data_display d) =
     record_type_display (data_record_type d) # data_addresses d"
  unfolding record_data_display_eq
  by (rule split_blank_words)
     (auto simp: record_type_display_def data_addresses_def ipv4_display_no_blank
        ipv6_display_no_blank split: record_type.splits record_data.splits)

end
