(* ===== verification/Serde.thy ===== *)
theory Serde
  imports Dns
begin

text \<open>
  What \<open>#[derive(Serialize, Deserialize)]\<close> makes of the program's types: a tree of JSON values for
  each, and the function that reads one back. The byte syntax of JSON is \<open>serde_json\<close>'s and stays
  a parameter (\<open>Signatures\<close>); the tree, with repeated keys kept, is the data model between it
  and the derived code. A struct is written as an object with its fields in declaration order, and
  read from an object (unknown keys ignored, a missing or repeated field refused) or from an array of
  exactly its fields; an enum variant with one value is an object with the variant as its only key.
\<close>

section \<open>JSON values\<close>

datatype json =
    JNull
  | JBool bool
  | JInt int
  | JFloat string
  | JStr string
  | JArr "json list"
  | JObj "(string \<times> json) list"

section \<open>Readers\<close>

fun collect :: "'a option list \<Rightarrow> 'a list option" where
  "collect [] = Some []"
| "collect (None # xs) = None"
| "collect (Some x # xs) = map_option ((#) x) (collect xs)"

lemma collect_map_Some [simp]: "collect (map (\<lambda>x. Some (f x)) xs) = Some (map f xs)"
  by (induction xs) auto

lemma collect_Some_iff: "collect xs = Some ys \<longleftrightarrow> xs = map Some ys"
  by (induction xs arbitrary: ys rule: collect.induct) (auto simp: Cons_eq_map_conv)

text \<open>The value of a field: the key must occur exactly once.\<close>

definition json_field :: "(string \<times> json) list \<Rightarrow> string \<Rightarrow> json option" where
  "json_field kvs k = (case filter (\<lambda>kv. fst kv = k) kvs of [kv] \<Rightarrow> Some (snd kv) | _ \<Rightarrow> None)"

text \<open>The field values of a struct with the given field names.\<close>

definition json_struct :: "string list \<Rightarrow> json \<Rightarrow> json list option" where
  "json_struct ks j =
     (case j of
        JObj kvs \<Rightarrow> collect (map (json_field kvs) ks)
      | JArr vs \<Rightarrow> if length vs = length ks then Some vs else None
      | _ \<Rightarrow> None)"

fun string_of_json :: "json \<Rightarrow> string option" where
  "string_of_json (JStr s) = Some s"
| "string_of_json _ = None"

fun u32_of_json :: "json \<Rightarrow> u32 option" where
  "u32_of_json (JInt i) = (if 0 \<le> i \<and> i < 2 ^ 32 then Some (word_of_int i) else None)"
| "u32_of_json _ = None"

fun i64_of_json :: "json \<Rightarrow> i64 option" where
  "i64_of_json (JInt i) = (if - (2 ^ 63) \<le> i \<and> i < 2 ^ 63 then Some (word_of_int i) else None)"
| "i64_of_json _ = None"

fun list_of_json :: "(json \<Rightarrow> 'a option) \<Rightarrow> json \<Rightarrow> 'a list option" where
  "list_of_json f (JArr vs) = collect (map f vs)"
| "list_of_json f _ = None"

definition u32_to_json :: "u32 \<Rightarrow> json" where
  "u32_to_json w = JInt (uint w)"

definition i64_to_json :: "i64 \<Rightarrow> json" where
  "i64_to_json w = JInt (sint w)"

lemma u32_of_json_to: "u32_of_json (u32_to_json w) = Some w"
  using uint_bounded [of w] by (simp add: u32_to_json_def)

lemma i64_of_json_to: "i64_of_json (i64_to_json w) = Some w"
  using sint_ge [of w] sint_lt [of w] by (simp add: i64_to_json_def)

section \<open>Record data and record sets\<close>

fun ipv4_of_json :: "json \<Rightarrow> ipv4_addr option" where
  "ipv4_of_json (JStr s) = ipv4_from_str s"
| "ipv4_of_json _ = None"

fun ipv6_of_json :: "json \<Rightarrow> ipv6_addr option" where
  "ipv6_of_json (JStr s) = ipv6_from_str s"
| "ipv6_of_json _ = None"

fun record_data_to_json :: "record_data \<Rightarrow> json" where
  "record_data_to_json (A addrs) = JObj [(''A'', JArr (map (\<lambda>a. JStr (ipv4_display a)) addrs))]"
| "record_data_to_json (AAAA addrs) = JObj [(''AAAA'', JArr (map (\<lambda>a. JStr (ipv6_display a)) addrs))]"

definition record_data_of_json :: "json \<Rightarrow> record_data option" where
  "record_data_of_json j =
     (case j of
        JObj [(k, v)] \<Rightarrow>
          if k = ''A'' then map_option A (list_of_json ipv4_of_json v)
          else if k = ''AAAA'' then map_option AAAA (list_of_json ipv6_of_json v)
          else None
      | _ \<Rightarrow> None)"

definition record_set_to_json :: "resource_record_set \<Rightarrow> json" where
  "record_set_to_json r =
     JObj [(''name'', JStr (rr_name r)), (''ttl'', u32_to_json (rr_ttl r)),
           (''data'', record_data_to_json (rr_data r))]"

definition record_set_of_json :: "json \<Rightarrow> resource_record_set option" where
  "record_set_of_json j =
     (case json_struct [''name'', ''ttl'', ''data''] j of
        Some [n, t, d] \<Rightarrow>
          (case (string_of_json n, u32_of_json t, record_data_of_json d) of
             (Some nm, Some tt, Some dd) \<Rightarrow> Some \<lparr>rr_name = nm, rr_ttl = tt, rr_data = dd\<rparr>
           | _ \<Rightarrow> None)
      | _ \<Rightarrow> None)"

lemma record_data_of_json_to: "record_data_of_json (record_data_to_json d) = Some d"
  by (cases d) (simp_all add: record_data_of_json_def comp_def ipv4_from_str_display
      ipv6_from_str_display)

lemma record_set_of_json_to: "record_set_of_json (record_set_to_json r) = Some r"
  by (simp add: record_set_of_json_def record_set_to_json_def json_struct_def json_field_def
      u32_of_json_to record_data_of_json_to)

interpretation record_data_json: codec record_data_to_json record_data_of_json
  by unfold_locales (rule record_data_of_json_to)

interpretation record_set_json: codec record_set_to_json record_set_of_json
  by unfold_locales (rule record_set_of_json_to)

text \<open>Keys the struct does not know change nothing.\<close>

lemma json_struct_ignores:
  "k \<notin> set ks \<Longrightarrow> json_struct ks (JObj (kvs @ (k, v) # kvs')) = json_struct ks (JObj (kvs @ kvs'))"
proof -
  assume "k \<notin> set ks"
  then have "map (json_field (kvs @ (k, v) # kvs')) ks = map (json_field (kvs @ kvs')) ks"
    by (auto simp: json_field_def)
  then show ?thesis by (simp only: json_struct_def json.case)
qed

text \<open>A key that occurs twice is refused.\<close>

lemma json_field_repeated:
  "json_field (kvs @ (k, v) # kvs' @ (k, v') # kvs'') k = None"
  by (auto simp: json_field_def split: list.splits dest!: arg_cong [where f = length])

end
