(* ===== verification/World.thy ===== *)
theory World
  imports Signatures "HOL-Library.Sublist"
begin

text \<open>
  The outside world of a run. Its state is an arbitrary type \<open>'w\<close>, and every call that leaves
  the process (S3, Route 53, the address service, the file system, the kernel) is a function of it
  that answers and changes it, so nothing is assumed of a service beyond what a property states.
  A run carries this state and the list of its outside calls and outputs, in order; properties about
  what the program does, and in which order, are properties of that list.
\<close>

section \<open>Calls and outputs\<close>

text \<open>What \<open>println!\<close> shows; values shown with \<open>{:?}\<close> are kept as values.\<close>

datatype shown =
    Line string
  | Shown_Changes "change list"
  | Shown_Keys "string list"
  | Shown_Failure string error

datatype event =
    Ev_List_Page string string "string option"
  | Ev_Get_Object string
  | Ev_Put_Object string bytes
  | Ev_Delete_Object string
  | Ev_Route53_Post string bytes
  | Ev_Http_Get string
  | Ev_Read_Dir string
  | Ev_Metadata string
  | Ev_Open string
  | Ev_Setgroups "nat list"
  | Ev_Setresgid nat nat nat
  | Ev_Setresuid nat nat nat
  | Ev_Setuid nat
  | Ev_Print shown

text \<open>
  \<open>stdout_refuses s es out\<close>: after the events \<open>es\<close>, the standard output does not take \<open>out\<close> (a closed
  pipe, a full disk). It belongs to a run and is any function, so any pattern of refusals is covered.
\<close>

record 'w sys =
  world :: 'w
  trace :: "event list"
  stdout_refuses :: "event list \<Rightarrow> shown \<Rightarrow> bool"

definition perform :: "event \<Rightarrow> ('w \<Rightarrow> 'a result \<times> 'w) \<Rightarrow> ('w sys, 'a) io" where
  "perform e f s = (case f (world s) of (r, w) \<Rightarrow> (r, s\<lparr>world := w, trace := trace s @ [e]\<rparr>))"

lemma perform_Ok_iff [ok_iff]:
  "perform e f s = (Ok x, t) \<longleftrightarrow>
     (\<exists>w. f (world s) = (Ok x, w) \<and> t = s\<lparr>world := w, trace := trace s @ [e]\<rparr>)"
  by (auto simp: perform_def split: prod.splits)

lemma perform_Err_iff [ok_iff]:
  "perform e f s = (Err x, t) \<longleftrightarrow>
     (\<exists>w. f (world s) = (Err x, w) \<and> t = s\<lparr>world := w, trace := trace s @ [e]\<rparr>)"
  by (auto simp: perform_def split: prod.splits)

text \<open>\<open>println!\<close> panics when the standard output cannot be written.\<close>

definition stdout_failed :: string where
  "stdout_failed = ''failed printing to stdout''"

definition print :: "shown \<Rightarrow> ('w sys, unit) io" where
  "print out s =
     (if stdout_refuses s (trace s) out then (Panic stdout_failed, s)
      else (Ok (), s\<lparr>trace := trace s @ [Ev_Print out]\<rparr>))"

text \<open>A loop of \<open>println!\<close>.\<close>

fun print_all :: "shown list \<Rightarrow> ('w sys, unit) io" where
  "print_all [] = io_ret ()"
| "print_all (out # outs) = io_bind (print out) (\<lambda>_. print_all outs)"

lemma print_Ok_iff [ok_iff]:
  "print out s = (Ok (), t) \<longleftrightarrow>
     \<not> stdout_refuses s (trace s) out \<and> t = s\<lparr>trace := trace s @ [Ev_Print out]\<rparr>"
  by (auto simp: print_def)

lemma print_Err_iff [ok_iff]: "print out s = (Err e, t) \<longleftrightarrow> False"
  by (simp add: print_def)

text \<open>Calls that are not recorded in the list of events: the clock, the credential lookup.\<close>

definition quietly :: "('w \<Rightarrow> 'a result \<times> 'w) \<Rightarrow> ('w sys, 'a) io" where
  "quietly f s = (case f (world s) of (r, w) \<Rightarrow> (r, s\<lparr>world := w\<rparr>))"

definition read_clock :: "('w \<Rightarrow> int \<times> 'w) \<Rightarrow> ('w sys, int) io" where
  "read_clock clock = quietly (\<lambda>w. case clock w of (now, w') \<Rightarrow> (Ok now, w'))"

section \<open>Time\<close>

text \<open>
  \<open>chrono::DateTime<Utc>\<close> by its nanoseconds since the epoch: \<open>DateTime::from_timestamp(secs, 0)\<close>,
  the operator \<open>+\<close> with a \<open>TimeDelta\<close> (\<open>None\<close> where it panics on overflow), and \<open>format\<close>.
\<close>

record chrono_crate =
  from_timestamp :: "int \<Rightarrow> int option"
  add_delta :: "int \<Rightarrow> int \<Rightarrow> int option"
  chrono_format :: "string \<Rightarrow> int \<Rightarrow> string"

section \<open>Which events a computation adds\<close>

text \<open>
  \<open>emits P m\<close>: whatever the state, \<open>m\<close> only appends to the list of events, and only events that
  satisfy \<open>P\<close>.
\<close>

definition emits :: "(event \<Rightarrow> bool) \<Rightarrow> ('w sys, 'a) io \<Rightarrow> bool" where
  "emits P m \<longleftrightarrow> (\<forall>s. \<exists>es. trace (snd (m s)) = trace s @ es \<and> list_all P es)"

named_theorems emits_intros "which events the composite computations add"

lemma emitsD: "emits P m \<Longrightarrow> m s = (r, t) \<Longrightarrow> \<exists>es. trace t = trace s @ es \<and> list_all P es"
  unfolding emits_def by (metis snd_conv)

lemma emits_mono: "emits P m \<Longrightarrow> (\<And>e. P e \<Longrightarrow> Q e) \<Longrightarrow> emits Q m"
  unfolding emits_def by (metis (mono_tags, lifting) list.pred_mono_strong)

lemma emits_perform [emits_intros]: "P e \<Longrightarrow> emits P (perform e f)"
  by (auto simp: emits_def perform_def split: prod.splits)

lemma emits_print [emits_intros]: "P (Ev_Print out) \<Longrightarrow> emits P (print out)"
  by (auto simp: emits_def print_def)

lemma emits_quietly [emits_intros]: "emits P (quietly f)"
  by (auto simp: emits_def quietly_def split: prod.splits)

lemma emits_read_clock [emits_intros]: "emits P (read_clock clock)"
  unfolding read_clock_def by (rule emits_quietly)

lemma emits_ret [emits_intros]: "emits P (io_ret x)"
  by (simp add: emits_def)

lemma emits_lift [emits_intros]: "emits P (io_lift r)"
  by (simp add: emits_def)

lemma emits_ctx [emits_intros]: "emits P m \<Longrightarrow> emits P (io_ctx msg m)"
  by (simp add: emits_def)

lemma emits_bind [emits_intros]:
  assumes "emits P m" and "\<And>x. emits P (f x)"
  shows "emits P (io_bind m f)"
  unfolding emits_def
proof
  fix s
  obtain r t where m: "m s = (r, t)" by (cases "m s")
  from emitsD [OF assms(1) m] obtain es where es: "trace t = trace s @ es" "list_all P es" by blast
  show "\<exists>es. trace (snd (io_bind m f s)) = trace s @ es \<and> list_all P es"
  proof (cases r)
    case (Ok x)
    obtain r' u where fx: "f x t = (r', u)" by (cases "f x t")
    from emitsD [OF assms(2) fx] obtain es' where "trace u = trace t @ es'" "list_all P es'" by blast
    with es m Ok fx show ?thesis by (auto simp: io_bind_def)
  qed (use es m in \<open>auto simp: io_bind_def\<close>)
qed

lemma emits_print_all [emits_intros]: "(\<And>out. P (Ev_Print out)) \<Longrightarrow> emits P (print_all outs)"
  by (induction outs) (auto intro!: emits_intros)

lemma emits_if [emits_intros]: "(b \<Longrightarrow> emits P m) \<Longrightarrow> (\<not> b \<Longrightarrow> emits P n) \<Longrightarrow> emits P (if b then m else n)"
  by simp

lemma emits_case_option [emits_intros]:
  "(v = None \<Longrightarrow> emits P m) \<Longrightarrow> (\<And>x. v = Some x \<Longrightarrow> emits P (f x)) \<Longrightarrow>
     emits P (case v of None \<Rightarrow> m | Some x \<Rightarrow> f x)"
  by (cases v) auto

lemma emits_case_result [emits_intros]:
  "(\<And>x. r = Ok x \<Longrightarrow> emits P (f x)) \<Longrightarrow> (\<And>e. r = Err e \<Longrightarrow> emits P (g e)) \<Longrightarrow>
   (\<And>m. r = Panic m \<Longrightarrow> emits P (h m)) \<Longrightarrow>
     emits P (case r of Ok x \<Rightarrow> f x | Err e \<Rightarrow> g e | Panic m \<Rightarrow> h m)"
  by (cases r) auto

lemma emits_case_prod [emits_intros]:
  "(\<And>x y. p = (x, y) \<Longrightarrow> emits P (f x y)) \<Longrightarrow> emits P (case p of (x, y) \<Rightarrow> f x y)"
  by (cases p) auto

section \<open>Catching an error\<close>

text \<open>\<open>match m \<lbrace> Ok(x) => .., Err(e) => .. \<rbrace>\<close>: an error is a value for the rest, a panic is not.\<close>

definition io_match :: "('s, 'a) io \<Rightarrow> ('a \<Rightarrow> ('s, 'b) io) \<Rightarrow> (error \<Rightarrow> ('s, 'b) io) \<Rightarrow> ('s, 'b) io" where
  "io_match m f g s =
     (case m s of
        (Ok x, s') \<Rightarrow> f x s'
      | (Err e, s') \<Rightarrow> g e s'
      | (Panic p, s') \<Rightarrow> (Panic p, s'))"

lemma io_match_Ok_iff [ok_iff]:
  "io_match m f g s = (Ok y, t) \<longleftrightarrow>
     (\<exists>x u. m s = (Ok x, u) \<and> f x u = (Ok y, t)) \<or> (\<exists>e u. m s = (Err e, u) \<and> g e u = (Ok y, t))"
  by (auto simp: io_match_def split: prod.splits result.splits)

lemma emits_match [emits_intros]:
  assumes "emits P m" and "\<And>x. emits P (f x)" and "\<And>e. emits P (g e)"
  shows "emits P (io_match m f g)"
  unfolding emits_def
proof
  fix s
  obtain r t where m: "m s = (r, t)" by (cases "m s")
  from emitsD [OF assms(1) m] obtain es where es: "trace t = trace s @ es" "list_all P es" by blast
  have next_step: "\<exists>es'. trace (snd (n t)) = trace s @ es @ es' \<and> list_all P es'"
    if "emits P n" for n :: "'a sys \<Rightarrow> 'c result \<times> 'a sys"
  proof -
    from that obtain es' where "trace (snd (n t)) = trace t @ es'" "list_all P es'"
      unfolding emits_def by blast
    with es show ?thesis by auto
  qed
  show "\<exists>es. trace (snd (io_match m f g s)) = trace s @ es \<and> list_all P es"
  proof (cases r)
    case (Ok x)
    with next_step [OF assms(2)] m es show ?thesis by (fastforce simp: io_match_def)
  next
    case (Err e)
    with next_step [OF assms(3)] m es show ?thesis by (fastforce simp: io_match_def)
  qed (use es m in \<open>auto simp: io_match_def\<close>)
qed

section \<open>What a computation may return\<close>

text \<open>In some state, \<open>m\<close> returns \<open>Ok x\<close>.\<close>

definition may_return :: "('w sys, 'a) io \<Rightarrow> 'a \<Rightarrow> bool" where
  "may_return m x \<longleftrightarrow> (\<exists>s t. m s = (Ok x, t))"

lemma may_returnI: "m s = (Ok x, t) \<Longrightarrow> may_return m x"
  by (auto simp: may_return_def)

lemma may_return_ctx [simp]: "may_return (io_ctx msg m) x \<longleftrightarrow> may_return m x"
  by (simp add: may_return_def ok_iff)

lemma may_return_lift [simp]: "may_return (io_lift r) x \<longleftrightarrow> r = Ok x"
  by (auto simp: may_return_def)

text \<open>The rest of a function runs on values that its first part may return.\<close>

lemma emits_bind_returned:
  assumes "emits P m" and "\<And>x. may_return m x \<Longrightarrow> emits P (f x)"
  shows "emits P (io_bind m f)"
proof -
  have "emits P (io_bind m (\<lambda>x. if may_return m x then f x else io_ret undefined))"
    using assms by (intro emits_intros)
  moreover have "io_bind m (\<lambda>x. if may_return m x then f x else io_ret undefined) = io_bind m f"
    by (rule ext) (auto simp: io_bind_def may_return_def split: prod.splits result.splits)
  ultimately show ?thesis by simp
qed

section \<open>Computations that do not panic\<close>

definition panic_free :: "('w sys, 'a) io \<Rightarrow> bool" where
  "panic_free m \<longleftrightarrow> (\<forall>s p. fst (m s) \<noteq> Panic p)"

named_theorems panic_free_intros "composite computations that do not panic"

lemma panic_freeD: "panic_free m \<Longrightarrow> m s \<noteq> (Panic p, t)"
  unfolding panic_free_def by (metis fst_conv)

lemma panic_free_lift [panic_free_intros]: "(\<And>p. r \<noteq> Panic p) \<Longrightarrow> panic_free (io_lift r)"
  by (simp add: panic_free_def)

lemma panic_free_ret [panic_free_intros]: "panic_free (io_ret x)"
  by (simp add: panic_free_def)

lemma panic_free_ctx [panic_free_intros]: "panic_free m \<Longrightarrow> panic_free (io_ctx msg m)"
  by (auto simp: panic_free_def io_ctx_def ctx_Panic_iff split: prod.splits) (metis fst_conv)

lemma panic_free_quietly [panic_free_intros]: "(\<And>w p. fst (f w) \<noteq> Panic p) \<Longrightarrow> panic_free (quietly f)"
  by (auto simp: panic_free_def quietly_def split: prod.splits) (metis fst_conv)

lemma panic_free_read_clock [panic_free_intros]: "panic_free (read_clock c)"
  by (auto simp: panic_free_def read_clock_def quietly_def split: prod.splits)

lemma panic_free_perform [panic_free_intros]: "(\<And>w p. fst (f w) \<noteq> Panic p) \<Longrightarrow> panic_free (perform e f)"
  by (auto simp: panic_free_def perform_def split: prod.splits) (metis fst_conv)

lemma panic_free_bind [panic_free_intros]:
  assumes "panic_free m" and "\<And>x. may_return m x \<Longrightarrow> panic_free (f x)"
  shows "panic_free (io_bind m f)"
  unfolding panic_free_def
proof (intro allI)
  fix s p
  obtain r t where m: "m s = (r, t)" by (cases "m s")
  show "fst (io_bind m f s) \<noteq> Panic p"
  proof (cases r)
    case (Ok x)
    with m have "may_return m x" by (auto intro: may_returnI)
    with assms(2) m Ok show ?thesis by (simp add: io_bind_def panic_free_def)
  next
    case (Panic q)
    with assms(1) m show ?thesis by (auto dest: panic_freeD)
  qed (use m in \<open>simp add: io_bind_def\<close>)
qed

lemma panic_free_match [panic_free_intros]:
  assumes "panic_free m" and "\<And>x. may_return m x \<Longrightarrow> panic_free (f x)" and "\<And>e. panic_free (g e)"
  shows "panic_free (io_match m f g)"
  unfolding panic_free_def
proof (intro allI)
  fix s p
  obtain r t where m: "m s = (r, t)" by (cases "m s")
  show "fst (io_match m f g s) \<noteq> Panic p"
  proof (cases r)
    case (Ok x)
    with m have "may_return m x" by (auto intro: may_returnI)
    with assms(2) m Ok show ?thesis by (simp add: io_match_def panic_free_def)
  next
    case (Panic q)
    with assms(1) m show ?thesis by (auto dest: panic_freeD)
  qed (use m assms(3) in \<open>simp add: io_match_def panic_free_def\<close>)
qed

lemma panic_free_if [panic_free_intros]:
  "(b \<Longrightarrow> panic_free m) \<Longrightarrow> (\<not> b \<Longrightarrow> panic_free n) \<Longrightarrow> panic_free (if b then m else n)"
  by simp

section \<open>The order of events\<close>

text \<open>
  \<open>in_phases [P1, .., Pn] es\<close>: the events \<open>es\<close> are some with \<open>P1\<close>, then some with \<open>P2\<close>, and so on;
  any phase may be empty.
\<close>

fun in_phases :: "(event \<Rightarrow> bool) list \<Rightarrow> event list \<Rightarrow> bool" where
  "in_phases [] es = (es = [])"
| "in_phases (P # Ps) [] = True"
| "in_phases (P # Ps) (e # es) = ((P e \<and> in_phases (P # Ps) es) \<or> in_phases Ps (e # es))"

lemma in_phases_Nil [simp]: "in_phases Ps []"
  by (cases Ps) auto

lemma in_phases_one: "list_all P es \<Longrightarrow> in_phases [P] es"
  by (induction es) auto

lemma in_phases_later: "in_phases Ps es \<Longrightarrow> in_phases (Q # Ps) es"
  by (cases es) auto

lemma in_phases_skip: "in_phases Qs es \<Longrightarrow> in_phases (Ps @ Qs) es"
  by (induction Ps) (auto intro: in_phases_later)

lemma in_phases_append:
  "in_phases Ps es \<Longrightarrow> in_phases Qs fs \<Longrightarrow> in_phases (Ps @ Qs) (es @ fs)"
proof (induction Ps es rule: in_phases.induct)
  case (2 P Ps)
  then show ?case using in_phases_skip [of Qs fs "P # Ps"] by simp
qed auto

lemma in_phases_subseq: "subseq Ps Qs \<Longrightarrow> in_phases Ps es \<Longrightarrow> in_phases Qs es"
proof (induction arbitrary: es rule: list_emb.induct)
  case (list_emb_Nil ys)
  then show ?case by (cases es) auto
next
  case (list_emb_Cons xs ys y)
  then show ?case by (simp add: in_phases_later)
next
  case (list_emb_Cons2 x y xs ys)
  from list_emb_Cons2.prems show ?case
    by (induction es) (use list_emb_Cons2 in auto)
qed

text \<open>No event of an earlier phase comes after one that only later phases have.\<close>

lemma in_phases_split:
  "in_phases (Ps @ Qs) es \<Longrightarrow> \<exists>es1 es2. es = es1 @ es2 \<and> in_phases Ps es1 \<and> in_phases Qs es2"
proof (induction "Ps @ Qs" es arbitrary: Ps rule: in_phases.induct)
  case (1 es)
  then show ?case by simp
next
  case (2 P Ps')
  then show ?case by (metis append_Nil in_phases_Nil)
next
  case (3 P Ps' e es)
  show ?case
  proof (cases Ps)
    case Nil
    with 3 show ?thesis by (metis append_Nil in_phases.simps(1))
  next
    case (Cons R Rs)
    with 3(3) have R: "R = P" "Ps' = Rs @ Qs" by simp_all
    from 3(4) consider "P e" "in_phases (P # Ps') es" | "in_phases Ps' (e # es)"
      by (auto simp: R Cons)
    then show ?thesis
    proof cases
      case 1
      with 3(1) [of Ps] 3(3) obtain es1 es2
        where "es = es1 @ es2" "in_phases Ps es1" "in_phases Qs es2" by auto
      with 1 have "e # es = (e # es1) @ es2" "in_phases Ps (e # es1)" "in_phases Qs es2"
        by (auto simp: Cons R)
      then show ?thesis by blast
    next
      case 2
      with 3(2) [of Rs] R obtain es1 es2
        where "e # es = es1 @ es2" "in_phases Rs es1" "in_phases Qs es2" by auto
      then show ?thesis using Cons in_phases_later by blast
    qed
  qed
qed

text \<open>What the predicates of all phases imply holds of every event.\<close>

lemma in_phases_all: "in_phases Ps es \<Longrightarrow> (\<And>P e. P \<in> set Ps \<Longrightarrow> P e \<Longrightarrow> Q e) \<Longrightarrow> list_all Q es"
  by (induction Ps es rule: in_phases.induct) auto

definition phased :: "(event \<Rightarrow> bool) list \<Rightarrow> ('w sys, 'a) io \<Rightarrow> bool" where
  "phased Ps m \<longleftrightarrow> (\<forall>s. \<exists>es. trace (snd (m s)) = trace s @ es \<and> in_phases Ps es)"

lemma phased_one: "emits P m \<Longrightarrow> phased [P] m"
  unfolding phased_def emits_def by (meson in_phases_one)

lemma phased_subseq: "phased Ps m \<Longrightarrow> subseq Ps Qs \<Longrightarrow> phased Qs m"
  unfolding phased_def by (meson in_phases_subseq)

lemma phased_later: "phased Ps m \<Longrightarrow> phased (Q # Ps) m"
  unfolding phased_def by (meson in_phases_later)

lemma phased_bind:
  assumes "phased Ps m" and "\<And>x. phased Qs (f x)"
  shows "phased (Ps @ Qs) (io_bind m f)"
  unfolding phased_def
proof
  fix s
  obtain r t where m: "m s = (r, t)" by (cases "m s")
  from assms(1) obtain es where es: "trace t = trace s @ es" "in_phases Ps es"
    unfolding phased_def by (metis m snd_conv)
  show "\<exists>es. trace (snd (io_bind m f s)) = trace s @ es \<and> in_phases (Ps @ Qs) es"
  proof (cases r)
    case (Ok x)
    from assms(2) obtain es' where "trace (snd (f x t)) = trace t @ es'" "in_phases Qs es'"
      unfolding phased_def by blast
    with es m Ok in_phases_append show ?thesis by (fastforce simp: io_bind_def)
  qed (use es m in_phases_append [OF es(2) in_phases_Nil] in \<open>auto simp: io_bind_def\<close>)
qed

lemma phased_emits: "phased Ps m \<Longrightarrow> (\<And>P e. P \<in> set Ps \<Longrightarrow> P e \<Longrightarrow> Q e) \<Longrightarrow> emits Q m"
  unfolding phased_def emits_def by (meson in_phases_all)

lemma phased_ctx: "phased Ps m \<Longrightarrow> phased Ps (io_ctx msg m)"
  by (simp add: phased_def)

text \<open>A step in front that only has events of the first phase.\<close>

lemma phased_first:
  assumes "emits P m" and "\<And>x. phased (P # Ps) (f x)"
  shows "phased (P # Ps) (io_bind m f)"
proof -
  have dup: "in_phases [P] es \<Longrightarrow> in_phases (P # Ps) fs \<Longrightarrow> in_phases (P # Ps) (es @ fs)" for es fs
    by (induction es) auto
  show ?thesis
    unfolding phased_def
  proof
    fix s
    obtain r t where m: "m s = (r, t)" by (cases "m s")
    from emitsD [OF assms(1) m] obtain es where es: "trace t = trace s @ es" "in_phases [P] es"
      using in_phases_one by blast
    show "\<exists>es. trace (snd (io_bind m f s)) = trace s @ es \<and> in_phases (P # Ps) es"
    proof (cases r)
      case (Ok x)
      from assms(2) obtain es' where "trace (snd (f x t)) = trace t @ es'" "in_phases (P # Ps) es'"
        unfolding phased_def by blast
      with es m Ok dup show ?thesis by (fastforce simp: io_bind_def)
    qed (use es m dup [OF es(2) in_phases_Nil] in \<open>auto simp: io_bind_def\<close>)
  qed
qed

section \<open>Loops over the outside world\<close>

text \<open>A loop whose body has only events with \<open>P\<close> has only events with \<open>P\<close>.\<close>

locale world_loop = accumulating_loop step run ext
  for step :: "'i \<Rightarrow> 'acc \<Rightarrow> ('w sys, 'acc) io"
    and run :: "'i list \<Rightarrow> 'acc \<Rightarrow> ('w sys, 'acc) io"
    and ext :: "'acc \<Rightarrow> 'acc \<Rightarrow> bool"
begin

lemma run_emits:
  assumes "\<And>x a. x \<in> set xs \<Longrightarrow> emits P (step x a)"
  shows "emits P (run xs acc)"
  using assms
proof (induction xs arbitrary: acc)
  case Nil
  then show ?case by (simp add: emits_def run_Nil)
next
  case (Cons x xs)
  then have "emits P (io_bind (step x acc) (run xs))" by (intro emits_intros) auto
  then show ?case by (simp add: emits_def run_Cons)
qed

end

end
