(* ===== verification/Aws_Signature.thy ===== *)
theory Aws_Signature
  imports World "HOL-Library.List_Lexorder" "HOL-Library.Char_ord" "HOL-Library.AList"
begin

text \<open>
  \<open>src/dns/route53/aws_signature.rs\<close>: the headers of an AWS Signature Version 4 request. The
  hash functions and \<open>hex\<close> are records of functions, as is what \<open>chrono\<close> prints of the clock.
  \<open>BTreeMap\<close> is used through the interface of an ordered map, interpreted on sorted association
  lists.
\<close>

section \<open>Ordered maps\<close>

locale ordered_map =
  fixes empty :: "'m"
    and insert :: "'k :: linorder \<Rightarrow> 'v \<Rightarrow> 'm \<Rightarrow> 'm"
    and entries :: "'m \<Rightarrow> ('k \<times> 'v) list"
  assumes entries_empty: "entries empty = []"
    and insert_sorted: "sorted_wrt (<) (map fst (entries m)) \<Longrightarrow>
      sorted_wrt (<) (map fst (entries (insert k v m)))"
    and map_of_insert: "sorted_wrt (<) (map fst (entries m)) \<Longrightarrow>
      map_of (entries (insert k v m)) = (map_of (entries m))(k \<mapsto> v)"
begin

definition insert_all :: "('k \<times> 'v) list \<Rightarrow> 'm \<Rightarrow> 'm" where
  "insert_all kvs m = fold (\<lambda>(k, v). insert k v) kvs m"

lemma insert_all_simps [simp]:
  "insert_all [] m = m" "insert_all ((k, v) # kvs) m = insert_all kvs (insert k v m)"
  by (simp_all add: insert_all_def)

lemma insert_all_sorted:
  "sorted_wrt (<) (map fst (entries m)) \<Longrightarrow> sorted_wrt (<) (map fst (entries (insert_all kvs m)))"
  by (induction kvs arbitrary: m) (auto simp: insert_sorted)

lemma insert_all_lookup:
  "sorted_wrt (<) (map fst (entries m)) \<Longrightarrow>
   map_of (entries (insert_all kvs m)) = map_of (entries m) ++ map_of (rev kvs)"
proof (induction kvs arbitrary: m)
  case (Cons kv kvs)
  obtain k v where kv: "kv = (k, v)" by (cases kv)
  have "map_of (entries (insert_all (kv # kvs) m)) = map_of (entries (insert k v m)) ++ map_of (rev kvs)"
    using Cons.IH [OF insert_sorted [OF Cons.prems]] by (simp add: kv)
  also have "\<dots> = map_of (entries m) ++ map_of (rev (kv # kvs))"
    by (simp add: map_of_insert [OF Cons.prems] kv map_add_assoc fun_upd_def map_add_def fun_eq_iff
        split: option.split)
  finally show ?case .
qed simp

text \<open>The entries are determined by the lookups: the order of insertion leaves no trace.\<close>

lemma sorted_entries_unique:
  fixes xs ys :: "('k \<times> 'v) list"
  assumes "sorted_wrt (<) (map fst xs)" and "sorted_wrt (<) (map fst ys)" and "map_of xs = map_of ys"
  shows "xs = ys"
proof (rule map_sorted_distinct_set_unique [of fst])
  have dist: "distinct (map fst xs)" "distinct (map fst ys)"
    and sorted: "sorted (map fst xs)" "sorted (map fst ys)"
    using assms(1,2) by (simp_all add: strict_sorted_iff)
  show same: "set xs = set ys"
    using assms(3) map_of_inject_set [OF dist] by simp
  show "inj_on fst (set xs \<union> set ys)"
    using dist(1) by (simp add: same [symmetric] distinct_map)
  show "sorted (map fst xs)" "distinct (map fst xs)" "sorted (map fst ys)" "distinct (map fst ys)"
    using dist sorted by simp_all
qed

lemma insert_all_order_irrelevant:
  assumes "map_of (rev kvs) = map_of (rev kvs')"
  shows "entries (insert_all kvs empty) = entries (insert_all kvs' empty)"
proof (rule sorted_entries_unique)
  have e: "sorted_wrt (<) (map fst (entries empty))" by (simp add: entries_empty)
  show "sorted_wrt (<) (map fst (entries (insert_all kvs empty)))"
    and "sorted_wrt (<) (map fst (entries (insert_all kvs' empty)))"
    using insert_all_sorted [OF e] by auto
  show "map_of (entries (insert_all kvs empty)) = map_of (entries (insert_all kvs' empty))"
    using insert_all_lookup [OF e] assms by simp
qed

end

text \<open>\<open>BTreeMap::insert\<close> on the entries in key order.\<close>

fun btree_insert :: "'k :: linorder \<Rightarrow> 'v \<Rightarrow> ('k \<times> 'v) list \<Rightarrow> ('k \<times> 'v) list" where
  "btree_insert k v [] = [(k, v)]"
| "btree_insert k v (e # es) =
     (if k < fst e then (k, v) # e # es
      else if k = fst e then (k, v) # es
      else e # btree_insert k v es)"

lemma keys_btree_insert: "set (map fst (btree_insert k v m)) = insert k (set (map fst m))"
  by (induction m) auto

lemma btree_insert_sorted:
  "sorted_wrt (<) (map fst m) \<Longrightarrow> sorted_wrt (<) (map fst (btree_insert k v m))"
proof (induction m)
  case (Cons e es)
  then show ?case
    using keys_btree_insert [of k v es] by (auto simp del: set_map)
qed simp

lemma map_of_btree_insert:
  "sorted_wrt (<) (map fst m) \<Longrightarrow> map_of (btree_insert k v m) = (map_of m)(k \<mapsto> v)"
  by (induction m) (auto simp: fun_eq_iff)

interpretation btree: ordered_map "[]" btree_insert "\<lambda>m. m"
  by unfold_locales (simp_all add: btree_insert_sorted map_of_btree_insert)

section \<open>Signing a request\<close>

text \<open>\<open>Sha256::digest\<close> and HMAC with it.\<close>

record hash_crate =
  sha256_digest :: "bytes \<Rightarrow> bytes"
  hmac_finalize :: "bytes \<Rightarrow> bytes \<Rightarrow> bytes"

definition hmac_sha256 :: "hash_crate \<Rightarrow> bytes \<Rightarrow> bytes \<Rightarrow> bytes" where
  "hmac_sha256 K key data = hmac_finalize K key data"

definition sha256_hex :: "hash_crate \<Rightarrow> hex_crate \<Rightarrow> bytes \<Rightarrow> string" where
  "sha256_hex K H data = hex_encode H (sha256_digest K data)"

text \<open>The headers inserted before signing.\<close>

definition base_headers ::
  "string \<Rightarrow> bytes \<Rightarrow> string \<Rightarrow> string \<Rightarrow> string option \<Rightarrow> (string \<times> string) list" where
  "base_headers host body payload_hash datetime session_token =
     (let h0 = (if body \<noteq> [] then btree_insert ''content-type'' ''application/xml'' [] else []);
          h1 = btree_insert ''host'' host h0;
          h2 = btree_insert ''x-amz-content-sha256'' payload_hash h1;
          h3 = btree_insert ''x-amz-date'' datetime h2
      in case session_token of
           None \<Rightarrow> h3
         | Some tok \<Rightarrow> btree_insert ''x-amz-security-token'' tok h3)"

definition nl :: string where
  "nl = [CHR 0x0A]"

definition canonical_headers :: "(string \<times> string) list \<Rightarrow> string" where
  "canonical_headers hdrs = concat (map (\<lambda>(k, v). k @ '':'' @ trim v @ nl) hdrs)"

text \<open>The fold over \<open>keys().enumerate()\<close>.\<close>

definition signed_headers :: "(string \<times> string) list \<Rightarrow> string" where
  "signed_headers hdrs =
     fold (\<lambda>(i, k) acc. (if 0 < i then acc @ '';'' else acc) @ k) (enumerate 0 (map fst hdrs)) []"

definition canonical_request ::
  "string \<Rightarrow> string \<Rightarrow> string \<Rightarrow> (string \<times> string) list \<Rightarrow> string \<Rightarrow> string" where
  "canonical_request verb path query hdrs payload_hash =
     join_with nl [verb, path, query, canonical_headers hdrs, signed_headers hdrs, payload_hash]"

definition credential_scope :: "string \<Rightarrow> string \<Rightarrow> string \<Rightarrow> string" where
  "credential_scope date region service = date @ ''/'' @ region @ ''/'' @ service @ ''/aws4_request''"

definition string_to_sign :: "string \<Rightarrow> string \<Rightarrow> string \<Rightarrow> string" where
  "string_to_sign datetime scope request_hash =
     join_with nl [''AWS4-HMAC-SHA256'', datetime, scope, request_hash]"

definition signing_key_bytes :: "hash_crate \<Rightarrow> string \<Rightarrow> string \<Rightarrow> string \<Rightarrow> string \<Rightarrow> bytes" where
  "signing_key_bytes K secret_key date region service =
     (let k_date = hmac_sha256 K (''AWS4'' @ secret_key) date;
          k_region = hmac_sha256 K k_date region;
          k_service = hmac_sha256 K k_region service
      in hmac_sha256 K k_service ''aws4_request'')"

text \<open>\<open>now\<close> is the clock.\<close>

definition aws_sigv4_headers ::
  "hash_crate \<Rightarrow> hex_crate \<Rightarrow> chrono_crate \<Rightarrow> int \<Rightarrow> string \<Rightarrow> string \<Rightarrow> string \<Rightarrow> string \<Rightarrow> bytes \<Rightarrow>
     string \<Rightarrow> string \<Rightarrow> string \<Rightarrow> string \<Rightarrow> string option \<Rightarrow> (string \<times> string) list" where
  "aws_sigv4_headers K H C now verb host path query body service region access_key secret_key session_token =
     (let datetime = chrono_format C ''%Y%m%dT%H%M%SZ'' now;
          date = chrono_format C ''%Y%m%d'' now;
          payload_hash = sha256_hex K H body;
          hdrs = base_headers host body payload_hash datetime session_token;
          request = canonical_request verb path query hdrs payload_hash;
          scope = credential_scope date region service;
          to_sign = string_to_sign datetime scope (sha256_hex K H request);
          k_signing = signing_key_bytes K secret_key date region service;
          sig = hex_encode H (hmac_sha256 K k_signing to_sign)
      in btree_insert ''authorization''
           (''AWS4-HMAC-SHA256 Credential='' @ access_key @ ''/'' @ scope @ '', SignedHeaders='' @
            signed_headers hdrs @ '', Signature='' @ sig) hdrs)"

text \<open>
  \<open>to_header_map\<close>: \<open>reqwest\<close> decides which names and values are legal, and an insertion replaces the
  value of a name that is there already.
\<close>

record header_crate =
  header_name_from_str :: "string \<Rightarrow> string option"
  header_value_from_str :: "string \<Rightarrow> string option"

fun insert_headers ::
  "header_crate \<Rightarrow> (string \<times> string) list \<Rightarrow> (string \<times> string) list \<Rightarrow> (string \<times> string) list result" where
  "insert_headers X [] hm = Ok hm"
| "insert_headers X ((k, v) # hdrs) hm =
     and_then (ctx (''invalid header name: '' @ k)
        (ok_or (External ''InvalidHeaderName'') (header_name_from_str X k))) (\<lambda>name.
     and_then (ctx (''invalid header value for '' @ k @ '': '' @ v)
        (ok_or (External ''InvalidHeaderValue'') (header_value_from_str X v))) (\<lambda>value.
     insert_headers X hdrs (AList.update name value hm)))"

definition to_header_map :: "header_crate \<Rightarrow> (string \<times> string) list \<Rightarrow> (string \<times> string) list result" where
  "to_header_map X hdrs = insert_headers X hdrs []"

section \<open>Facts\<close>

lemma header_order:
  "''authorization'' < ''content-type''" "''content-type'' < ''host''"
  "''host'' < ''x-amz-content-sha256''" "''x-amz-content-sha256'' < ''x-amz-date''"
  "''x-amz-date'' < ''x-amz-security-token''" "''authorization'' < ''host''"
  by code_simp+

lemmas header_orders = header_order header_order [THEN less_imp_neq] header_order [THEN less_imp_neq, symmetric]
  header_order [THEN less_not_sym]

lemma base_headers_eq:
  "base_headers host body payload_hash datetime session_token =
     (if body = [] then [] else [(''content-type'', ''application/xml'')]) @
     [(''host'', host), (''x-amz-content-sha256'', payload_hash), (''x-amz-date'', datetime)] @
     (case session_token of None \<Rightarrow> [] | Some tok \<Rightarrow> [(''x-amz-security-token'', tok)])"
proof -
  have "\<not> ''host'' < ''content-type''" "\<not> ''x-amz-content-sha256'' < ''content-type''"
    "\<not> ''x-amz-content-sha256'' < ''host''" "\<not> ''x-amz-date'' < ''content-type''"
    "\<not> ''x-amz-date'' < ''host''" "\<not> ''x-amz-date'' < ''x-amz-content-sha256''"
    "\<not> ''x-amz-security-token'' < ''content-type''" "\<not> ''x-amz-security-token'' < ''host''"
    "\<not> ''x-amz-security-token'' < ''x-amz-content-sha256''" "\<not> ''x-amz-security-token'' < ''x-amz-date''"
    by code_simp+
  then show ?thesis
    by (simp add: base_headers_def Let_def split: option.split)
qed

lemma base_headers_sorted:
  "sorted_wrt (<) (map fst (base_headers host body payload_hash datetime session_token))"
  by (auto simp: base_headers_def Let_def split: option.splits intro!: btree.insert_sorted)

text \<open>The signature header comes first and leaves the signed headers as they are.\<close>

lemma authorization_first:
  "btree_insert ''authorization'' v (base_headers host body h d tok) =
     (''authorization'', v) # base_headers host body h d tok"
  using header_order by (simp add: base_headers_eq)

lemma signed_headers_fold:
  "fold (\<lambda>(i, k) acc. (if 0 < i then acc @ '';'' else acc) @ k) (enumerate (Suc n) ks) acc =
     acc @ concat (map (\<lambda>k. CHR '';'' # k) ks)"
  by (induction ks arbitrary: n acc) auto

lemma join_semicolons: "join_with '';'' (k # ks) = k @ concat (map (\<lambda>k. CHR '';'' # k) ks)"
  by (induction ks arbitrary: k) auto

lemma signed_headers_join: "signed_headers hdrs = join_with '';'' (map fst hdrs)"
proof (cases hdrs)
  case (Cons h hs)
  then show ?thesis
    using signed_headers_fold [of 0 "map fst hs" "fst h"] join_semicolons [of "fst h" "map fst hs"]
    by (simp add: signed_headers_def)
qed (simp add: signed_headers_def)

text \<open>The canonical headers end each line themselves, so the join leaves one empty line.\<close>

lemma canonical_headers_lines:
  "(\<And>k v. (k, v) \<in> set hdrs \<Longrightarrow> CHR 0x0A \<notin> set k \<and> CHR 0x0A \<notin> set v) \<Longrightarrow>
   split_on (CHR 0x0A) (canonical_headers hdrs @ CHR 0x0A # r) =
     map (\<lambda>(k, v). k @ '':'' @ trim v) hdrs @ [] # split_on (CHR 0x0A) r"
proof (induction hdrs)
  case Nil
  then show ?case by (simp add: canonical_headers_def)
next
  case (Cons h hs)
  obtain k v where h: "h = (k, v)" by (cases h)
  have fresh: "CHR 0x0A \<notin> set (k @ '':'' @ trim v)"
    using Cons.prems [of k v] set_trim [of v] by (auto simp: h)
  have lines: "canonical_headers (h # hs) @ CHR 0x0A # r =
      (k @ '':'' @ trim v) @ CHR 0x0A # canonical_headers hs @ CHR 0x0A # r"
    by (simp add: canonical_headers_def h nl_def)
  have "split_on (CHR 0x0A) (canonical_headers hs @ CHR 0x0A # r) =
      map (\<lambda>(k, v). k @ '':'' @ trim v) hs @ [] # split_on (CHR 0x0A) r"
    using Cons.prems by (intro Cons.IH) auto
  then show ?case unfolding lines split_on_append [OF fresh] by (simp add: h)
qed

text \<open>A name that stands for itself keeps its value, unless a later one is inserted.\<close>

lemma insert_headers_lookup:
  "insert_headers X hdrs hm = Ok hm' \<Longrightarrow>
     (\<And>k v. (k, v) \<in> set hdrs \<Longrightarrow> header_name_from_str X k = Some k \<and> header_value_from_str X v = Some v) \<Longrightarrow>
     map_of hm' = map_of hm ++ map_of (rev hdrs)"
proof (induction X hdrs hm rule: insert_headers.induct)
  case (2 X k v hdrs hm)
  have kv: "header_name_from_str X k = Some k" "header_value_from_str X v = Some v"
    using "2.prems"(2) [of k v] by auto
  have run: "insert_headers X hdrs (AList.update k v hm) = Ok hm'"
    using "2.prems"(1) by (simp add: kv)
  have "map_of hm' = map_of (AList.update k v hm) ++ map_of (rev hdrs)"
    by (rule "2.IH" [OF run]) (use "2.prems"(2) in auto)
  then show ?case
    by (simp add: update_conv' map_add_assoc fun_eq_iff map_add_def split: option.split)
qed simp

section \<open>The property\<close>

text \<open>The lines that are hashed: one for each of the parts, one for each header, and an empty one.\<close>

lemma canonical_request_lines:
  assumes "CHR 0x0A \<notin> set verb" "CHR 0x0A \<notin> set path" "CHR 0x0A \<notin> set query" "CHR 0x0A \<notin> set payload_hash"
    and "\<And>k v. (k, v) \<in> set hdrs \<Longrightarrow> CHR 0x0A \<notin> set k \<and> CHR 0x0A \<notin> set v"
  shows "split_on (CHR 0x0A) (canonical_request verb path query hdrs payload_hash) =
    [verb, path, query] @ map (\<lambda>(k, v). k @ '':'' @ trim v) hdrs @ [[], signed_headers hdrs, payload_hash]"
proof -
  have names: "CHR 0x0A \<notin> set (signed_headers hdrs)"
    using assms(5) set_join_with [of "'';''" "map fst hdrs"] by (auto simp: signed_headers_join)
  have request: "canonical_request verb path query hdrs payload_hash =
      verb @ CHR 0x0A # path @ CHR 0x0A # query @ CHR 0x0A #
        canonical_headers hdrs @ CHR 0x0A # signed_headers hdrs @ CHR 0x0A # payload_hash"
    by (simp add: canonical_request_def nl_def)
  show ?thesis
    unfolding request
    using assms(1-4) names
    by (simp add: split_on_append split_on_fresh canonical_headers_lines [OF assms(5)])
qed

text \<open>
  C14: the headers of a request are sorted by name; the first is \<open>authorization\<close>, and every other one is
  signed: it is listed by name after \<open>SignedHeaders=\<close>, and it is a line of the canonical request whose
  hash goes into the signature. Those headers are the host, the hash of the body and the date, the
  content type if there is a body, and the token of temporary credentials.
\<close>

theorem sigv4_signs_every_header:
  assumes "hdrs = base_headers host body payload_hash datetime session_token"
    and "payload_hash = sha256_hex K H body" and "datetime = chrono_format C ''%Y%m%dT%H%M%SZ'' now"
    and "CHR 0x0A \<notin> set verb" "CHR 0x0A \<notin> set path" "CHR 0x0A \<notin> set query" "CHR 0x0A \<notin> set payload_hash"
    and "\<And>k v. (k, v) \<in> set hdrs \<Longrightarrow> CHR 0x0A \<notin> set k \<and> CHR 0x0A \<notin> set v"
  shows "\<exists>a key scope request.
    aws_sigv4_headers K H C now verb host path query body service region access_key secret_key session_token =
      (''authorization'', a) # hdrs \<and>
    sorted_wrt (<) (map fst ((''authorization'', a) # hdrs)) \<and>
    a = ''AWS4-HMAC-SHA256 Credential='' @ access_key @ ''/'' @ scope @ '', SignedHeaders='' @
        join_with '';'' (map fst hdrs) @ '', Signature='' @
        hex_encode H (hmac_finalize K key (string_to_sign datetime scope (sha256_hex K H request))) \<and>
    split_on (CHR 0x0A) request =
      [verb, path, query] @ map (\<lambda>(k, v). k @ '':'' @ trim v) hdrs @ [[], join_with '';'' (map fst hdrs), payload_hash] \<and>
    map fst hdrs = (if body = [] then [] else [''content-type'']) @
      [''host'', ''x-amz-content-sha256'', ''x-amz-date''] @
      (if session_token = None then [] else [''x-amz-security-token''])"
proof -
  let ?scope = "credential_scope (chrono_format C ''%Y%m%d'' now) region service"
  let ?request = "canonical_request verb path query hdrs payload_hash"
  let ?key = "signing_key_bytes K secret_key (chrono_format C ''%Y%m%d'' now) region service"
  let ?a = "''AWS4-HMAC-SHA256 Credential='' @ access_key @ ''/'' @ ?scope @ '', SignedHeaders='' @
        join_with '';'' (map fst hdrs) @ '', Signature='' @
        hex_encode H (hmac_finalize K ?key (string_to_sign datetime ?scope (sha256_hex K H ?request)))"
  have "aws_sigv4_headers K H C now verb host path query body service region access_key secret_key session_token =
      btree_insert ''authorization'' ?a hdrs"
    by (simp add: aws_sigv4_headers_def Let_def assms(1-3) signed_headers_join hmac_sha256_def)
  then have result: "aws_sigv4_headers K H C now verb host path query body service region access_key secret_key session_token =
      (''authorization'', ?a) # hdrs"
    by (simp only: assms(1) authorization_first)
  have "sorted_wrt (<) (map fst (btree_insert ''authorization'' ?a hdrs))"
    unfolding assms(1) by (rule btree_insert_sorted [OF base_headers_sorted])
  then have sorted: "sorted_wrt (<) (map fst ((''authorization'', ?a) # hdrs))"
    by (simp only: assms(1) authorization_first)
  have names: "map fst hdrs = (if body = [] then [] else [''content-type'']) @
      [''host'', ''x-amz-content-sha256'', ''x-amz-date''] @
      (if session_token = None then [] else [''x-amz-security-token''])"
    unfolding assms(1) base_headers_eq by (cases session_token) simp_all
  have lines: "split_on (CHR 0x0A) ?request =
      [verb, path, query] @ map (\<lambda>(k, v). k @ '':'' @ trim v) hdrs @ [[], join_with '';'' (map fst hdrs), payload_hash]"
    using canonical_request_lines [OF assms(4-8)] by (simp only: signed_headers_join)
  show ?thesis
    by (rule exI [of _ ?a], rule exI [of _ ?key], rule exI [of _ ?scope], rule exI [of _ ?request])
       (intro conjI result sorted refl lines names)
qed

end
