(* ===== verification/Cli.thy ===== *)
theory Cli
  imports Rust_Text
begin

text \<open>
  \<open>src/cli/mod.rs\<close>: the value parser \<open>trimmed_string\<close>, the options each subcommand declares, and
  the argument structs made of them. Which text an option gets (command line, environment, default)
  is decided by \<open>clap\<close>: the parameter \<open>clap spec\<close> is that text, or \<open>None\<close>; so is its reading of
  an unsigned number and of a switch.
\<close>

section \<open>The value parser\<close>

definition trimmed_string :: "string \<Rightarrow> string result" where
  "trimmed_string s =
     (if trim s = [] then Err (Bail ''value cannot be empty or whitespace-only'') else Ok (trim s))"

text \<open>What every text argument satisfies.\<close>

definition trimmed :: "string \<Rightarrow> bool" where
  "trimmed s \<longleftrightarrow> s \<noteq> [] \<and> trim s = s"

lemma trimmed_string_Ok: "trimmed_string s = Ok t \<longleftrightarrow> t = trim s \<and> trimmed t"
  by (auto simp: trimmed_string_def trimmed_def)

lemma trimmed_string_idem: "trimmed s \<longleftrightarrow> trimmed_string s = Ok s"
  by (auto simp: trimmed_string_def trimmed_def)

section \<open>Options\<close>

record arg_spec =
  long :: string
  env :: "string option"
  default_value :: "string option"

record clap_crate =
  clap :: "arg_spec \<Rightarrow> string option"
  clap_flag :: "string \<Rightarrow> bool"
  clap_u32 :: "string \<Rightarrow> u32 option"

definition arg :: "string \<Rightarrow> string option \<Rightarrow> string option \<Rightarrow> arg_spec" where
  "arg l e d = \<lparr>long = l, env = e, default_value = d\<rparr>"

definition default_ddns_dir :: string where
  "default_ddns_dir = ''/ddns/requests''"

text \<open>The operating system the program is built for decides one default; elsewhere there is none.\<close>

datatype target_os = Linux | Bsd | Other_Os

definition default_keys_search_path :: "target_os \<Rightarrow> string option" where
  "default_keys_search_path os =
     (case os of
        Linux \<Rightarrow> Some ''/usr/local/share/ca-certificates''
      | Bsd \<Rightarrow> Some ''/usr/local/etc/ssl/certs/''
      | Other_Os \<Rightarrow> None)"

text \<open>A required text option, one with a default, or an optional one.\<close>

definition text_arg :: "clap_crate \<Rightarrow> arg_spec \<Rightarrow> string result" where
  "text_arg C a =
     (case clap C a of
        None \<Rightarrow> Err (External (''missing --'' @ long a))
      | Some s \<Rightarrow> trimmed_string s)"

definition opt_text_arg :: "clap_crate \<Rightarrow> arg_spec \<Rightarrow> string option result" where
  "opt_text_arg C a =
     (case clap C a of
        None \<Rightarrow> Ok None
      | Some s \<Rightarrow> and_then (trimmed_string s) (\<lambda>t. Ok (Some t)))"

definition u32_arg :: "clap_crate \<Rightarrow> arg_spec \<Rightarrow> u32 result" where
  "u32_arg C a =
     (case clap C a of
        None \<Rightarrow> Err (External (''missing --'' @ long a))
      | Some s \<Rightarrow> ok_or (External (''invalid --'' @ long a)) (clap_u32 C s))"

definition opt_u32_arg :: "clap_crate \<Rightarrow> arg_spec \<Rightarrow> u32 option result" where
  "opt_u32_arg C a =
     (case clap C a of
        None \<Rightarrow> Ok None
      | Some s \<Rightarrow> and_then (ok_or (External (''invalid --'' @ long a)) (clap_u32 C s)) (\<lambda>n. Ok (Some n)))"

section \<open>The subcommands\<close>

record ip_args =
  ia_ip_addr_check_url :: string
  ia_get_public :: bool
  ia_force_ipv4 :: bool
  ia_force_ipv6 :: bool

record server_args =
  sa_is_dry_run :: bool
  sa_s3_queue_bucket :: string
  sa_s3_ddns_json_dir :: string
  sa_hosted_dns_zone_id :: string
  sa_keys_search_path :: string
  sa_aws_region :: string
  sa_aws_access_key_id :: "string option"
  sa_aws_secret_access_key :: "string option"
  sa_max_time_ago_signed_at_secs :: u32
  sa_drop_to_user :: string
  sa_insecure_skip_verify :: bool

record client_args =
  ca_is_dry_run :: bool
  ca_s3_queue_bucket :: string
  ca_s3_ddns_json_dir :: string
  ca_domain_to_update :: string
  ca_ttl :: "u32 option"
  ca_key_path :: string
  ca_signing_key_password :: "string option"
  ca_aws_region :: string
  ca_aws_access_key_id :: "string option"
  ca_aws_secret_access_key :: "string option"
  ca_ip_addr_check_url :: string
  ca_drop_to_user :: string
  ca_insecure_skip_verify :: bool

datatype sub_commands = Server server_args | Client client_args | IP ip_args

abbreviation "arg_bucket \<equiv> arg ''bucket'' None None"
abbreviation "arg_bucket_ddns_dir \<equiv> arg ''bucket-ddns-dir'' None (Some default_ddns_dir)"
abbreviation "arg_aws_region \<equiv> arg ''aws-region'' (Some ''AWS_REGION'') None"
abbreviation "arg_aws_access_key_id \<equiv> arg ''aws-access-key-id'' (Some ''AWS_ACCESS_KEY_ID'') None"
abbreviation "arg_aws_secret_access_key \<equiv>
  arg ''aws-secret-access-key'' (Some ''AWS_SECRET_ACCESS_KEY'') None"
abbreviation "arg_drop_to_user \<equiv> arg ''drop-to-user'' None (Some ''dyndynser'')"
abbreviation "arg_ip_addr_check_url \<equiv>
  arg ''ip-addr-check-url'' None (Some ''https://checkip.amazonaws.com'')"

definition parse_ip_args :: "clap_crate \<Rightarrow> ip_args result" where
  "parse_ip_args C =
     and_then (text_arg C arg_ip_addr_check_url) (\<lambda>url.
     Ok \<lparr>ia_ip_addr_check_url = url, ia_get_public = clap_flag C ''public'',
         ia_force_ipv4 = clap_flag C ''force-ipv4'', ia_force_ipv6 = clap_flag C ''force-ipv6''\<rparr>)"

definition parse_server_args :: "target_os \<Rightarrow> clap_crate \<Rightarrow> server_args result" where
  "parse_server_args os C =
     and_then (text_arg C arg_bucket) (\<lambda>bucket.
     and_then (text_arg C arg_bucket_ddns_dir) (\<lambda>dir.
     and_then (text_arg C (arg ''hosted-zone-id'' (Some ''DYNDYNSER_AWS_HOSTED_ZONE_ID'') None)) (\<lambda>zone.
     and_then (text_arg C (arg ''keys-search-path'' None (default_keys_search_path os))) (\<lambda>keys.
     and_then (text_arg C arg_aws_region) (\<lambda>region.
     and_then (opt_text_arg C arg_aws_access_key_id) (\<lambda>key_id.
     and_then (opt_text_arg C arg_aws_secret_access_key) (\<lambda>secret.
     and_then (u32_arg C (arg ''max-signed-at-time-ago'' None (Some ''3600''))) (\<lambda>age.
     and_then (text_arg C arg_drop_to_user) (\<lambda>usr.
     Ok \<lparr>sa_is_dry_run = clap_flag C ''dry-run'', sa_s3_queue_bucket = bucket,
         sa_s3_ddns_json_dir = dir, sa_hosted_dns_zone_id = zone, sa_keys_search_path = keys,
         sa_aws_region = region, sa_aws_access_key_id = key_id, sa_aws_secret_access_key = secret,
         sa_max_time_ago_signed_at_secs = age, sa_drop_to_user = usr,
         sa_insecure_skip_verify = clap_flag C ''insecure-skip-verify''\<rparr>)))))))))"

definition parse_client_args :: "clap_crate \<Rightarrow> client_args result" where
  "parse_client_args C =
     and_then (text_arg C arg_bucket) (\<lambda>bucket.
     and_then (text_arg C arg_bucket_ddns_dir) (\<lambda>dir.
     and_then (text_arg C (arg ''domain'' None None)) (\<lambda>domain.
     and_then (opt_u32_arg C (arg ''ttl'' None None)) (\<lambda>ttl.
     and_then (text_arg C (arg ''key-path'' None None)) (\<lambda>key_path.
     and_then (opt_text_arg C (arg ''signing-key-password'' (Some ''DYNDYNSER_SIGNING_KEY_PASSWORD'') None)) (\<lambda>pw.
     and_then (text_arg C arg_aws_region) (\<lambda>region.
     and_then (opt_text_arg C arg_aws_access_key_id) (\<lambda>key_id.
     and_then (opt_text_arg C arg_aws_secret_access_key) (\<lambda>secret.
     and_then (text_arg C arg_ip_addr_check_url) (\<lambda>url.
     and_then (text_arg C arg_drop_to_user) (\<lambda>usr.
     Ok \<lparr>ca_is_dry_run = clap_flag C ''dry-run'', ca_s3_queue_bucket = bucket,
         ca_s3_ddns_json_dir = dir, ca_domain_to_update = domain, ca_ttl = ttl,
         ca_key_path = key_path, ca_signing_key_password = pw, ca_aws_region = region,
         ca_aws_access_key_id = key_id, ca_aws_secret_access_key = secret,
         ca_ip_addr_check_url = url, ca_drop_to_user = usr,
         ca_insecure_skip_verify = clap_flag C ''insecure-skip-verify''\<rparr>)))))))))))"

text \<open>
  \<open>CLI::parse\<close>: the word after the program's name selects the subcommand. Where this is an error,
  \<open>clap\<close> prints it and ends the process.
\<close>

definition cli_parse :: "target_os \<Rightarrow> string \<Rightarrow> clap_crate \<Rightarrow> sub_commands result" where
  "cli_parse os cmd C =
     (if cmd = ''server'' then and_then (parse_server_args os C) (\<lambda>a. Ok (Server a))
      else if cmd = ''client'' then and_then (parse_client_args C) (\<lambda>a. Ok (Client a))
      else if cmd = ''ip'' then and_then (parse_ip_args C) (\<lambda>a. Ok (IP a))
      else Err (External ''unrecognized subcommand''))"

section \<open>Every text argument is trimmed and not empty\<close>

definition opt_trimmed :: "string option \<Rightarrow> bool" where
  "opt_trimmed v \<longleftrightarrow> (case v of None \<Rightarrow> True | Some s \<Rightarrow> trimmed s)"

lemma text_arg_trimmed: "text_arg C a = Ok s \<Longrightarrow> trimmed s"
  by (auto simp: text_arg_def trimmed_string_Ok split: option.splits)

lemma opt_text_arg_trimmed: "opt_text_arg C a = Ok v \<Longrightarrow> opt_trimmed v"
  by (auto simp: opt_text_arg_def opt_trimmed_def ok_iff trimmed_string_Ok split: option.splits)

definition wf_server_args :: "server_args \<Rightarrow> bool" where
  "wf_server_args a \<longleftrightarrow>
     list_all trimmed [sa_s3_queue_bucket a, sa_s3_ddns_json_dir a, sa_hosted_dns_zone_id a,
       sa_keys_search_path a, sa_aws_region a, sa_drop_to_user a] \<and>
     list_all opt_trimmed [sa_aws_access_key_id a, sa_aws_secret_access_key a]"

definition wf_client_args :: "client_args \<Rightarrow> bool" where
  "wf_client_args a \<longleftrightarrow>
     list_all trimmed [ca_s3_queue_bucket a, ca_s3_ddns_json_dir a, ca_domain_to_update a,
       ca_key_path a, ca_aws_region a, ca_ip_addr_check_url a, ca_drop_to_user a] \<and>
     list_all opt_trimmed [ca_signing_key_password a, ca_aws_access_key_id a,
       ca_aws_secret_access_key a]"

lemma parse_server_args_wf: "parse_server_args os C = Ok a \<Longrightarrow> wf_server_args a"
  by (auto simp: parse_server_args_def and_then_Ok_iff wf_server_args_def
      dest!: text_arg_trimmed opt_text_arg_trimmed)

lemma parse_client_args_wf: "parse_client_args C = Ok a \<Longrightarrow> wf_client_args a"
  by (auto simp: parse_client_args_def and_then_Ok_iff wf_client_args_def
      dest!: text_arg_trimmed opt_text_arg_trimmed)

lemma parse_ip_args_trimmed: "parse_ip_args C = Ok a \<Longrightarrow> trimmed (ia_ip_addr_check_url a)"
  by (auto simp: parse_ip_args_def and_then_Ok_iff dest!: text_arg_trimmed)

definition wf_sub_commands :: "sub_commands \<Rightarrow> bool" where
  "wf_sub_commands c \<longleftrightarrow>
     (case c of
        Server a \<Rightarrow> wf_server_args a
      | Client a \<Rightarrow> wf_client_args a
      | IP a \<Rightarrow> trimmed (ia_ip_addr_check_url a))"

text \<open>
  C37: whatever the command line and the environment hold, every text argument of a parsed command is
  not empty and has no white space at its ends.
\<close>

theorem parsed_arguments_are_trimmed:
  assumes "cli_parse os cmd C = Ok c"
  shows "wf_sub_commands c"
  using assms
  by (auto simp: cli_parse_def and_then_Ok_iff wf_sub_commands_def parse_server_args_wf
      parse_client_args_wf parse_ip_args_trimmed split: if_splits)

end
