(* ===== verification/Config.thy ===== *)
theory Config
  imports Cli World
begin

text \<open>
  \<open>src/config.rs\<close>: domain names by RFC 1123, the AWS credentials to use, and the configurations
  that the subcommands make of their arguments.
\<close>

definition file_size_max_bytes :: nat where
  "file_size_max_bytes = 10 * 1024"

section \<open>Domain names\<close>

datatype domain_name = Domain_Name string

fun domain_inner :: "domain_name \<Rightarrow> string" where
  "domain_inner (Domain_Name s) = s"

definition label_char :: "char \<Rightarrow> bool" where
  "label_char c \<longleftrightarrow> is_ascii_alphanumeric c \<or> c = CHR ''-''"

text \<open>The three checks of the loop body, in its order.\<close>

definition check_label :: "string \<Rightarrow> unit result" where
  "check_label label =
     (if label = [] \<or> 63 < length label
      then Err (Bail ''domain sub-labels must be between 1-63 characters'')
      else if starts_with ''-'' label \<or> ends_with ''-'' label
      then Err (Bail ''domain sub-label cannot start or end with a hyphen'')
      else if \<not> list_all label_char label
      then Err (Bail ''domain sub-label must only be ascii alphanumeric'')
      else Ok ())"

fun check_labels :: "string list \<Rightarrow> unit result" where
  "check_labels [] = Ok ()"
| "check_labels (l # ls) = and_then (check_label l) (\<lambda>_. check_labels ls)"

definition parse_domain :: "(string \<Rightarrow> nat \<Rightarrow> string) \<Rightarrow> string \<Rightarrow> domain_name result" where
  "parse_domain lower s =
     (let d = to_lowercase lower (trim s) in
      if d = [] \<or> 253 < length d
      then Err (Bail ''domain must be between 1 and 253 ascii chars'')
      else
        (let labels = split_on (CHR ''.'') (without_suffix ''.'' d) in
         and_then (check_labels labels) (\<lambda>_.
           if labels \<noteq> [] \<and> list_all is_ascii_digit (last labels)
           then Err (Bail ''TLD must not be entirely numeric'')
           else Ok (Domain_Name d))))"

subsection \<open>The specification: names of RFC 1123\<close>

definition valid_label :: "string \<Rightarrow> bool" where
  "valid_label l \<longleftrightarrow>
     1 \<le> length l \<and> length l \<le> 63 \<and> hd l \<noteq> CHR ''-'' \<and> last l \<noteq> CHR ''-'' \<and>
     (\<forall>c \<in> set l. label_char c)"

definition rfc1123 :: "string \<Rightarrow> bool" where
  "rfc1123 d \<longleftrightarrow>
     length d \<le> 253 \<and>
     (\<exists>labels. labels \<noteq> [] \<and> (\<forall>l \<in> set labels. valid_label l) \<and>
        \<not> (\<forall>c \<in> set (last labels). is_ascii_digit c) \<and>
        (d = join_with ''.'' labels \<or> d = join_with ''.'' labels @ ''.''))"

lemma starts_with_hd: "l \<noteq> [] \<Longrightarrow> starts_with [c] l \<longleftrightarrow> hd l = c"
  by (cases l) (auto simp: starts_with_iff)

lemma ends_with_last: "l \<noteq> [] \<Longrightarrow> ends_with [c] l \<longleftrightarrow> last l = c"
  by (cases l rule: rev_cases) (auto simp: ends_with_iff)

lemma check_label_Ok: "check_label l = Ok u \<longleftrightarrow> valid_label l"
  by (cases "l = []")
     (auto simp: check_label_def valid_label_def starts_with_hd ends_with_last list_all_iff
        Suc_le_eq not_less)

lemma check_labels_Ok: "check_labels ls = Ok u \<longleftrightarrow> (\<forall>l \<in> set ls. valid_label l)"
  by (induction ls) (auto simp: ok_iff check_label_Ok)

lemma valid_label_no_dot: "valid_label l \<Longrightarrow> CHR ''.'' \<notin> set l"
  by (auto simp: valid_label_def label_char_def ascii_defs)

lemma join_not_Nil: "ws \<noteq> [] \<Longrightarrow> (\<forall>w \<in> set ws. w \<noteq> []) \<Longrightarrow> join_with sep ws \<noteq> []"
  by (induction sep ws rule: join_with.induct) auto

lemma valid_labels_not_Nil: "\<forall>l \<in> set labels. valid_label l \<Longrightarrow> \<forall>l \<in> set labels. l \<noteq> []"
  by (auto simp: valid_label_def)

lemma join_valid_not_dot:
  "labels \<noteq> [] \<Longrightarrow> (\<forall>l \<in> set labels. valid_label l) \<Longrightarrow> \<not> ends_with ''.'' (join_with ''.'' labels)"
proof (induction labels rule: induct_list012)
  case (2 l)
  then have "l \<noteq> []" by (auto simp: valid_label_def)
  moreover from this have "last l \<noteq> CHR ''.''"
    using 2 valid_label_no_dot last_in_set by (metis list.set_intros(1))
  ultimately show ?case by (simp add: ends_with_last)
next
  case (3 l k ks)
  then have "join_with ''.'' (k # ks) \<noteq> []"
    by (cases ks) (auto simp: valid_label_def)
  then show ?case using 3 by (simp add: ends_with_last)
qed simp

text \<open>The labels that the parser sees are the labels of the specification.\<close>

lemma labels_unique:
  assumes "labels \<noteq> []" and "\<forall>l \<in> set labels. valid_label l"
    and "d = join_with ''.'' labels \<or> d = join_with ''.'' labels @ ''.''"
  shows "split_on (CHR ''.'') (without_suffix ''.'' d) = labels"
proof -
  have "without_suffix ''.'' d = join_with ''.'' labels"
    using assms join_valid_not_dot [OF assms(1,2)] by (auto simp: without_suffix_other)
  then show ?thesis
    using assms(1,2) valid_label_no_dot by (simp add: split_join)
qed

lemma rfc1123_iff:
  "rfc1123 d \<longleftrightarrow> d \<noteq> [] \<and> length d \<le> 253 \<and>
     (\<forall>l \<in> set (split_on (CHR ''.'') (without_suffix ''.'' d)). valid_label l) \<and>
     \<not> (\<forall>c \<in> set (last (split_on (CHR ''.'') (without_suffix ''.'' d))). is_ascii_digit c)"
    (is "_ \<longleftrightarrow> ?R")
proof
  assume "rfc1123 d"
  then obtain labels where labels: "labels \<noteq> []" "\<forall>l \<in> set labels. valid_label l"
    "\<not> (\<forall>c \<in> set (last labels). is_ascii_digit c)"
    "d = join_with ''.'' labels \<or> d = join_with ''.'' labels @ ''.''" and len: "length d \<le> 253"
    by (auto simp: rfc1123_def)
  have "d \<noteq> []"
    using labels(4) join_not_Nil [OF labels(1) valid_labels_not_Nil [OF labels(2)], of "''.''"]
    by auto
  with labels len show ?R by (simp add: labels_unique [OF labels(1,2,4)])
next
  assume R: ?R
  let ?labels = "split_on (CHR ''.'') (without_suffix ''.'' d)"
  have "d = join_with ''.'' ?labels \<or> d = join_with ''.'' ?labels @ ''.''"
    using without_suffix_cases [of "''.''" d] by (auto simp: join_split)
  with R show "rfc1123 d" unfolding rfc1123_def by (metis split_on_not_Nil)
qed

lemma parse_domain_Ok_iff:
  "parse_domain lower s = Ok dn \<longleftrightarrow>
     dn = Domain_Name (to_lowercase lower (trim s)) \<and> rfc1123 (to_lowercase lower (trim s))"
  by (auto simp: parse_domain_def Let_def ok_iff check_labels_Ok rfc1123_iff list_all_iff not_less)

lemma parse_domain_not_Panic: "parse_domain lower s \<noteq> Panic m"
proof -
  have "check_labels ls \<noteq> Panic m" for ls
    by (induction ls) (auto simp: check_label_def and_then_Panic_iff)
  then show ?thesis
    by (auto simp: parse_domain_def Let_def and_then_Panic_iff)
qed

subsection \<open>A parsed name is in normal form\<close>

text \<open>The Unicode tables never produce an ASCII capital letter as a lower-case form.\<close>

definition lower_is_lower :: "(string \<Rightarrow> nat \<Rightarrow> string) \<Rightarrow> bool" where
  "lower_is_lower lower \<longleftrightarrow> (\<forall>s i. \<forall>c \<in> set (lower s i). \<not> is_ascii_upper c)"

definition domain_char :: "char \<Rightarrow> bool" where
  "domain_char c \<longleftrightarrow> is_ascii_digit c \<or> is_ascii_lower c \<or> c = CHR ''-'' \<or> c = CHR ''.''"

lemma rfc1123_chars: "rfc1123 d \<Longrightarrow> c \<in> set d \<Longrightarrow> label_char c \<or> c = CHR ''.''"
proof -
  assume d: "rfc1123 d" and c: "c \<in> set d"
  let ?labels = "split_on (CHR ''.'') (without_suffix ''.'' d)"
  have "set d \<subseteq> set (without_suffix ''.'' d) \<union> set ''.''"
    using without_suffix_cases [of "''.''" d] by (metis Un_upper1 set_append subset_refl)
  then have "set d \<subseteq> set (join_with ''.'' ?labels) \<union> {CHR ''.''}"
    by (simp add: join_split)
  also have "\<dots> \<subseteq> (\<Union>l \<in> set ?labels. set l) \<union> {CHR ''.''}"
    using set_join_with [of "''.''" ?labels] by auto
  finally show ?thesis using c d by (auto simp: rfc1123_iff valid_label_def)
qed

lemma to_lowercase_not_upper:
  "lower_is_lower lower \<Longrightarrow> c \<in> set (to_lowercase lower s) \<Longrightarrow> \<not> is_ascii_upper c"
  using to_lowercase_bytes to_ascii_lower_not_upper unfolding lower_is_lower_def by metis

lemma domain_char_plain: "domain_char c \<Longrightarrow> plain_text c \<and> byte c < 128 \<and> \<not> is_ascii_upper c"
  by (auto simp: domain_char_def plain_text_def ascii_defs)

lemma parse_domain_chars:
  assumes "lower_is_lower lower" and "parse_domain lower s = Ok dn"
  shows "list_all domain_char (domain_inner dn)"
  using assms rfc1123_chars to_lowercase_not_upper
  by (fastforce simp: parse_domain_Ok_iff list_all_iff domain_char_def label_char_def
      is_ascii_alphanumeric_def)

lemma lower_trim_domain_chars: "list_all domain_char d \<Longrightarrow> to_lowercase lower (trim d) = d"
proof -
  assume d: "list_all domain_char d"
  then have "list_all plain_text d" and ascii: "list_all (\<lambda>c. byte c < 128) d"
    by (auto simp: list_all_iff dest: domain_char_plain)
  then have "trim d = d" by (simp add: trim_plain)
  moreover have "map to_ascii_lower d = d"
    using d by (intro map_idI) (metis domain_char_plain list_all_iff to_ascii_lower_id)
  ultimately show ?thesis using to_lowercase_ascii [OF ascii] by simp
qed

lemma parse_domain_fixpoint:
  "lower_is_lower lower \<Longrightarrow> parse_domain lower s = Ok dn \<Longrightarrow> parse_domain lower (domain_inner dn) = Ok dn"
  using parse_domain_chars lower_trim_domain_chars
  by (fastforce simp: parse_domain_Ok_iff)

section \<open>AWS credentials\<close>

record aws_cli_config =
  region :: string
  access_key_id :: "string option"
  secret_access_key :: "string option"

text \<open>\<open>s3::creds::Credentials\<close>, and its two constructors.\<close>

record aws_credentials =
  access_key :: "string option"
  secret_key :: "string option"
  security_token :: "string option"
  session_token :: "string option"

record 'w creds_calls =
  credentials_default :: "'w \<Rightarrow> aws_credentials result \<times> 'w"
  credentials_new :: "string \<Rightarrow> string \<Rightarrow> 'w \<Rightarrow> aws_credentials result \<times> 'w"

definition get_s3_credentials :: "'w creds_calls \<Rightarrow> aws_cli_config \<Rightarrow> ('w sys, aws_credentials) io" where
  "get_s3_credentials C a =
     (case (access_key_id a, secret_access_key a) of
        (Some key, Some secret) \<Rightarrow>
          io_ctx ''failed to construct s3 credentials from supplied values''
            (quietly (credentials_new C key secret))
      | _ \<Rightarrow>
          io_ctx ''failed to retrieve default s3 credentials'' (quietly (credentials_default C)))"

lemma emits_get_s3_credentials [emits_intros]: "emits P (get_s3_credentials C a)"
  unfolding get_s3_credentials_def
  by (auto split: option.splits intro: emits_intros)

section \<open>Durations\<close>

text \<open>
  \<open>std::time::Duration\<close> by its whole seconds (\<open>u64\<close>), and \<open>chrono::TimeDelta\<close> by its
  nanoseconds.
\<close>

type_synonym duration = "64 word"

definition duration_from_secs :: "64 word \<Rightarrow> duration" where
  "duration_from_secs n = n"

definition as_secs :: "duration \<Rightarrow> 64 word" where
  "as_secs d = d"

definition time_delta_seconds :: "int \<Rightarrow> int" where
  "time_delta_seconds n = n * 1000000000"

section \<open>Configurations\<close>

record config_client =
  cc_s3_queue_bucket :: string
  cc_s3_ddns_json_directory :: string
  cc_domain :: domain_name
  cc_ip_addr_check_url :: string
  cc_ttl :: "duration option"
  cc_key_path :: string
  cc_signing_key_password :: "string option"
  cc_is_dry_run :: bool
  cc_aws_config :: aws_cli_config
  cc_drop_user :: string
  cc_insecure_skip_verify :: bool

definition config_client_parse :: "(string \<Rightarrow> nat \<Rightarrow> string) \<Rightarrow> client_args \<Rightarrow> config_client result" where
  "config_client_parse lower a =
     and_then (ctx ''domain is invalid, must conform to RFC 1123''
                (parse_domain lower (ca_domain_to_update a))) (\<lambda>domain.
     Ok \<lparr>cc_s3_queue_bucket = ca_s3_queue_bucket a,
         cc_s3_ddns_json_directory = ca_s3_ddns_json_dir a,
         cc_domain = domain,
         cc_ip_addr_check_url = ca_ip_addr_check_url a,
         cc_ttl = map_option (\<lambda>t. duration_from_secs (ucast t)) (ca_ttl a),
         cc_key_path = ca_key_path a,
         cc_signing_key_password = ca_signing_key_password a,
         cc_is_dry_run = ca_is_dry_run a,
         cc_aws_config = \<lparr>region = ca_aws_region a, access_key_id = ca_aws_access_key_id a,
                          secret_access_key = ca_aws_secret_access_key a\<rparr>,
         cc_drop_user = ca_drop_to_user a,
         cc_insecure_skip_verify = ca_insecure_skip_verify a\<rparr>)"

record config_server =
  cs_keys_search_path :: string
  cs_s3_queue_bucket :: string
  cs_s3_ddns_json_directory :: string
  cs_hosted_dns_zone_id :: string
  cs_is_dry_run :: bool
  cs_max_time_ago_signed_at :: int
  cs_aws_config :: aws_cli_config
  cs_drop_to_user :: string
  cs_insecure_skip_verify :: bool

definition config_server_parse :: "server_args \<Rightarrow> config_server result" where
  "config_server_parse a =
     Ok \<lparr>cs_keys_search_path = sa_keys_search_path a,
         cs_s3_queue_bucket = sa_s3_queue_bucket a,
         cs_s3_ddns_json_directory = sa_s3_ddns_json_dir a,
         cs_hosted_dns_zone_id = sa_hosted_dns_zone_id a,
         cs_is_dry_run = sa_is_dry_run a,
         cs_max_time_ago_signed_at = time_delta_seconds (uint (sa_max_time_ago_signed_at_secs a)),
         cs_aws_config = \<lparr>region = sa_aws_region a, access_key_id = sa_aws_access_key_id a,
                          secret_access_key = sa_aws_secret_access_key a\<rparr>,
         cs_drop_to_user = sa_drop_to_user a,
         cs_insecure_skip_verify = sa_insecure_skip_verify a\<rparr>"

record ip_config =
  ic_ip_addr_check_url :: string
  ic_is_public :: bool
  ic_force_ipv4 :: bool
  ic_force_ipv6 :: bool

definition ip_config_parse :: "ip_args \<Rightarrow> ip_config result" where
  "ip_config_parse a =
     (if ia_force_ipv4 a \<and> ia_force_ipv6 a
      then Err (Bail ''force_ipv4 and force_ipv6 cannot both be true at the same time. Either leave both unset, or choose only one'')
      else Ok \<lparr>ic_ip_addr_check_url = ia_ip_addr_check_url a, ic_is_public = ia_get_public a,
               ic_force_ipv4 = ia_force_ipv4 a, ic_force_ipv6 = ia_force_ipv6 a\<rparr>)"

lemma max_time_ago_nonneg:
  "config_server_parse a = Ok c \<Longrightarrow> 0 \<le> cs_max_time_ago_signed_at c"
  by (auto simp: config_server_parse_def time_delta_seconds_def)

section \<open>The properties\<close>

text \<open>
  C10: a text is accepted as a domain exactly when, trimmed and in lower case, it is a name of RFC 1123
  (dot-separated labels of 1 to 63 letters, digits and inner hyphens, at most 253 bytes, the last label
  not a number, an optional final dot); the result is that form of it, and parsing never panics.
\<close>

theorem parse_domain_accepts_rfc1123:
  "(parse_domain lower s = Ok dn \<longleftrightarrow>
     dn = Domain_Name (to_lowercase lower (trim s)) \<and> rfc1123 (to_lowercase lower (trim s))) \<and>
   parse_domain lower s \<noteq> Panic m"
  by (rule conjI [OF parse_domain_Ok_iff parse_domain_not_Panic])

text \<open>
  C36: an accepted name is in normal form: parsing it again gives the same, and it consists of small
  letters, digits, hyphens and dots, so it is safe in an object key and in XML.
\<close>

theorem parsed_domain_is_normal:
  assumes "lower_is_lower lower" and "parse_domain lower s = Ok dn"
  shows "parse_domain lower (domain_inner dn) = Ok dn \<and> list_all domain_char (domain_inner dn)"
  by (rule conjI [OF parse_domain_fixpoint [OF assms] parse_domain_chars [OF assms]])

end
