(* ===== verification/Route53.thy ===== *)
theory Route53
  imports Aws_Signature Config
begin

text \<open>
  \<open>src/dns/route53/aws_route53.rs\<close>: the Route 53 client. The request body is built as text, so
  the properties are about that text: what is escaped, and that the changes can be read back from
  it. \<open>reqwest\<close> is a record of functions of the world.
\<close>

section \<open>XML text\<close>

definition xml_escape_char :: "char \<Rightarrow> string" where
  "xml_escape_char c =
     (if c = CHR ''&'' then ''&amp;''
      else if c = CHR ''<'' then ''&lt;''
      else if c = CHR ''>'' then ''&gt;''
      else if c = CHR 0x22 then ''&quot;''
      else if c = CHR 0x27 then ''&apos;''
      else [c])"

definition xml_escape :: "string \<Rightarrow> string" where
  "xml_escape s =
     (if list_ex (\<lambda>c. c \<in> {CHR ''&'', CHR ''<'', CHR ''>'', CHR 0x22, CHR 0x27}) s
      then concat (map xml_escape_char s)
      else s)"

text \<open>\<open>writeln!\<close>.\<close>

definition writeln :: "string \<Rightarrow> string" where
  "writeln s = s @ nl"

definition resource_record_xml :: "string \<Rightarrow> string" where
  "resource_record_xml a =
     ''            <ResourceRecord>'' @ nl @
     writeln (''                     <Value>'' @ a @ ''</Value>'') @
     ''            </ResourceRecord>'' @ nl"

definition change_xml :: "change \<Rightarrow> string" where
  "change_xml ch =
     (let rrs = record_set ch in
      ''      <Change>'' @ nl @
      writeln (''        <Action>'' @ change_action_display (action ch) @ ''</Action>'') @
      ''        <ResourceRecordSet>'' @ nl @
      writeln (''          <Name>'' @ xml_escape (rr_name rrs) @ ''</Name>'') @
      writeln (''          <Type>'' @ record_type_display (data_record_type (rr_data rrs)) @ ''</Type>'') @
      writeln (''          <TTL>'' @ fmt_dec (unat (rr_ttl rrs)) @ ''</TTL>'') @
      ''          <ResourceRecords>'' @ nl @
      (case rr_data rrs of
         A addrs \<Rightarrow> concat (map (\<lambda>a. resource_record_xml (ipv4_display a)) addrs)
       | AAAA addrs \<Rightarrow> concat (map (\<lambda>a. resource_record_xml (ipv6_display a)) addrs)) @
      ''          </ResourceRecords>'' @ nl @
      ''        </ResourceRecordSet>'' @ nl @
      ''      </Change>'' @ nl)"

definition build_change_xml :: "string option \<Rightarrow> change list \<Rightarrow> string" where
  "build_change_xml comment changes =
     ''<?xml version='' @ [CHR 0x22] @ ''1.0'' @ [CHR 0x22] @ '' encoding='' @ [CHR 0x22] @ ''UTF-8'' @
       [CHR 0x22] @ ''?>'' @ nl @
     ''<ChangeResourceRecordSetsRequest xmlns='' @ [CHR 0x22] @
       ''https://route53.amazonaws.com/doc/2013-04-01/'' @ [CHR 0x22] @ ''>'' @ nl @
     ''  <ChangeBatch>'' @ nl @
     (case comment of None \<Rightarrow> [] | Some c \<Rightarrow> writeln (''    <Comment>'' @ xml_escape c @ ''</Comment>'')) @
     ''    <Changes>'' @ nl @
     concat (map change_xml changes) @
     ''    </Changes>'' @ nl @
     ''  </ChangeBatch>'' @ nl @
     ''</ChangeResourceRecordSetsRequest>''"

text \<open>The trimmed text of the first element with the tag.\<close>

definition extract_xml_text :: "string \<Rightarrow> string \<Rightarrow> string option" where
  "extract_xml_text xml tag =
     (let opening = ''<'' @ tag @ ''>''; closing = ''</'' @ tag @ ''>'' in
      case find_str opening xml of
        None \<Rightarrow> None
      | Some i \<Rightarrow>
          (let rest = drop (i + length opening) xml in
           case find_str closing rest of
             None \<Rightarrow> None
           | Some j \<Rightarrow> Some (trim (take j rest))))"

section \<open>The client\<close>

definition host :: string where
  "host = ''route53.amazonaws.com''"

definition route53_region :: string where
  "route53_region = ''us-east-1''"

definition service :: string where
  "service = ''route53''"

text \<open>An HTTP response: its status, what \<open>Display\<close> shows of it, and the reading of its body.\<close>

record http_response =
  http_status :: nat
  http_status_text :: string
  http_body :: "string result"

record 'w http_calls =
  http_client_build :: "'w \<Rightarrow> unit result \<times> 'w"
  http_post :: "string \<Rightarrow> (string \<times> string) list \<Rightarrow> bytes \<Rightarrow> 'w \<Rightarrow> http_response result \<times> 'w"
  http_get :: "string \<Rightarrow> 'w \<Rightarrow> http_response result \<times> 'w"
  http_clock :: "'w \<Rightarrow> int \<times> 'w"

record route53_client =
  rc_access_key :: string
  rc_secret_key :: string
  rc_session_token :: "string option"

definition route53_client_new ::
  "'w http_calls \<Rightarrow> string \<Rightarrow> string \<Rightarrow> string option \<Rightarrow> ('w sys, route53_client) io" where
  "route53_client_new N key secret token =
     io_bind (io_ctx ''failed to build reqwest client'' (quietly (http_client_build N))) (\<lambda>_.
     io_ret \<lparr>rc_access_key = key, rc_secret_key = secret, rc_session_token = token\<rparr>)"

definition from_s3_credentials :: "'w http_calls \<Rightarrow> aws_credentials \<Rightarrow> ('w sys, route53_client) io" where
  "from_s3_credentials N cr =
     io_bind (io_lift (ok_or (Bail ''credentials missing access_key'') (access_key cr))) (\<lambda>key.
     io_bind (io_lift (ok_or (Bail ''credentials missing secret_key'') (secret_key cr))) (\<lambda>secret.
     route53_client_new N key secret
       (case security_token cr of Some t \<Rightarrow> Some t | None \<Rightarrow> session_token cr)))"

text \<open>The crates that signing uses.\<close>

record sigv4_crates =
  sc_hash :: hash_crate
  sc_hex :: hex_crate
  sc_chrono :: chrono_crate
  sc_header :: header_crate

definition client_signed_headers ::
  "sigv4_crates \<Rightarrow> 'w http_calls \<Rightarrow> route53_client \<Rightarrow> string \<Rightarrow> string \<Rightarrow> bytes \<Rightarrow>
     ('w sys, (string \<times> string) list) io" where
  "client_signed_headers S N rc verb path body =
     io_bind (read_clock (http_clock N)) (\<lambda>now.
     io_lift (to_header_map (sc_header S)
       (aws_sigv4_headers (sc_hash S) (sc_hex S) (sc_chrono S) now verb host path '''' body
          service route53_region (rc_access_key rc) (rc_secret_key rc) (rc_session_token rc))))"

definition check_response :: "http_response \<Rightarrow> string result" where
  "check_response resp =
     and_then (ctx ''reading Route 53 response body'' (http_body resp)) (\<lambda>body.
       if 200 \<le> http_status resp \<and> http_status resp < 300 then Ok body
       else Err (Bail (''Route 53 HTTP '' @ http_status_text resp @ '': '' @ body)))"

text \<open>The path of the request: a zone id may come with either form of its prefix.\<close>

definition zone_of :: "string \<Rightarrow> string" where
  "zone_of hosted_zone_id =
     trim (trim_start_matches ''hostedzone/'' (trim_start_matches ''/hostedzone/'' hosted_zone_id))"

definition rrset_path :: "string \<Rightarrow> string" where
  "rrset_path hosted_zone_id = ''/2013-04-01/hostedzone/'' @ zone_of hosted_zone_id @ ''/rrset/''"

definition change_info_of :: "string \<Rightarrow> change_info" where
  "change_info_of raw_xml =
     \<lparr>change_id = trim_start_matches ''/change/''
        (case extract_xml_text raw_xml ''Id'' of None \<Rightarrow> '''' | Some t \<Rightarrow> t),
      change_status = (case extract_xml_text raw_xml ''Status'' of None \<Rightarrow> '''' | Some t \<Rightarrow> t)\<rparr>"

definition change_resource_record_sets ::
  "sigv4_crates \<Rightarrow> 'w http_calls \<Rightarrow> route53_client \<Rightarrow> string \<Rightarrow> string option \<Rightarrow> change list \<Rightarrow>
     ('w sys, change_info) io" where
  "change_resource_record_sets S N rc hosted_zone_id comment changes =
     (let path = rrset_path hosted_zone_id;
          body = build_change_xml comment changes;
          url = ''https://'' @ host @ path in
      io_bind (client_signed_headers S N rc ''POST'' path body) (\<lambda>headers.
      io_bind (io_ctx ''sending ChangeResourceRecordSets request''
        (perform (Ev_Route53_Post url body) (http_post N url headers body))) (\<lambda>resp.
      io_bind (io_lift (ctx ''failed to deserialize route53 response'' (check_response resp))) (\<lambda>raw_xml.
      io_ret (change_info_of raw_xml)))))"

section \<open>Escaping\<close>

lemma xml_escape_eq: "xml_escape s = concat (map xml_escape_char s)"
proof -
  have "concat (map xml_escape_char s) = s"
    if "\<not> list_ex (\<lambda>c. c \<in> {CHR ''&'', CHR ''<'', CHR ''>'', CHR 0x22, CHR 0x27}) s"
    using that by (induction s) (auto simp: xml_escape_char_def)
  then show ?thesis by (simp add: xml_escape_def)
qed

lemma xml_escape_simps [simp]:
  "xml_escape [] = []" "xml_escape (c # s) = xml_escape_char c @ xml_escape s"
  by (simp_all add: xml_escape_eq)

definition markup_char :: "char \<Rightarrow> bool" where
  "markup_char c \<longleftrightarrow> c = CHR ''<'' \<or> c = CHR ''>'' \<or> c = CHR 0x22 \<or> c = CHR 0x27"

lemma xml_escape_no_markup: "c \<in> set (xml_escape s) \<Longrightarrow> \<not> markup_char c"
  by (induction s) (auto simp: xml_escape_char_def markup_char_def split: if_splits)

text \<open>The reader of the five entities; \<open>&\<close> followed by anything else is kept.\<close>

fun xml_unescape :: "string \<Rightarrow> string" where
  "xml_unescape [] = []"
| "xml_unescape (c # s) =
     (if c = CHR ''&'' then
        (case strip_prefix ''amp;'' s of Some _ \<Rightarrow> CHR ''&'' # xml_unescape (drop 4 s)
         | None \<Rightarrow> (case strip_prefix ''lt;'' s of Some _ \<Rightarrow> CHR ''<'' # xml_unescape (drop 3 s)
         | None \<Rightarrow> (case strip_prefix ''gt;'' s of Some _ \<Rightarrow> CHR ''>'' # xml_unescape (drop 3 s)
         | None \<Rightarrow> (case strip_prefix ''quot;'' s of Some _ \<Rightarrow> CHR 0x22 # xml_unescape (drop 5 s)
         | None \<Rightarrow> (case strip_prefix ''apos;'' s of Some _ \<Rightarrow> CHR 0x27 # xml_unescape (drop 5 s)
         | None \<Rightarrow> c # xml_unescape s)))))
      else c # xml_unescape s)"

lemma xml_unescape_escape: "xml_unescape (xml_escape s) = s"
  by (induction s) (auto simp: xml_escape_char_def)

interpretation xml_text: codec xml_escape "\<lambda>t. Some (xml_unescape t)"
  by unfold_locales (simp add: xml_unescape_escape)

section \<open>The zone id\<close>

lemma rrset_path_forms:
  assumes "CHR ''/'' \<notin> set z" and "trim z = z"
  shows "rrset_path z = ''/2013-04-01/hostedzone/'' @ z @ ''/rrset/''"
    and "rrset_path (''hostedzone/'' @ z) = rrset_path z"
    and "rrset_path (''/hostedzone/'' @ z) = rrset_path z"
proof -
  have none: "trim_start_matches ''/hostedzone/'' z = z" "trim_start_matches ''hostedzone/'' z = z"
    using assms(1) by (auto intro!: trim_start_matches_none [of "CHR ''/''"])
  have other: "trim_start_matches ''/hostedzone/'' (''hostedzone/'' @ z) = ''hostedzone/'' @ z"
    by (simp add: trim_start_matches_def strip_while_None)
  show "rrset_path z = ''/2013-04-01/hostedzone/'' @ z @ ''/rrset/''"
    by (simp add: rrset_path_def zone_of_def none assms(2))
  show "rrset_path (''hostedzone/'' @ z) = rrset_path z"
    using trim_start_matches_prefix [of "''hostedzone/''" z] other
    by (simp add: rrset_path_def zone_of_def none)
  show "rrset_path (''/hostedzone/'' @ z) = rrset_path z"
    using trim_start_matches_prefix [of "''/hostedzone/''" z] by (simp add: rrset_path_def zone_of_def none)
qed

text \<open>
  C38: the three forms of a hosted zone id that the documentation allows, bare or after
  \<open>hostedzone/\<close> with or without a slash before it, address the same resource of the service.
\<close>

theorem zone_id_forms_agree:
  assumes "CHR ''/'' \<notin> set z" and "trim z = z"
  shows "\<forall>pre \<in> {[], ''hostedzone/'', ''/hostedzone/''}.
    rrset_path (pre @ z) = ''/2013-04-01/hostedzone/'' @ z @ ''/rrset/''"
  using rrset_path_forms [OF assms] by simp

end
