(* ===== verification/Unix_Priv.thy ===== *)
theory Unix_Priv
  imports World
begin

text \<open>
  \<open>src/unix.rs\<close>: dropping privileges, and the error mapping of \<open>MustBeRoot\<close>. The system calls
  (\<open>nix::unistd\<close>) are a record of functions of the world. The locale \<open>posix_credentials\<close> states
  what the manual pages promise of them; it is interpreted on a model of the credentials of a
  Linux process.
\<close>

section \<open>System calls\<close>

record user =
  user_name :: string
  user_uid :: nat
  user_gid :: nat

record 'w unix_calls =
  geteuid :: "'w \<Rightarrow> nat"
  getuid :: "'w \<Rightarrow> nat"
  getgid :: "'w \<Rightarrow> nat"
  user_from_name :: "string \<Rightarrow> 'w \<Rightarrow> user option result"
  setgroups :: "nat list \<Rightarrow> 'w \<Rightarrow> unit result \<times> 'w"
  setresgid :: "nat \<Rightarrow> nat \<Rightarrow> nat \<Rightarrow> 'w \<Rightarrow> unit result \<times> 'w"
  setresuid :: "nat \<Rightarrow> nat \<Rightarrow> nat \<Rightarrow> 'w \<Rightarrow> unit result \<times> 'w"
  setuid :: "nat \<Rightarrow> 'w \<Rightarrow> unit result \<times> 'w"

section \<open>Dropping privileges\<close>

text \<open>A text in single quotes.\<close>

definition quoted :: "string \<Rightarrow> string" where
  "quoted s = [CHR 0x27] @ s @ [CHR 0x27]"

text \<open>The user to drop to: the one asked for, else \<open>nobody\<close>, whose lookup error counts as absence.\<close>

definition drop_target :: "'w unix_calls \<Rightarrow> string \<Rightarrow> 'w \<Rightarrow> user result" where
  "drop_target U username w =
     and_then (ctx ''failed to check user exists'' (user_from_name U username w)) (\<lambda>found.
       ok_or (Bail (''user '' @ quoted username @ '' not found and fallback '' @ quoted ''nobody'' @ '' also not found''))
         (case found of
            Some u \<Rightarrow> Some u
          | None \<Rightarrow> (case user_from_name U ''nobody'' w of Ok v \<Rightarrow> v | _ \<Rightarrow> None)))"

text \<open>
  The last call succeeds only where privileges could be regained: its success is the error.
\<close>

definition check_no_return :: "'w unix_calls \<Rightarrow> ('w sys, unit) io" where
  "check_no_return U =
     io_match (perform (Ev_Setuid 0) (setuid U 0))
       (\<lambda>_. io_lift (Err (Bail (''re-escalation succeeded '' @ [CHR 0xE2, CHR 0x80, CHR 0x94] @ '' aborting''))))
       (\<lambda>_. io_ret ())"

definition drop_to :: "'w unix_calls \<Rightarrow> user \<Rightarrow> ('w sys, unit) io" where
  "drop_to U u =
     (let uid = user_uid u; gid = user_gid u in
      io_bind (perform (Ev_Setgroups []) (setgroups U [])) (\<lambda>_.
      io_bind (perform (Ev_Setresgid gid gid gid) (setresgid U gid gid gid)) (\<lambda>_.
      io_bind (perform (Ev_Setresuid uid uid uid) (setresuid U uid uid uid)) (\<lambda>_ s.
        if getuid U (world s) \<noteq> uid \<or> getgid U (world s) \<noteq> gid
        then (Err (Bail ''privilege drop verification failed''), s)
        else check_no_return U s))))"

definition maybe_drop_privileges :: "'w unix_calls \<Rightarrow> string \<Rightarrow> ('w sys, unit) io" where
  "maybe_drop_privileges U username s =
     (if geteuid U (world s) \<noteq> 0 then (Ok (), s)
      else io_bind (io_lift (drop_target U username (world s))) (drop_to U) s)"

text \<open>\<open>or_must_be_root\<close>.\<close>

fun or_must_be_root :: "string \<Rightarrow> io_kind + 'a \<Rightarrow> 'a result" where
  "or_must_be_root c (Inr x) = Ok x"
| "or_must_be_root c (Inl k) =
     (if k = PermissionDenied then Err (Bail (''must be root: '' @ c)) else Err (Io k))"

lemma or_must_be_root_Ok_iff [ok_iff]: "or_must_be_root c r = Ok x \<longleftrightarrow> r = Inr x"
  by (cases r) auto

lemma or_must_be_root_not_Panic [simp]: "or_must_be_root c r \<noteq> Panic m"
  by (cases r) auto

section \<open>What holds for any system\<close>

definition is_privilege_call :: "event \<Rightarrow> bool" where
  "is_privilege_call e \<longleftrightarrow>
     (case e of Ev_Setgroups _ \<Rightarrow> True | Ev_Setresgid _ _ _ \<Rightarrow> True | Ev_Setresuid _ _ _ \<Rightarrow> True
      | Ev_Setuid _ \<Rightarrow> True | _ \<Rightarrow> False)"

lemma maybe_drop_unprivileged:
  "geteuid U (world s) \<noteq> 0 \<Longrightarrow> maybe_drop_privileges U username s = (Ok (), s)"
  by (simp add: maybe_drop_privileges_def)

lemma check_no_return_Ok_iff [ok_iff]:
  "check_no_return U s = (Ok (), t) \<longleftrightarrow>
     (\<exists>e w. setuid U 0 (world s) = (Err e, w) \<and> t = s\<lparr>world := w, trace := trace s @ [Ev_Setuid 0]\<rparr>)"
  by (auto simp: check_no_return_def ok_iff)

text \<open>A successful drop as root, spelled out.\<close>

lemma drop_to_Ok_iff:
  "drop_to U u s = (Ok (), t) \<longleftrightarrow>
     (\<exists>w1 w2 w3 w4 e. setgroups U [] (world s) = (Ok (), w1) \<and>
        setresgid U (user_gid u) (user_gid u) (user_gid u) w1 = (Ok (), w2) \<and>
        setresuid U (user_uid u) (user_uid u) (user_uid u) w2 = (Ok (), w3) \<and>
        getuid U w3 = user_uid u \<and> getgid U w3 = user_gid u \<and>
        setuid U 0 w3 = (Err e, w4) \<and>
        t = s\<lparr>world := w4, trace := trace s @
          [Ev_Setgroups [], Ev_Setresgid (user_gid u) (user_gid u) (user_gid u),
           Ev_Setresuid (user_uid u) (user_uid u) (user_uid u), Ev_Setuid 0]\<rparr>)"
proof -
  have verify: "(if getuid U (world s) \<noteq> uid \<or> getgid U (world s) \<noteq> gid then (Err e, s)
      else check_no_return U s) = (Ok (), t) \<longleftrightarrow>
    getuid U (world s) = uid \<and> getgid U (world s) = gid \<and> check_no_return U s = (Ok (), t)"
    for uid gid e and s t :: "'a sys" by auto
  show ?thesis
    unfolding drop_to_def Let_def io_bind_Ok_iff perform_Ok_iff verify check_no_return_Ok_iff
    by fastforce
qed

lemma emits_maybe_drop [emits_intros]:
  assumes "\<And>e. is_privilege_call e \<Longrightarrow> P e"
  shows "emits P (maybe_drop_privileges U username)"
proof -
  have check: "emits P (check_no_return U)"
    unfolding check_no_return_def by (intro emits_intros assms) (simp add: is_privilege_call_def)
  have verify: "emits P (\<lambda>s. if getuid U (world s) \<noteq> uid \<or> getgid U (world s) \<noteq> gid
      then (Err e, s) else check_no_return U s)" for uid gid e
    using check by (auto simp: emits_def)
  have "emits P (drop_to U u)" for u
    unfolding drop_to_def Let_def
    by (intro emits_intros assms verify) (simp_all add: is_privilege_call_def)
  then have "emits P (io_bind (io_lift r) (drop_to U))" for r
    by (intro emits_intros)
  then show ?thesis
    by (auto simp: maybe_drop_privileges_def emits_def)
qed

section \<open>What POSIX credentials promise\<close>

text \<open>
  \<open>creds w\<close> is the real, effective and saved user id, the same three group ids, and the
  supplementary groups. \<open>setresuid\<close> and \<open>setresgid\<close> set all three ids when they succeed,
  \<open>setgroups\<close> the supplementary groups, and \<open>setuid\<close> succeeds for an effective user id 0, or for
  an id that is the real or the saved one (setuid(2), setresuid(2)).
\<close>

text \<open>
  An id is a natural number below \<open>u32::MAX\<close>: that value is no id (POSIX reserves \<open>(uid_t) -1\<close>), and
  the calls would read it as "unchanged".
\<close>

record credentials =
  ruid :: nat
  euid :: nat
  suid :: nat
  rgid :: nat
  egid :: nat
  sgid :: nat
  groups :: "nat list"

locale posix_credentials =
  fixes U :: "'w unix_calls"
    and creds :: "'w \<Rightarrow> credentials"
  assumes getuid_law: "getuid U w = ruid (creds w)"
    and geteuid_law: "geteuid U w = euid (creds w)"
    and getgid_law: "getgid U w = rgid (creds w)"
    and setgroups_law: "setgroups U g w = (Ok (), w') \<Longrightarrow> creds w' = (creds w)\<lparr>groups := g\<rparr>"
    and setresgid_law: "setresgid U a b c w = (Ok (), w') \<Longrightarrow>
      creds w' = (creds w)\<lparr>rgid := a, egid := b, sgid := c\<rparr>"
    and setresuid_law: "setresuid U a b c w = (Ok (), w') \<Longrightarrow>
      creds w' = (creds w)\<lparr>ruid := a, euid := b, suid := c\<rparr>"
    and setuid_fails: "setuid U i w = (Err e, w') \<Longrightarrow> creds w' = creds w"
    and setuid_succeeds: "euid (creds w) = 0 \<or> ruid (creds w) = i \<or> suid (creds w) = i \<Longrightarrow>
      \<exists>w'. setuid U i w = (Ok (), w')"
begin

text \<open>After a successful drop every id is the user's, and no supplementary group is left.\<close>

lemma drop_to_credentials:
  assumes "drop_to U u s = (Ok (), t)"
  shows "creds (world t) = \<lparr>ruid = user_uid u, euid = user_uid u, suid = user_uid u,
    rgid = user_gid u, egid = user_gid u, sgid = user_gid u, groups = []\<rparr>"
proof -
  from assms obtain w1 w2 w3 w4 e where calls: "setgroups U [] (world s) = (Ok (), w1)"
    "setresgid U (user_gid u) (user_gid u) (user_gid u) w1 = (Ok (), w2)"
    "setresuid U (user_uid u) (user_uid u) (user_uid u) w2 = (Ok (), w3)"
    "setuid U 0 w3 = (Err e, w4)" and t: "world t = w4"
    by (auto simp: drop_to_Ok_iff)
  show ?thesis
    using setuid_fails [OF calls(4)] setresuid_law [OF calls(3)] setresgid_law [OF calls(2)]
      setgroups_law [OF calls(1)] by (simp add: t)
qed

text \<open>Dropping to a user whose id is 0 is refused: the check of the way back succeeds.\<close>

lemma drop_to_root_refused: "user_uid u = 0 \<Longrightarrow> drop_to U u s \<noteq> (Ok (), t)"
proof
  assume u: "user_uid u = 0" and "drop_to U u s = (Ok (), t)"
  then obtain w2 w3 w4 e where
    "setresuid U 0 0 0 w2 = (Ok (), w3)" and fails: "setuid U 0 w3 = (Err e, w4)"
    by (auto simp: drop_to_Ok_iff)
  then have "euid (creds w3) = 0" by (simp add: setresuid_law)
  with setuid_succeeds [of w3 0] fails show False by auto
qed

lemma drop_target_Ok: "maybe_drop_privileges U username s = (Ok (), t) \<Longrightarrow>
  euid (creds (world s)) = 0 \<Longrightarrow>
  \<exists>u. drop_target U username (world s) = Ok u \<and> drop_to U u s = (Ok (), t)"
  by (auto simp: maybe_drop_privileges_def geteuid_law ok_iff)

text \<open>Whoever the process was, after a successful call it does not run with effective id 0.\<close>

lemma maybe_drop_not_root:
  assumes "maybe_drop_privileges U username s = (Ok (), t)"
  shows "euid (creds (world t)) \<noteq> 0"
proof (cases "euid (creds (world s)) = 0")
  case True
  from drop_target_Ok [OF assms this] obtain u where u: "drop_to U u s = (Ok (), t)" by blast
  then have "user_uid u \<noteq> 0" using drop_to_root_refused by blast
  with drop_to_credentials [OF u] show ?thesis by simp
next
  case False
  with assms have "t = s" by (simp add: maybe_drop_privileges_def geteuid_law)
  with False show ?thesis by simp
qed

end

section \<open>The credentials of a Linux process\<close>

text \<open>
  A world whose processes behave as credentials(7) says: a process with effective user id 0 has
  the capabilities to set any id, any other may only choose among the ids it has.
\<close>

record linux =
  cred :: credentials
  passwd :: "user list"

definition linux_may :: "nat \<Rightarrow> credentials \<Rightarrow> bool" where
  "linux_may i c \<longleftrightarrow> euid c = 0 \<or> i \<in> {ruid c, euid c, suid c}"

definition linux_may_gid :: "nat \<Rightarrow> credentials \<Rightarrow> bool" where
  "linux_may_gid i c \<longleftrightarrow> euid c = 0 \<or> i \<in> {rgid c, egid c, sgid c}"

definition eperm :: "'a result" where
  "eperm = Err (External ''EPERM'')"

definition linux_calls :: "linux unix_calls" where
  "linux_calls =
     \<lparr>geteuid = (\<lambda>w. euid (cred w)),
      getuid = (\<lambda>w. ruid (cred w)),
      getgid = (\<lambda>w. rgid (cred w)),
      user_from_name = (\<lambda>n w. Ok (find (\<lambda>u. user_name u = n) (passwd w))),
      setgroups = (\<lambda>g w. if euid (cred w) = 0 then (Ok (), w\<lparr>cred := (cred w)\<lparr>groups := g\<rparr>\<rparr>) else (eperm, w)),
      setresgid = (\<lambda>a b c w.
        if linux_may_gid a (cred w) \<and> linux_may_gid b (cred w) \<and> linux_may_gid c (cred w)
        then (Ok (), w\<lparr>cred := (cred w)\<lparr>rgid := a, egid := b, sgid := c\<rparr>\<rparr>) else (eperm, w)),
      setresuid = (\<lambda>a b c w.
        if linux_may a (cred w) \<and> linux_may b (cred w) \<and> linux_may c (cred w)
        then (Ok (), w\<lparr>cred := (cred w)\<lparr>ruid := a, euid := b, suid := c\<rparr>\<rparr>) else (eperm, w)),
      setuid = (\<lambda>i w.
        if euid (cred w) = 0 then (Ok (), w\<lparr>cred := (cred w)\<lparr>ruid := i, euid := i, suid := i\<rparr>\<rparr>)
        else if i = ruid (cred w) \<or> i = suid (cred w) then (Ok (), w\<lparr>cred := (cred w)\<lparr>euid := i\<rparr>\<rparr>)
        else (eperm, w))\<rparr>"

interpretation linux: posix_credentials linux_calls cred
  by unfold_locales
     (auto simp: linux_calls_def linux_may_def linux_may_gid_def eperm_def split: if_splits)

section \<open>The property\<close>

text \<open>
  C9: on a system with POSIX credentials, a successful call leaves a process whose effective user id is
  not 0. A process that was root has dropped to the user that was asked for, or to \<open>nobody\<close>, for
  good: its real, effective and saved ids are that user's, who is not root, and it has no supplementary
  group.
\<close>

theorem privileges_are_dropped:
  assumes "posix_credentials U creds" and "maybe_drop_privileges U username s = (Ok (), t)"
  shows "euid (creds (world t)) \<noteq> 0 \<and>
    (euid (creds (world s)) = 0 \<longrightarrow>
       (\<exists>u. drop_target U username (world s) = Ok u \<and> user_uid u \<noteq> 0 \<and>
          creds (world t) = \<lparr>ruid = user_uid u, euid = user_uid u, suid = user_uid u,
            rgid = user_gid u, egid = user_gid u, sgid = user_gid u, groups = []\<rparr>))"
proof -
  have "euid (creds (world t)) \<noteq> 0"
    by (rule posix_credentials.maybe_drop_not_root [OF assms])
  moreover have "\<exists>u. drop_target U username (world s) = Ok u \<and> user_uid u \<noteq> 0 \<and>
      creds (world t) = \<lparr>ruid = user_uid u, euid = user_uid u, suid = user_uid u,
        rgid = user_gid u, egid = user_gid u, sgid = user_gid u, groups = []\<rparr>"
    if "euid (creds (world s)) = 0"
  proof -
    from posix_credentials.drop_target_Ok [OF assms that] obtain u
      where u: "drop_target U username (world s) = Ok u" "drop_to U u s = (Ok (), t)" by blast
    from posix_credentials.drop_to_credentials [OF assms(1) u(2)]
      posix_credentials.drop_to_root_refused [OF assms(1)] u show ?thesis by blast
  qed
  ultimately show ?thesis by blast
qed

end
