(* ===== verification/Keys.thy ===== *)
theory Keys
  imports Unix_Priv
begin

text \<open>
  \<open>src/keys.rs\<close>: certificates, private keys, and reading a file with a limit. The crates
  \<open>x509_cert\<close> and \<open>ssh_key\<close> are records of functions; the file system is a record of
  functions of the world, so a file may change between two calls.
\<close>

section \<open>The crates and the file system\<close>

text \<open>A parsed certificate, as far as the program looks at it.\<close>

record attribute_type_and_value =
  atv_oid :: string
  atv_value :: bytes

record certificate =
  subject_public_key :: "bytes option"
  subject :: "attribute_type_and_value list list"

record x509_crate =
  certificate_from_pem :: "bytes \<Rightarrow> certificate option"
  decode_utf8_string :: "bytes \<Rightarrow> string option"
  decode_printable_string :: "bytes \<Rightarrow> string option"

record 'k ssh_crate =
  ssh_from_openssh :: "bytes \<Rightarrow> 'k option"
  ssh_is_encrypted :: "'k \<Rightarrow> bool"
  ssh_decrypt :: "'k \<Rightarrow> bytes \<Rightarrow> 'k option"
  ssh_ed25519_private :: "'k \<Rightarrow> bytes option"

text \<open>What the successive reads of an open file answer; an empty chunk is the end of the file.\<close>

datatype read_event = Chunk bytes | Interrupted | Read_Error io_kind

text \<open>A directory entry: its name, and what its type is (\<open>None\<close> when the lookup fails).\<close>

record dir_entry =
  entry_name :: string
  entry_is_file :: "bool option"

record 'w fs_calls =
  fs_metadata_len :: "string \<Rightarrow> 'w \<Rightarrow> (io_kind + nat) \<times> 'w"
  fs_open :: "string \<Rightarrow> 'w \<Rightarrow> (io_kind + read_event list) \<times> 'w"
  fs_read_dir :: "string \<Rightarrow> 'w \<Rightarrow> (io_kind + (io_kind + dir_entry) list) \<times> 'w"

section \<open>Reading a file with a limit\<close>

text \<open>\<open>BufReader::new(file).take(limit).read_to_end\<close>: an interrupted read is tried again.\<close>

fun read_to_end_limited :: "nat \<Rightarrow> read_event list \<Rightarrow> io_kind + bytes" where
  "read_to_end_limited n [] = Inr []"
| "read_to_end_limited n (Interrupted # evs) =
     (if n = 0 then Inr [] else read_to_end_limited n evs)"
| "read_to_end_limited n (Read_Error k # evs) = (if n = 0 then Inr [] else Inl k)"
| "read_to_end_limited n (Chunk bs # evs) =
     (if n = 0 \<or> bs = [] then Inr []
      else (case read_to_end_limited (n - length bs) evs of
              Inl k \<Rightarrow> Inl k
            | Inr rest \<Rightarrow> Inr (take n bs @ rest)))"

text \<open>The answer of an \<open>io::Result\<close> call with its error mapped.\<close>

definition root_call ::
  "event \<Rightarrow> string \<Rightarrow> ('w \<Rightarrow> (io_kind + 'a) \<times> 'w) \<Rightarrow> ('w sys, 'a) io" where
  "root_call e c f = perform e (\<lambda>w. case f w of (r, w') \<Rightarrow> (or_must_be_root c r, w'))"

definition too_large :: "nat \<Rightarrow> nat \<Rightarrow> error" where
  "too_large len max_bytes =
     Bail (''File too large: '' @ fmt_dec len @ '' bytes (limit: '' @ fmt_dec max_bytes @ '' bytes)'')"

definition read_file_limited :: "'w fs_calls \<Rightarrow> string \<Rightarrow> nat \<Rightarrow> ('w sys, bytes) io" where
  "read_file_limited F path max_bytes =
     io_bind (root_call (Ev_Metadata path) ''reading file metadata'' (fs_metadata_len F path)) (\<lambda>size.
       if max_bytes < size then io_lift (Err (too_large size max_bytes))
       else io_bind (root_call (Ev_Open path) ''opening file'' (fs_open F path)) (\<lambda>evs.
              io_lift (or_must_be_root ''reading file'' (read_to_end_limited max_bytes evs))))"

section \<open>Certificates\<close>

record cert_match =
  common_name :: string
  cert_key :: verifying_key

text \<open>The object identifier of the CommonName attribute.\<close>

definition common_name_oid :: string where
  "common_name_oid = ''2.5.4.3''"

text \<open>The value of an attribute as a UTF-8 string, or else as a printable string.\<close>

definition decode_name :: "x509_crate \<Rightarrow> bytes \<Rightarrow> string option" where
  "decode_name X v =
     (case decode_utf8_string X v of Some s \<Rightarrow> Some s | None \<Rightarrow> decode_printable_string X v)"

definition load_ed25519_certificate_pem :: "x509_crate \<Rightarrow> dalek_crate \<Rightarrow> bytes \<Rightarrow> cert_match result" where
  "load_ed25519_certificate_pem X D cert_bytes =
     and_then (ctx ''Could not parse into an x509 PEM certificate''
        (ok_or (External ''x509'') (certificate_from_pem X (trim_ascii cert_bytes)))) (\<lambda>cert.
     and_then (ok_or (Bail ''unable to extract Public Key bytes'') (subject_public_key cert)) (\<lambda>key_bytes.
     and_then (ctx ''Public Key bytes were retrieved but size was not 32''
        (if length key_bytes = 32 then Ok key_bytes else Err (External ''TryFromSliceError''))) (\<lambda>pub.
     and_then (ctx ''unable to convert bytes into a Verifying Key''
        (ok_or (External ''ed25519'') (verifying_key_from_bytes D pub))) (\<lambda>vk.
     and_then (ok_or (Bail ''unable to find the CommonName oid attribute in this certificate'')
        (find (\<lambda>atv. atv_oid atv = common_name_oid) (concat (subject cert)))) (\<lambda>atv.
     and_then (ctx ''found the CommonName oid, but was unable to transform it into a string''
        (ok_or (External ''der'') (decode_name X (atv_value atv)))) (\<lambda>cn.
     Ok \<lparr>common_name = cn, cert_key = vk\<rparr>))))))"

section \<open>Private keys\<close>

definition dummy_ed25519_private_key :: signing_key where
  "dummy_ed25519_private_key = Signing_Key (replicate 32 (char_of (0 :: nat)))"

definition load_ed25519_openssh_private_key ::
  "'k ssh_crate \<Rightarrow> bytes \<Rightarrow> string option \<Rightarrow> signing_key result" where
  "load_ed25519_openssh_private_key S key_bytes key_password =
     and_then (ok_or (External ''ssh_key'') (ssh_from_openssh S key_bytes)) (\<lambda>k.
     and_then
       (case (ssh_is_encrypted S k, key_password) of
          (True, None) \<Rightarrow>
            ctx ''Key is encrypted, and no password was supplied. Tried an empty decryption attempt, but a password is required''
              (ok_or (External ''ssh_key'') (ssh_decrypt S k []))
        | (True, Some pw) \<Rightarrow>
            ctx ''Key is encrypted, but supplied password did not match''
              (ok_or (External ''ssh_key'') (ssh_decrypt S k pw))
        | _ \<Rightarrow> Ok k) (\<lambda>k'.
     and_then (ok_or (Bail ''signing key was not ed25519, we only support ed25519 keys'')
        (ssh_ed25519_private S k')) (\<lambda>bs.
     Ok (Signing_Key bs))))"

definition load_ed25519_openssl_key :: "dalek_crate \<Rightarrow> bytes \<Rightarrow> signing_key result" where
  "load_ed25519_openssl_key D key_bytes =
     and_then (ctx ''not a valid utf8 string''
        (if utf8_valid key_bytes then Ok key_bytes else Err (External ''Utf8Error''))) (\<lambda>s.
     ctx ''failed to decode pkcs8 pem bytes from signing key''
        (ok_or (External ''pkcs8'') (signing_key_from_pkcs8_pem D s)))"

definition load_ed25519_private_key ::
  "'k ssh_crate \<Rightarrow> dalek_crate \<Rightarrow> bytes \<Rightarrow> string option \<Rightarrow> signing_key result" where
  "load_ed25519_private_key S D key_bytes key_password =
     (let key_bytes = trim_ascii key_bytes in
      if starts_with openssh_prefix_private_key key_bytes
      then load_ed25519_openssh_private_key S key_bytes key_password
      else if starts_with openssl_prefix_private_key key_bytes
      then load_ed25519_openssl_key D key_bytes
      else Err (Bail ''Supplied signing key was not a valid supported format''))"

section \<open>Facts\<close>

text \<open>The bytes the events deliver, as long as no error comes and up to the end of the file.\<close>

fun stream_bytes :: "read_event list \<Rightarrow> bytes" where
  "stream_bytes [] = []"
| "stream_bytes (Interrupted # evs) = stream_bytes evs"
| "stream_bytes (Read_Error k # evs) = []"
| "stream_bytes (Chunk bs # evs) = (if bs = [] then [] else bs @ stream_bytes evs)"

text \<open>What is read is the front of the file, and never more than the limit.\<close>

lemma read_to_end_limited_Inr:
  "read_to_end_limited n evs = Inr bs \<Longrightarrow> bs = take n (stream_bytes evs)"
proof (induction n evs arbitrary: bs rule: read_to_end_limited.induct)
  case (4 n cs evs)
  then show ?case by (auto split: if_splits sum.splits)
qed (auto split: if_splits)

lemma read_to_end_limited_length: "read_to_end_limited n evs = Inr bs \<Longrightarrow> length bs \<le> n"
  by (auto dest: read_to_end_limited_Inr)

lemma root_call_Ok_iff [ok_iff]:
  "root_call e c f s = (Ok x, t) \<longleftrightarrow>
     (\<exists>w. f (world s) = (Inr x, w) \<and> t = s\<lparr>world := w, trace := trace s @ [e]\<rparr>)"
  by (auto simp: root_call_def ok_iff split: prod.splits)

lemma emits_root_call [emits_intros]: "P e \<Longrightarrow> emits P (root_call e c f)"
  unfolding root_call_def by (rule emits_perform)

definition is_file_call :: "event \<Rightarrow> bool" where
  "is_file_call e \<longleftrightarrow> (case e of Ev_Metadata _ \<Rightarrow> True | Ev_Open _ \<Rightarrow> True | Ev_Read_Dir _ \<Rightarrow> True | _ \<Rightarrow> False)"

lemma emits_read_file_limited [emits_intros]:
  "(\<And>e. is_file_call e \<Longrightarrow> P e) \<Longrightarrow> emits P (read_file_limited F path n)"
  unfolding read_file_limited_def by (intro emits_intros) (simp_all add: is_file_call_def)

lemma read_file_limited_Ok:
  assumes "read_file_limited F path n s = (Ok bs, t)"
  obtains size w evs w' where "fs_metadata_len F path (world s) = (Inr size, w)" and "size \<le> n"
    and "fs_open F path w = (Inr evs, w')" and "read_to_end_limited n evs = Inr bs"
    and "bs = take n (stream_bytes evs)"
  using assms
  by (fastforce simp: read_file_limited_def ok_iff split: if_splits dest: read_to_end_limited_Inr)

lemma read_file_limited_not_Panic: "fst (read_file_limited F path n s) \<noteq> Panic m"
  by (auto simp: read_file_limited_def io_bind_def root_call_def perform_def
      split: prod.splits result.splits)

lemma load_certificate_Ok_iff:
  "load_ed25519_certificate_pem X D bs = Ok cm \<longleftrightarrow>
     (\<exists>cert pub atv. certificate_from_pem X (trim_ascii bs) = Some cert \<and>
        subject_public_key cert = Some pub \<and> length pub = 32 \<and>
        verifying_key_from_bytes D pub = Some (cert_key cm) \<and>
        find (\<lambda>a. atv_oid a = common_name_oid) (concat (subject cert)) = Some atv \<and>
        decode_name X (atv_value atv) = Some (common_name cm))"
  by (cases cm) (auto simp: load_ed25519_certificate_pem_def and_then_Ok_iff ctx_Ok_iff ok_or_Ok_iff
      if_Ok_iff)

lemma load_certificate_not_Panic: "load_ed25519_certificate_pem X D bs \<noteq> Panic m"
proof -
  have "ctx c (ok_or e v) \<noteq> Panic m" for c e and v :: "'a option"
    by (cases v) auto
  then show ?thesis
    unfolding load_ed25519_certificate_pem_def
    by (intro and_then_not_Panic) (auto simp: ok_iff)
qed

text \<open>
  C22: what is read of a file is bounded by the limit, whatever the file does between the two calls: it
  is the front of what the opened file holds, and the size in the metadata was within the limit. A
  file that has grown since is cut, not refused.
\<close>

theorem read_file_is_bounded:
  assumes "read_file_limited F path n s = (Ok bs, t)"
  shows "length bs \<le> n \<and>
    (\<exists>size w evs w'. fs_metadata_len F path (world s) = (Inr size, w) \<and> size \<le> n \<and>
       fs_open F path w = (Inr evs, w') \<and> bs = take n (stream_bytes evs))"
  by (rule read_file_limited_Ok [OF assms]) (auto dest: read_to_end_limited_length)

text \<open>
  Which files are certificates, and of whom: the trimmed file is a PEM certificate, its public key has 32
  bytes and is a valid Ed25519 key, and the first CommonName attribute of the subject is a UTF-8 string,
  or else a printable string.
\<close>

definition certifies :: "x509_crate \<Rightarrow> dalek_crate \<Rightarrow> bytes \<Rightarrow> cert_match \<Rightarrow> bool" where
  "certifies X D bs cm \<longleftrightarrow>
     (\<exists>cert pub pre atv post. certificate_from_pem X (trim_ascii bs) = Some cert \<and>
        subject_public_key cert = Some pub \<and> length pub = 32 \<and>
        verifying_key_from_bytes D pub = Some (cert_key cm) \<and>
        concat (subject cert) = pre @ atv # post \<and> atv_oid atv = ''2.5.4.3'' \<and>
        list_all (\<lambda>a. atv_oid a \<noteq> ''2.5.4.3'') pre \<and>
        (decode_utf8_string X (atv_value atv) = Some (common_name cm) \<or>
         decode_utf8_string X (atv_value atv) = None \<and>
         decode_printable_string X (atv_value atv) = Some (common_name cm)))"

lemma find_Some_split:
  "find P xs = Some x \<longleftrightarrow> (\<exists>pre post. xs = pre @ x # post \<and> P x \<and> list_all (\<lambda>y. \<not> P y) pre)"
proof
  show "find P xs = Some x \<Longrightarrow> \<exists>pre post. xs = pre @ x # post \<and> P x \<and> list_all (\<lambda>y. \<not> P y) pre"
  proof (induction xs)
    case (Cons y ys)
    show ?case
    proof (cases "P y")
      case True
      with Cons.prems show ?thesis by (intro exI [of _ "[]"] exI [of _ ys]) simp
    next
      case False
      with Cons obtain pre post where "ys = pre @ x # post" "P x" "list_all (\<lambda>y. \<not> P y) pre" by auto
      with False show ?thesis by (intro exI [of _ "y # pre"] exI [of _ post]) simp
    qed
  qed simp
  have "list_all (\<lambda>y. \<not> P y) pre \<Longrightarrow> P x \<Longrightarrow> find P (pre @ x # post) = Some x" for pre post
    by (induction pre) auto
  then show "\<exists>pre post. xs = pre @ x # post \<and> P x \<and> list_all (\<lambda>y. \<not> P y) pre \<Longrightarrow> find P xs = Some x" by auto
qed

lemma decode_name_Some:
  "decode_name X v = Some n \<longleftrightarrow>
     decode_utf8_string X v = Some n \<or> decode_utf8_string X v = None \<and> decode_printable_string X v = Some n"
  by (simp add: decode_name_def split: option.splits)

lemma load_certificate_certifies: "load_ed25519_certificate_pem X D bs = Ok cm \<longleftrightarrow> certifies X D bs cm"
  unfolding load_certificate_Ok_iff certifies_def find_Some_split decode_name_Some common_name_oid_def by blast

end
