(* ===== verification/Env.thy ===== *)
theory Env
  imports Route53 Keys
begin

text \<open>
  What a run depends on: the S3 service (crate \<open>rust-s3\<close>) and one record of all crates and services,
  which the commands take as an argument. Nothing is assumed of any of them here.
\<close>

section \<open>S3\<close>

text \<open>A page of a listing: the keys of its objects, and the token of the next page if there is one.\<close>

record list_page =
  page_keys :: "string list"
  next_continuation_token :: "string option"

text \<open>
  A bucket is a value of the crate. \<open>list_page\<close> takes the prefix, the delimiter and the token, and
  of the answers to a put or a delete the program reads the status code.
\<close>

record ('b, 'w) s3_calls =
  parse_region :: "string \<Rightarrow> string option"
  bucket_new :: "string \<Rightarrow> string \<Rightarrow> aws_credentials \<Rightarrow> 'b option"
  s3_list_page :: "'b \<Rightarrow> string \<Rightarrow> string option \<Rightarrow> string option \<Rightarrow> 'w \<Rightarrow> list_page result \<times> 'w"
  s3_get_object :: "'b \<Rightarrow> string \<Rightarrow> 'w \<Rightarrow> bytes result \<times> 'w"
  s3_put_object :: "'b \<Rightarrow> string \<Rightarrow> bytes \<Rightarrow> string \<Rightarrow> 'w \<Rightarrow> nat result \<times> 'w"
  s3_delete_object :: "'b \<Rightarrow> string \<Rightarrow> 'w \<Rightarrow> nat result \<times> 'w"

section \<open>Everything a command depends on\<close>

record ('k, 'b, 'w) env =
  e_lower :: "string \<Rightarrow> nat \<Rightarrow> string"
  e_hex :: hex_crate
  e_json :: json_crate
  e_dalek :: dalek_crate
  e_x509 :: x509_crate
  e_ssh :: "'k ssh_crate"
  e_chrono :: chrono_crate
  e_hash :: hash_crate
  e_header :: header_crate
  e_fs :: "'w fs_calls"
  e_unix :: "'w unix_calls"
  e_creds :: "'w creds_calls"
  e_s3 :: "('b, 'w) s3_calls"
  e_http :: "'w http_calls"

definition e_sigv4 :: "('k, 'b, 'w) env \<Rightarrow> sigv4_crates" where
  "e_sigv4 E = \<lparr>sc_hash = e_hash E, sc_hex = e_hex E, sc_chrono = e_chrono E, sc_header = e_header E\<rparr>"

text \<open>\<open>Utc::now()\<close> in nanoseconds, and its \<open>timestamp()\<close> in whole seconds.\<close>

definition utc_now :: "('k, 'b, 'w) env \<Rightarrow> ('w sys, int) io" where
  "utc_now E = read_clock (http_clock (e_http E))"

definition timestamp :: "int \<Rightarrow> i64" where
  "timestamp nanos = word_of_int (nanos div 1000000000)"

lemma emits_utc_now [emits_intros]: "emits P (utc_now E)"
  unfolding utc_now_def by (rule emits_read_clock)

section \<open>The kinds of events\<close>

fun is_s3_read :: "event \<Rightarrow> bool" where
  "is_s3_read (Ev_List_Page p d t) = True"
| "is_s3_read (Ev_Get_Object k) = True"
| "is_s3_read e = False"

fun is_print :: "event \<Rightarrow> bool" where
  "is_print (Ev_Print v) = True"
| "is_print e = False"

fun is_s3_put :: "event \<Rightarrow> bool" where
  "is_s3_put (Ev_Put_Object k b) = True"
| "is_s3_put e = False"

fun is_s3_delete :: "event \<Rightarrow> bool" where
  "is_s3_delete (Ev_Delete_Object k) = True"
| "is_s3_delete e = False"

fun is_http_get :: "event \<Rightarrow> bool" where
  "is_http_get (Ev_Http_Get u) = True"
| "is_http_get e = False"

fun is_dns_post :: "event \<Rightarrow> bool" where
  "is_dns_post (Ev_Route53_Post u b) = True"
| "is_dns_post e = False"

text \<open>The events that change S3 or the DNS.\<close>

definition mutates :: "event \<Rightarrow> bool" where
  "mutates e \<longleftrightarrow> is_s3_put e \<or> is_s3_delete e \<or> is_dns_post e"

end
