(* ===== verification/Demo.thy ===== *)
theory Demo
  imports Env "HOL-Library.AList"
begin

text \<open>
  An in-memory implementation of every interface, for concrete runs: files, a bucket that lists its
  keys as S3 documents it (prefix and delimiter, pages of one key), a DNS endpoint, the credentials
  of a Linux process, and simple stand-ins for the crates. The properties are about arbitrary
  implementations; the runs here show that their hypotheses hold together.
\<close>

section \<open>Crates\<close>

definition hex_value :: "char \<Rightarrow> nat option" where
  "hex_value c = to_digit 16 c"

fun demo_hex_decode :: "string \<Rightarrow> bytes option" where
  "demo_hex_decode [] = Some []"
| "demo_hex_decode [c] = None"
| "demo_hex_decode (c # d # s) =
     (case (hex_value c, hex_value d, demo_hex_decode s) of
        (Some h, Some l, Some bs) \<Rightarrow> Some (char_of (16 * h + l) # bs)
      | _ \<Rightarrow> None)"

definition demo_hex :: hex_crate where
  "demo_hex =
     \<lparr>hex_encode = (\<lambda>bs. concat (map (\<lambda>b. [digit_char (byte b div 16), digit_char (byte b mod 16)]) bs)),
      hex_decode = demo_hex_decode\<rparr>"

lemma demo_hex_roundtrips: "hex_roundtrips demo_hex"
proof -
  have byte: "byte b div 16 < 16" for b
    using byte_less [of b] by arith
  have "demo_hex_decode (hex_encode demo_hex bs) = Some bs" for bs
    by (induction bs)
       (simp_all add: demo_hex_def hex_value_def to_digit_digit_char byte)
  then show ?thesis by (simp add: hex_roundtrips_def demo_hex_def)
qed

text \<open>JSON texts by a table of values and their bytes.\<close>

definition table_json :: "(json \<times> bytes) list \<Rightarrow> json_crate" where
  "table_json tbl =
     \<lparr>to_vec_pretty = map_of tbl,
      from_slice = map_of (map (\<lambda>(j, b). (b, j)) tbl),
      canonical_to_vec = map_of tbl\<rparr>"

lemma table_json_roundtrips: "distinct (map snd tbl) \<Longrightarrow> json_roundtrips (table_json tbl)"
proof -
  assume d: "distinct (map snd tbl)"
  have "map_of (map (\<lambda>(j, b). (b, j)) tbl) b = Some j" if "map_of tbl j = Some b" for j b
  proof (rule map_of_is_SomeI)
    show "distinct (map fst (map (\<lambda>(j, b). (b, j)) tbl))"
      using d by (simp add: comp_def case_prod_beta)
    from map_of_SomeD [OF that] show "(b, j) \<in> set (map (\<lambda>(j, b). (b, j)) tbl)" by force
  qed
  then show ?thesis by (simp add: json_roundtrips_def table_json_def)
qed

text \<open>A keyed check sum of 64 bytes in the place of Ed25519.\<close>

definition check_sum :: "bytes \<Rightarrow> bytes \<Rightarrow> bytes" where
  "check_sum k m =
     replicate 63 (CHR 0x00) @ [char_of ((sum_list (map byte k) + 3 * sum_list (map byte m)) mod 256)]"

definition demo_dalek :: dalek_crate where
  "demo_dalek =
     \<lparr>try_sign = (\<lambda>sk m. case sk of Signing_Key k \<Rightarrow> Some (check_sum k m)),
      verify_strict = (\<lambda>vk m sig. case vk of Verifying_Key k \<Rightarrow> sig = check_sum k m),
      verifying_key_of = (\<lambda>sk. case sk of Signing_Key k \<Rightarrow> Verifying_Key k),
      verifying_key_from_bytes = (\<lambda>b. Some (Verifying_Key b)),
      signing_key_from_pkcs8_pem = (\<lambda>s. Some (Signing_Key (take 32 (drop 27 s))))\<rparr>"

lemma demo_signatures_verify: "signatures_verify demo_dalek"
  by (auto simp: signatures_verify_def demo_dalek_def check_sum_def split: signing_key.splits)

text \<open>A certificate file is its 32 key bytes followed by its CommonName.\<close>

definition demo_x509 :: x509_crate where
  "demo_x509 =
     \<lparr>certificate_from_pem = (\<lambda>b. if length b < 32 then None
        else Some \<lparr>subject_public_key = Some (take 32 b),
               subject = [[\<lparr>atv_oid = common_name_oid, atv_value = drop 32 b\<rparr>]]\<rparr>),
      decode_utf8_string = (\<lambda>v. None),
      decode_printable_string = Some\<rparr>"

definition demo_ssh :: "unit ssh_crate" where
  "demo_ssh =
     \<lparr>ssh_from_openssh = (\<lambda>b. None), ssh_is_encrypted = (\<lambda>k. False),
      ssh_decrypt = (\<lambda>k p. None), ssh_ed25519_private = (\<lambda>k. None)\<rparr>"

text \<open>The range of \<open>chrono\<close> in seconds is that of its documentation.\<close>

definition chrono_max_secs :: int where
  "chrono_max_secs = 8210266876799"

definition chrono_min_secs :: int where
  "chrono_min_secs = -8334601228800"

definition demo_chrono :: chrono_crate where
  "demo_chrono =
     \<lparr>from_timestamp = (\<lambda>n. if chrono_min_secs \<le> n \<and> n \<le> chrono_max_secs then Some (n * 1000000000) else None),
      add_delta = (\<lambda>t d. if chrono_min_secs * 1000000000 \<le> t + d \<and> t + d < (chrono_max_secs + 1) * 1000000000
                    then Some (t + d) else None),
      chrono_format = (\<lambda>f t. fmt_dec (nat (t div 1000000000)))\<rparr>"

definition demo_hash :: hash_crate where
  "demo_hash = \<lparr>sha256_digest = check_sum [], hmac_finalize = check_sum\<rparr>"

definition demo_header :: header_crate where
  "demo_header = \<lparr>header_name_from_str = Some, header_value_from_str = Some\<rparr>"

section \<open>The world\<close>

record demo =
  files :: "(string \<times> bytes) list"
  objects :: "(string \<times> bytes) list"
  posts :: "bytes list"
  own_ip :: string
  clock :: int
  os :: linux

text \<open>
  A listing has at most 1000 pages; the token of a page is its number in unary.
\<close>

definition next_index :: "nat \<Rightarrow> string list \<Rightarrow> string option" where
  "next_index i ks = (if Suc i < length ks \<and> Suc i < 1000 then Some (replicate (Suc i) CHR ''p'') else None)"

definition index_of_token :: "string option \<Rightarrow> nat" where
  "index_of_token tok = (case tok of None \<Rightarrow> 0 | Some t \<Rightarrow> length t)"

text \<open>The keys under a prefix with nothing after it that contains the delimiter.\<close>

definition s3_contents :: "string \<Rightarrow> string option \<Rightarrow> string list \<Rightarrow> string list" where
  "s3_contents pre delim ks =
     filter (\<lambda>k. case strip_prefix pre k of
        None \<Rightarrow> False
      | Some rest \<Rightarrow> (case delim of None \<Rightarrow> True | Some d \<Rightarrow> find_str d rest = None)) ks"

definition demo_s3 :: "(unit, demo) s3_calls" where
  "demo_s3 =
     \<lparr>parse_region = Some,
      bucket_new = (\<lambda>n r c. Some ()),
      s3_list_page = (\<lambda>b p d tok w.
        (let ks = s3_contents p d (map fst (objects w)); i = index_of_token tok in
         (Ok \<lparr>page_keys = take 1 (drop i ks), next_continuation_token = next_index i ks\<rparr>, w))),
      s3_get_object = (\<lambda>b k w. (if ends_with ''locked.ddns.json'' k then Err (External ''AccessDenied'')
        else case map_of (objects w) k of
          None \<Rightarrow> Err (External ''NoSuchKey'') | Some v \<Rightarrow> Ok v, w)),
      s3_put_object = (\<lambda>b k v ct w. (Ok 200, w\<lparr>objects := AList.update k v (objects w)\<rparr>)),
      s3_delete_object = (\<lambda>b k w. (Ok 204, w\<lparr>objects := AList.delete k (objects w)\<rparr>))\<rparr>"

definition demo_fs :: "demo fs_calls" where
  "demo_fs =
     \<lparr>fs_metadata_len = (\<lambda>p w. (case map_of (files w) p of None \<Rightarrow> Inl NotFound | Some b \<Rightarrow> Inr (length b), w)),
      fs_open = (\<lambda>p w. (case map_of (files w) p of None \<Rightarrow> Inl NotFound | Some b \<Rightarrow> Inr [Chunk b], w)),
      fs_read_dir = (\<lambda>p w. (Inr (map (\<lambda>(n, b). Inr \<lparr>entry_name = drop (Suc (length p)) n, entry_is_file = Some True\<rparr>)
         (filter (\<lambda>(n, b). starts_with (p @ ''/'') n) (files w))), w))\<rparr>"

text \<open>The system calls act on the credentials of the process.\<close>

definition on_os :: "(linux \<Rightarrow> unit result \<times> linux) \<Rightarrow> demo \<Rightarrow> unit result \<times> demo" where
  "on_os f w = (case f (os w) of (r, os1) \<Rightarrow> (r, w\<lparr>os := os1\<rparr>))"

definition demo_unix :: "demo unix_calls" where
  "demo_unix =
     \<lparr>geteuid = (\<lambda>w. geteuid linux_calls (os w)),
      getuid = (\<lambda>w. getuid linux_calls (os w)),
      getgid = (\<lambda>w. getgid linux_calls (os w)),
      user_from_name = (\<lambda>n w. user_from_name linux_calls n (os w)),
      setgroups = (\<lambda>g. on_os (setgroups linux_calls g)),
      setresgid = (\<lambda>a b c. on_os (setresgid linux_calls a b c)),
      setresuid = (\<lambda>a b c. on_os (setresuid linux_calls a b c)),
      setuid = (\<lambda>i. on_os (setuid linux_calls i))\<rparr>"

interpretation demo_unix: posix_credentials demo_unix "\<lambda>w. cred (os w)"
  by unfold_locales
     (auto simp: demo_unix_def on_os_def linux_calls_def linux_may_def linux_may_gid_def eperm_def
       split: if_splits)

definition demo_creds :: "demo creds_calls" where
  "demo_creds =
     \<lparr>credentials_default = (\<lambda>w. (Err (External ''no profile''), w)),
      credentials_new = (\<lambda>k s w. (Ok \<lparr>access_key = Some k, secret_key = Some s,
         security_token = None, session_token = None\<rparr>, w))\<rparr>"

definition demo_answer :: string where
  "demo_answer = ''<ChangeInfo><Id>/change/C1</Id><Status>PENDING</Status></ChangeInfo>''"

definition demo_http :: "demo http_calls" where
  "demo_http =
     \<lparr>http_client_build = (\<lambda>w. (Ok (), w)),
      http_post = (\<lambda>u h b w. (Ok \<lparr>http_status = 200, http_status_text = ''200 OK'', http_body = Ok demo_answer\<rparr>, w\<lparr>posts := posts w @ [b]\<rparr>)),
      http_get = (\<lambda>u w. (Ok \<lparr>http_status = 200, http_status_text = ''200 OK'', http_body = Ok (own_ip w)\<rparr>, w)),
      http_clock = (\<lambda>w. (clock w, w))\<rparr>"

definition demo_env :: "(json \<times> bytes) list \<Rightarrow> (unit, unit, demo) env" where
  "demo_env tbl =
     \<lparr>e_lower = (\<lambda>s i. [s ! i]), e_hex = demo_hex, e_json = table_json tbl, e_dalek = demo_dalek,
      e_x509 = demo_x509, e_ssh = demo_ssh, e_chrono = demo_chrono, e_hash = demo_hash,
      e_header = demo_header, e_fs = demo_fs, e_unix = demo_unix, e_creds = demo_creds,
      e_s3 = demo_s3, e_http = demo_http\<rparr>"

section \<open>A client, its request and its certificate\<close>

definition demo_key :: bytes where
  "demo_key = replicate 32 CHR ''k''"

definition demo_domain :: string where
  "demo_domain = ''home.example''"

definition demo_record :: resource_record_set where
  "demo_record = \<lparr>rr_name = demo_domain, rr_ttl = 300, rr_data = A [Ipv4_Addr 192 0 2 7]\<rparr>"

text \<open>The clock of the demo world, in seconds.\<close>

definition demo_secs :: int where
  "demo_secs = 1777777777"

definition demo_payload :: "resource_record_set \<Rightarrow> int \<Rightarrow> bytes \<Rightarrow> bytes \<Rightarrow> resource_record_set signed_payload" where
  "demo_payload r secs key canonical =
     \<lparr>envelope = \<lparr>payload = r, signed_at_unix_secs = word_of_int secs\<rparr>,
      signature = Signature (check_sum key canonical)\<rparr>"

text \<open>The two JSON texts of a request: the canonical envelope and the signed payload.\<close>

definition demo_entries :: "resource_record_set \<Rightarrow> int \<Rightarrow> bytes \<Rightarrow> string \<Rightarrow> (json \<times> bytes) list" where
  "demo_entries r secs key tag =
     (let sp = demo_payload r secs key (''envelope '' @ tag) in
      [(envelope_to_json record_set_to_json (envelope sp), ''envelope '' @ tag),
       (signed_payload_to_json demo_hex record_set_to_json sp, ''request '' @ tag)])"

text \<open>
  Request 1 is what the client signs, request 2 is old, request 3 is signed with another key, and
  request 4 is dated at the end of the time that \<open>chrono\<close> can represent.
\<close>

definition demo_table :: "(json \<times> bytes) list" where
  "demo_table =
     demo_entries demo_record demo_secs demo_key ''1'' @
     demo_entries demo_record 5 demo_key ''2'' @
     [hd (tl (demo_entries demo_record (demo_secs + 1) (replicate 32 CHR ''x'') ''3''))] @
     demo_entries demo_record chrono_max_secs demo_key ''4''"

abbreviation "demo_E \<equiv> demo_env demo_table"

definition demo_linux :: linux where
  "demo_linux =
     \<lparr>cred = \<lparr>ruid = 0, euid = 0, suid = 0, rgid = 0, egid = 0, sgid = 0, groups = [0]\<rparr>,
      passwd = [\<lparr>user_name = ''dyndynser'', user_uid = 990, user_gid = 991\<rparr>]\<rparr>"

definition demo_start :: "(string \<times> bytes) list \<Rightarrow> demo sys" where
  "demo_start objs =
     \<lparr>world = \<lparr>files = [(''/keys/home.priv'', openssl_prefix_private_key @ demo_key),
                      (''/certs/home.crt'', demo_key @ demo_domain)],
               objects = objs, posts = [], own_ip = ''192.0.2.7 '',
               clock = demo_secs * 1000000000, os = demo_linux\<rparr>,
      trace = [], stdout_refuses = (\<lambda>es out. False)\<rparr>"

definition demo_client_args :: "bool \<Rightarrow> client_args" where
  "demo_client_args dry =
     \<lparr>ca_is_dry_run = dry, ca_s3_queue_bucket = ''queue'', ca_s3_ddns_json_dir = ''ddns'',
      ca_domain_to_update = ''Home.Example'', ca_ttl = None, ca_key_path = ''/keys/home.priv'',
      ca_signing_key_password = None, ca_aws_region = ''us-east-1'',
      ca_aws_access_key_id = Some ''AK'', ca_aws_secret_access_key = Some ''SK'',
      ca_ip_addr_check_url = ''https://checkip.example'', ca_drop_to_user = ''dyndynser'',
      ca_insecure_skip_verify = False\<rparr>"

lemma demo_crates:
  "hex_roundtrips (e_hex demo_E)" "json_roundtrips (e_json demo_E)" "signatures_verify (e_dalek demo_E)"
proof -
  have "distinct (map snd demo_table)" by code_simp
  then show "json_roundtrips (e_json demo_E)" by (simp add: demo_env_def table_json_roundtrips)
qed (simp_all add: demo_env_def demo_hex_roundtrips demo_signatures_verify)

end
