(* ===== verification/Client.thy ===== *)
theory Client
  imports Demo
begin

text \<open>
  \<open>src/client.rs\<close>: the client asks for its address, signs a record for its domain and puts it into
  the bucket. Log calls are left out, as everywhere.
\<close>

section \<open>The address of this machine\<close>

definition query_for_ip :: "('k, 'b, 'w) env \<Rightarrow> config_client \<Rightarrow> ('w sys, ip_addr) io" where
  "query_for_ip E conf =
     (let url = cc_ip_addr_check_url conf in
      io_bind (io_ctx ''failed to check IP address''
        (perform (Ev_Http_Get url) (http_get (e_http E) url))) (\<lambda>res.
      if http_status res \<noteq> 200 then io_lift (Err (Bail ''IP query returned non-200 status''))
      else io_bind (io_lift (ctx ''could not read IP request body bytes'' (http_body res))) (\<lambda>body.
        let s = from_utf8_lossy (trim_ascii body) in
        io_lift (ctx (''failed to convert IP address, returned '' @ s)
          (ok_or (External ''AddrParseError'') (ip_from_str s))))))"

text \<open>The service at \<open>url\<close> answers, in the world \<open>w\<close>, with the text of the address \<open>ip\<close>.\<close>

definition answered :: "'w http_calls \<Rightarrow> string \<Rightarrow> 'w \<Rightarrow> ip_addr \<Rightarrow> bool" where
  "answered N url w ip \<longleftrightarrow>
     (\<exists>resp w' body. http_get N url w = (Ok resp, w') \<and> http_status resp = 200 \<and>
        http_body resp = Ok body \<and> ip_from_str (from_utf8_lossy (trim_ascii body)) = Some ip)"

section \<open>The signing key\<close>

definition client_signing_key :: "('k, 'b, 'w) env \<Rightarrow> config_client \<Rightarrow> ('w sys, signing_key) io" where
  "client_signing_key E conf =
     (if cc_insecure_skip_verify conf then io_ret dummy_ed25519_private_key
      else
        io_bind (io_ctx ''invalid key_path''
          (read_file_limited (e_fs E) (cc_key_path conf) file_size_max_bytes)) (\<lambda>key_bytes.
        io_bind (io_ctx ''failed to drop privileges''
          (maybe_drop_privileges (e_unix E) (cc_drop_user conf))) (\<lambda>_.
        io_lift (load_ed25519_private_key (e_ssh E) (e_dalek E) key_bytes
          (cc_signing_key_password conf)))))"

section \<open>The record and its signed form\<close>

definition client_record :: "config_client \<Rightarrow> ip_addr \<Rightarrow> resource_record_set" where
  "client_record conf ip =
     \<lparr>rr_name = domain_inner (cc_domain conf),
      rr_ttl = (case cc_ttl conf of None \<Rightarrow> 300 | Some d \<Rightarrow> ucast (as_secs d)),
      rr_data = (case ip of V4 a \<Rightarrow> A [a] | V6 a \<Rightarrow> AAAA [a])\<rparr>"

definition sign_record ::
  "('k, 'b, 'w) env \<Rightarrow> resource_record_set \<Rightarrow> signing_key \<Rightarrow> ('w sys, bytes) io" where
  "sign_record E r sk =
     io_bind (utc_now E) (\<lambda>now.
     io_lift (sign (e_hex E) (e_json E) (e_dalek E) record_set_to_json (timestamp now)
       (signable_envelope_new r) sk))"

definition ddns_json_path :: "config_client \<Rightarrow> resource_record_set \<Rightarrow> string" where
  "ddns_json_path conf r = cc_s3_ddns_json_directory conf @ ''/'' @ make_filename r"

section \<open>The upload\<close>

definition client_upload ::
  "('k, 'b, 'w) env \<Rightarrow> config_client \<Rightarrow> resource_record_set \<Rightarrow> bytes \<Rightarrow> ('w sys, unit) io" where
  "client_upload E conf r signed_json_bytes =
     (let path = ddns_json_path conf r in
      io_bind (io_lift (ctx ''invalid AWS region found during S3 write''
        (ok_or (External ''region'') (parse_region (e_s3 E) (region (cc_aws_config conf)))))) (\<lambda>rg.
      io_bind (get_s3_credentials (e_creds E) (cc_aws_config conf)) (\<lambda>credentials.
      io_bind (io_lift (ok_or (External ''s3'')
        (bucket_new (e_s3 E) (cc_s3_queue_bucket conf) rg credentials))) (\<lambda>bucket.
      io_bind (io_ctx ''failed to put S3 object''
        (perform (Ev_Put_Object path signed_json_bytes)
          (s3_put_object (e_s3 E) bucket path signed_json_bytes ''application/json''))) (\<lambda>status.
      if status \<noteq> 200 then io_lift (Err (Bail ''s3 returned non-200''))
      else print (Line (''Successfully wrote domain request for '' @ quoted (rr_name r) @
             '' to s3 bucket.'' @ nl @ ''File key: '' @ path)))))))"

definition client_dry_run :: "config_client \<Rightarrow> resource_record_set \<Rightarrow> bytes \<Rightarrow> ('w sys, unit) io" where
  "client_dry_run conf r signed_json_bytes =
     print (Line (''Will write to: s3://'' @ cc_s3_queue_bucket conf @ ddns_json_path conf r @ nl @
       ''JSON:'' @ nl @ from_utf8_lossy signed_json_bytes))"

definition handle_client :: "('k, 'b, 'w) env \<Rightarrow> client_args \<Rightarrow> ('w sys, unit) io" where
  "handle_client E a =
     io_bind (io_lift (ctx ''failed to parse Client config'' (config_client_parse (e_lower E) a))) (\<lambda>conf.
     io_bind (client_signing_key E conf) (\<lambda>sk.
     io_bind (io_ctx ''failed to get IP address of this machine'' (query_for_ip E conf)) (\<lambda>ip.
     io_bind (io_ctx ''Failed to sign payload object'' (sign_record E (client_record conf ip) sk)) (\<lambda>bs.
       if cc_is_dry_run conf then client_dry_run conf (client_record conf ip) bs
       else client_upload E conf (client_record conf ip) bs))))"

section \<open>Which events, in which order\<close>

lemmas client_defs = query_for_ip_def client_signing_key_def sign_record_def client_upload_def
  client_dry_run_def handle_client_def Let_def

lemma emits_query_for_ip [emits_intros]:
  "(\<And>e. is_http_get e \<Longrightarrow> P e) \<Longrightarrow> emits P (query_for_ip E conf)"
  unfolding query_for_ip_def Let_def by (intro emits_intros) simp

lemma emits_sign_record [emits_intros]: "emits P (sign_record E r sk)"
  unfolding sign_record_def by (intro emits_intros)

lemma emits_client_dry_run [emits_intros]:
  "(\<And>e. is_print e \<Longrightarrow> P e) \<Longrightarrow> emits P (client_dry_run conf r bs)"
  unfolding client_dry_run_def by (intro emits_intros) simp

lemma phased_client_signing_key:
  "phased [is_file_call, is_privilege_call] (client_signing_key E conf)"
proof (cases "cc_insecure_skip_verify conf")
  case True
  then have "emits is_file_call (client_signing_key E conf)"
    by (simp add: client_signing_key_def emits_ret)
  from phased_subseq [OF phased_one [OF this]] show ?thesis by simp
next
  case False
  have "phased ([is_file_call] @ [is_privilege_call]) (client_signing_key E conf)"
    unfolding client_signing_key_def if_not_P [OF False]
    by (intro phased_bind phased_one emits_intros)
  then show ?thesis by simp
qed

lemma phased_client_upload: "phased [is_s3_put, is_print] (client_upload E conf r bs)"
proof -
  have answer: "phased [is_s3_put, is_print] (if status \<noteq> 200 then io_lift (Err e) else print v)"
    for status :: nat and e v
    by (rule phased_subseq [of "[is_print]"], rule phased_one, intro emits_intros) simp_all
  show ?thesis
    unfolding client_upload_def Let_def
    by (intro phased_first emits_intros answer) simp_all
qed

text \<open>The phases of a run, by the phases of its stages.\<close>

lemma phased_handle_client:
  "phased [is_file_call, is_privilege_call, is_http_get, is_s3_put, is_print] (handle_client E a)"
proof -
  let ?P = "[is_file_call, is_privilege_call]"
  let ?Q = "[is_http_get, is_s3_put, is_print]"
  have output_step: "phased ?Q (if cc_is_dry_run conf then client_dry_run conf r bs else client_upload E conf r bs)"
    for conf r bs
    by (auto intro!: phased_later phased_client_upload phased_one emits_client_dry_run)
  have rest: "phased ?Q
      (io_bind (io_ctx c (query_for_ip E conf)) (\<lambda>ip.
       io_bind (io_ctx d (sign_record E (client_record conf ip) sk)) (\<lambda>bs.
         if cc_is_dry_run conf then client_dry_run conf (client_record conf ip) bs
         else client_upload E conf (client_record conf ip) bs)))" for conf sk c d
    by (intro phased_first emits_intros output_step) simp_all
  have "phased (?P @ ?Q) (handle_client E a)"
  proof -
    have keyed: "phased (?P @ ?Q) (io_bind (client_signing_key E conf) (\<lambda>sk.
       io_bind (io_ctx ''failed to get IP address of this machine'' (query_for_ip E conf)) (\<lambda>ip.
       io_bind (io_ctx ''Failed to sign payload object'' (sign_record E (client_record conf ip) sk)) (\<lambda>bs.
         if cc_is_dry_run conf then client_dry_run conf (client_record conf ip) bs
         else client_upload E conf (client_record conf ip) bs))))" for conf
      by (rule phased_bind [OF phased_client_signing_key rest])
    show ?thesis
      unfolding handle_client_def append_Cons
      by (rule phased_first [OF emits_lift]) (use keyed in simp)
  qed
  then show ?thesis by simp
qed

text \<open>
  C27: a run of the client is at most: reading the key file, dropping privileges, asking for the
  address, one upload phase, output, in this order. So nothing is fetched or sent before the key was
  read and the privileges were dropped, and no file is read afterwards.
\<close>

theorem client_phases:
  "phased [is_file_call, is_privilege_call, is_http_get, is_s3_put, is_print] (handle_client E a)"
  by (rule phased_handle_client)

lemma client_reads_mutate_nothing:
  "is_file_call e \<or> is_privilege_call e \<or> is_http_get e \<or> is_print e \<Longrightarrow> \<not> mutates e"
  by (cases e) (simp_all add: mutates_def is_file_call_def is_privilege_call_def)

lemma emits_client_signing_key [emits_intros]: "emits (\<lambda>e. \<not> mutates e) (client_signing_key E conf)"
  unfolding client_signing_key_def
  by (intro emits_intros client_reads_mutate_nothing) simp_all

text \<open>C28: a dry run of the client changes neither the bucket nor the DNS.\<close>

theorem client_dry_run_mutates_nothing:
  assumes "ca_is_dry_run a"
  shows "emits (\<lambda>e. \<not> mutates e) (handle_client E a)"
proof -
  have "cc_is_dry_run conf" if "ctx c (config_client_parse (e_lower E) a) = Ok conf" for c conf
    using that assms by (auto simp: config_client_parse_def ok_iff)
  then show ?thesis
    unfolding handle_client_def
    by (intro emits_bind_returned [of _ "io_lift _"] emits_intros) (auto intro!: emits_intros client_reads_mutate_nothing)
qed

text \<open>An HTTP client that reports failures as errors.\<close>

definition http_get_panic_free :: "'w http_calls \<Rightarrow> bool" where
  "http_get_panic_free N \<longleftrightarrow>
     (\<forall>url w p. fst (http_get N url w) \<noteq> Panic p) \<and>
     (\<forall>url w resp w' p. http_get N url w = (Ok resp, w') \<longrightarrow> http_body resp \<noteq> Panic p)"

text \<open>With such a client, the query returns what the service answered, or fails where it answered none.\<close>

lemma query_for_ip_Ok_iff:
  "query_for_ip E conf s = (Ok ip, t) \<longleftrightarrow>
     answered (e_http E) (cc_ip_addr_check_url conf) (world s) ip \<and>
     t = s\<lparr>world := snd (http_get (e_http E) (cc_ip_addr_check_url conf) (world s)),
           trace := trace s @ [Ev_Http_Get (cc_ip_addr_check_url conf)]\<rparr>"
  by (auto simp: query_for_ip_def Let_def answered_def ok_iff split: if_splits)

lemma query_for_ip_not_Panic:
  assumes "http_get_panic_free (e_http E)"
  shows "query_for_ip E conf s \<noteq> (Panic p, t)"
proof -
  let ?get = "perform (Ev_Http_Get (cc_ip_addr_check_url conf))
    (http_get (e_http E) (cc_ip_addr_check_url conf))"
  have "panic_free ?get" using assms by (intro panic_free_perform) (simp add: http_get_panic_free_def)
  moreover have "http_body resp \<noteq> Panic p" if "may_return ?get resp" for resp p
    using that assms unfolding may_return_def perform_Ok_iff http_get_panic_free_def by blast
  ultimately have "panic_free (query_for_ip E conf)"
    unfolding query_for_ip_def Let_def
    using assms by (intro panic_free_intros) (auto simp: ctx_Panic_iff http_get_panic_free_def)
  then show ?thesis by (rule panic_freeD)
qed

section \<open>What the client uploads\<close>

lemma client_upload_Ok:
  "client_upload E conf r bs s = (Ok (), t) \<Longrightarrow>
     \<exists>out. trace t = trace s @ [Ev_Put_Object (ddns_json_path conf r) bs, Ev_Print out]"
  by (auto simp: client_upload_def Let_def ok_iff get_s3_credentials_def quietly_def print_def
      split: if_splits option.splits prod.splits)

lemma config_client_parse_Ok:
  "config_client_parse lower a = Ok conf \<Longrightarrow>
     parse_domain lower (ca_domain_to_update a) = Ok (cc_domain conf) \<and>
     cc_s3_ddns_json_directory conf = ca_s3_ddns_json_dir a \<and> cc_is_dry_run conf = ca_is_dry_run a \<and>
     cc_ttl conf = map_option (\<lambda>n. duration_from_secs (ucast n)) (ca_ttl a) \<and>
     cc_ip_addr_check_url conf = ca_ip_addr_check_url a"
  by (auto simp: config_client_parse_def ok_iff)

lemma u32_through_u64: "ucast (ucast (n :: u32) :: 64 word) = n"
  by transfer simp

text \<open>
  C29: the time to live that is signed is the one asked for, or 300 seconds: the conversion of the
  argument to a duration and back to 32 bits loses nothing.
\<close>

theorem client_record_ttl:
  assumes "config_client_parse lower a = Ok conf"
  shows "rr_ttl (client_record conf ip) = (case ca_ttl a of None \<Rightarrow> 300 | Some n \<Rightarrow> n)"
  using config_client_parse_Ok [OF assms]
  by (auto simp: client_record_def duration_from_secs_def as_secs_def u32_through_u64 split: option.splits)

text \<open>The record the client makes, from its arguments.\<close>

lemma client_record_of_args:
  assumes "config_client_parse lower a = Ok conf"
  shows "client_record conf ip =
    \<lparr>rr_name = domain_inner (cc_domain conf), rr_ttl = (case ca_ttl a of None \<Rightarrow> 300 | Some n \<Rightarrow> n),
     rr_data = (case ip of V4 x \<Rightarrow> A [x] | V6 x \<Rightarrow> AAAA [x])\<rparr>"
  using config_client_parse_Ok [OF assms]
  by (auto simp: client_record_def duration_from_secs_def as_secs_def u32_through_u64 split: option.splits)

text \<open>The stages of a run that returned, with the values they handed on.\<close>

lemma handle_client_stages:
  assumes "handle_client E a s = (Ok (), t)"
  obtains conf sk ip bs u v w where "config_client_parse (e_lower E) a = Ok conf"
    and "client_signing_key E conf s = (Ok sk, u)" and "query_for_ip E conf u = (Ok ip, v)"
    and "sign_record E (client_record conf ip) sk v = (Ok bs, w)"
    and "(if cc_is_dry_run conf then client_dry_run conf (client_record conf ip) bs
          else client_upload E conf (client_record conf ip) bs) w = (Ok (), t)"
  using assms by (auto simp: handle_client_def ok_iff simp del: if_split)

lemma sign_record_verifies:
  assumes libs: "hex_roundtrips (e_hex E)" "json_roundtrips (e_json E)" "signatures_verify (e_dalek E)"
    and "sign_record E r sk s = (Ok bs, t)"
  shows "\<exists>sp m. signed_payload_from_slice (e_hex E) (e_json E) record_set_of_json bs = Ok sp \<and>
    payload (envelope sp) = r \<and> signed_bytes (e_json E) record_set_to_json (envelope sp) = Some m \<and>
    verify_strict (e_dalek E) (verifying_key_of (e_dalek E) sk) m (signature_inner (signature sp))"
proof -
  from assms(4) obtain now where
    signed: "sign (e_hex E) (e_json E) (e_dalek E) record_set_to_json now (signable_envelope_new r) sk = Ok bs"
    by (auto simp: sign_record_def ok_iff)
  have codec: "record_set_of_json (record_set_to_json (payload (signable_envelope_new r))) =
      Some (payload (signable_envelope_new r))" by (rule record_set_of_json_to)
  from sign_then_read [where dec = record_set_of_json and enc = record_set_to_json
      and e = "signable_envelope_new r", OF libs codec signed] obtain sp m where
    "signed_payload_from_slice (e_hex E) (e_json E) record_set_of_json bs = Ok sp"
    "envelope sp = (signable_envelope_new r)\<lparr>signed_at_unix_secs := now\<rparr>"
    "signed_bytes (e_json E) record_set_to_json (envelope sp) = Some m"
    "verify_strict (e_dalek E) (verifying_key_of (e_dalek E) sk) m (signature_inner (signature sp))"
    by blast
  then show ?thesis by (auto simp: signable_envelope_new_def)
qed

text \<open>What a run that wrote to the bucket has put there.\<close>

lemma client_run_uploads:
  assumes libs: "hex_roundtrips (e_hex E)" "json_roundtrips (e_json E)" "signatures_verify (e_dalek E)"
    and run: "handle_client E a s = (Ok (), t)" and wet: "\<not> ca_is_dry_run a"
  shows "\<exists>conf sk u ip sp m bs before out.
    config_client_parse (e_lower E) a = Ok conf \<and> client_signing_key E conf s = (Ok sk, u) \<and>
    answered (e_http E) (ca_ip_addr_check_url a) (world u) ip \<and>
    trace t = trace s @ before @
      [Ev_Put_Object (ca_s3_ddns_json_dir a @ ''/'' @ domain_inner (cc_domain conf) @ ''.ddns.json'') bs,
       Ev_Print out] \<and>
    list_all (\<lambda>e. \<not> mutates e) before \<and>
    signed_payload_from_slice (e_hex E) (e_json E) record_set_of_json bs = Ok sp \<and>
    payload (envelope sp) =
      \<lparr>rr_name = domain_inner (cc_domain conf), rr_ttl = (case ca_ttl a of None \<Rightarrow> 300 | Some n \<Rightarrow> n),
       rr_data = (case ip of V4 x \<Rightarrow> A [x] | V6 x \<Rightarrow> AAAA [x])\<rparr> \<and>
    signed_bytes (e_json E) record_set_to_json (envelope sp) = Some m \<and>
    verify_strict (e_dalek E) (verifying_key_of (e_dalek E) sk) m (signature_inner (signature sp))"
proof -
  obtain conf sk ip bs u v w
    where stages: "config_client_parse (e_lower E) a = Ok conf"
      "client_signing_key E conf s = (Ok sk, u)" "query_for_ip E conf u = (Ok ip, v)"
      "sign_record E (client_record conf ip) sk v = (Ok bs, w)"
    and last: "(if cc_is_dry_run conf then client_dry_run conf (client_record conf ip) bs
          else client_upload E conf (client_record conf ip) bs) w = (Ok (), t)"
    by (rule handle_client_stages [OF run])
  note conf = config_client_parse_Ok [OF stages(1)]
  have "\<not> cc_is_dry_run conf" using conf wet by simp
  with last have "client_upload E conf (client_record conf ip) bs w = (Ok (), t)" by (simp only: if_False)
  from client_upload_Ok [OF this] obtain out where put: "trace t = trace w @
      [Ev_Put_Object (ddns_json_path conf (client_record conf ip)) bs, Ev_Print out]" ..
  from emitsD [OF emits_client_signing_key stages(2)] obtain b1
    where b1: "trace u = trace s @ b1" "list_all (\<lambda>e. \<not> mutates e) b1" by blast
  have "emits (\<lambda>e. \<not> mutates e) (query_for_ip E conf)"
    by (intro emits_query_for_ip client_reads_mutate_nothing) simp
  from emitsD [OF this stages(3)] obtain b2
    where b2: "trace v = trace u @ b2" "list_all (\<lambda>e. \<not> mutates e) b2" by blast
  from emitsD [OF emits_sign_record stages(4), of "\<lambda>e. False"] have b3: "trace w = trace v"
    by (auto simp: list_all_iff)
  from sign_record_verifies [OF libs stages(4)] obtain sp m where
    "signed_payload_from_slice (e_hex E) (e_json E) record_set_of_json bs = Ok sp \<and>
     payload (envelope sp) = client_record conf ip \<and>
     signed_bytes (e_json E) record_set_to_json (envelope sp) = Some m \<and>
     verify_strict (e_dalek E) (verifying_key_of (e_dalek E) sk) m (signature_inner (signature sp))"
    by blast
  moreover have "ddns_json_path conf (client_record conf ip) =
      ca_s3_ddns_json_dir a @ ''/'' @ domain_inner (cc_domain conf) @ ''.ddns.json''"
    using conf by (simp add: ddns_json_path_def make_filename_def client_record_def ddns_json_file_ext_def)
  moreover have "answered (e_http E) (ca_ip_addr_check_url a) (world u) ip"
    using stages(3) conf by (simp add: query_for_ip_Ok_iff)
  moreover have "trace t = trace s @ (b1 @ b2) @
      [Ev_Put_Object (ddns_json_path conf (client_record conf ip)) bs, Ev_Print out]"
    using put b1 b2 b3 by simp
  ultimately show ?thesis using stages(1,2) b1(2) b2(2) client_record_of_args [OF stages(1), of ip]
    by (intro exI [of _ conf] exI [of _ sk] exI [of _ u] exI [of _ ip] exI [of _ sp] exI [of _ m]
      exI [of _ bs] exI [of _ "b1 @ b2"] exI [of _ out]) simp
qed

text \<open>
  C4: a run of the client that succeeds and is not a dry run puts exactly one object into the bucket,
  named after the domain under the configured directory. What it puts is a request that the server
  reads back as the record of the parsed domain with the time to live of the arguments, or 300, and,
  as the one address, the one that the address service answered after the key was loaded; with a
  signature that verifies under the public half of this key.
\<close>

theorem client_uploads_verifiable_request:
  assumes libs: "hex_roundtrips (e_hex E)" "json_roundtrips (e_json E)" "signatures_verify (e_dalek E)"
    and run: "handle_client E a s = (Ok (), t)" and wet: "\<not> ca_is_dry_run a"
  shows "\<exists>conf sk u ip sp m bs before out.
    config_client_parse (e_lower E) a = Ok conf \<and> client_signing_key E conf s = (Ok sk, u) \<and>
    answered (e_http E) (ca_ip_addr_check_url a) (world u) ip \<and>
    trace t = trace s @ before @
      [Ev_Put_Object (ca_s3_ddns_json_dir a @ ''/'' @ domain_inner (cc_domain conf) @ ''.ddns.json'') bs,
       Ev_Print out] \<and>
    list_all (\<lambda>e. \<not> mutates e) before \<and>
    signed_payload_from_slice (e_hex E) (e_json E) record_set_of_json bs = Ok sp \<and>
    payload (envelope sp) =
      \<lparr>rr_name = domain_inner (cc_domain conf), rr_ttl = (case ca_ttl a of None \<Rightarrow> 300 | Some n \<Rightarrow> n),
       rr_data = (case ip of V4 x \<Rightarrow> A [x] | V6 x \<Rightarrow> AAAA [x])\<rparr> \<and>
    signed_bytes (e_json E) record_set_to_json (envelope sp) = Some m \<and>
    verify_strict (e_dalek E) (verifying_key_of (e_dalek E) sk) m (signature_inner (signature sp))"
  by (rule client_run_uploads [OF libs run wet])

section \<open>A concrete run\<close>

lemma demo_client_runs:
  "is_ok (config_client_parse (e_lower demo_E) (demo_client_args False))"
  "fst (handle_client demo_E (demo_client_args False) (demo_start [])) = Ok ()"
  by code_simp+

lemma client_record_ttl_witness:
  "\<exists>conf. config_client_parse (e_lower demo_E) (demo_client_args False) = Ok conf \<and>
     rr_ttl (client_record conf (V4 (Ipv4_Addr 192 0 2 7))) = 300"
proof -
  from demo_client_runs(1) obtain conf
    where conf: "config_client_parse (e_lower demo_E) (demo_client_args False) = Ok conf"
    by (auto simp: is_ok_iff)
  from client_record_ttl [OF conf, of "V4 (Ipv4_Addr 192 0 2 7)"] conf show ?thesis
    by (simp add: demo_client_args_def)
qed

lemma client_dry_run_witness:
  "emits (\<lambda>e. \<not> mutates e) (handle_client demo_E (demo_client_args True))"
  by (rule client_dry_run_mutates_nothing) (simp add: demo_client_args_def)

lemma client_uploads_witness:
  "\<exists>t bs pre out. handle_client demo_E (demo_client_args False) (demo_start []) = (Ok (), t) \<and>
     trace t = pre @ [Ev_Put_Object ''ddns/home.example.ddns.json'' bs, Ev_Print out]"
proof -
  obtain t where run: "handle_client demo_E (demo_client_args False) (demo_start []) = (Ok (), t)"
    using demo_client_runs(2) by (metis prod.collapse)
  have wet: "\<not> ca_is_dry_run (demo_client_args False)" by (simp add: demo_client_args_def)
  have name: "config_client_parse (e_lower demo_E) (demo_client_args False) = Ok conf \<Longrightarrow>
      ca_s3_ddns_json_dir (demo_client_args False) @ ''/'' @ domain_inner (cc_domain conf) @ ''.ddns.json'' =
      ''ddns/home.example.ddns.json''" for conf
  proof -
    assume "config_client_parse (e_lower demo_E) (demo_client_args False) = Ok conf"
    then have "parse_domain (e_lower demo_E) (ca_domain_to_update (demo_client_args False)) = Ok (cc_domain conf)"
      by (rule config_client_parse_Ok [THEN conjunct1])
    moreover have "parse_domain (e_lower demo_E) (ca_domain_to_update (demo_client_args False)) =
        Ok (Domain_Name ''home.example'')" by code_simp
    ultimately show ?thesis by (auto simp: demo_client_args_def)
  qed
  have start: "trace (demo_start []) = []" by (simp add: demo_start_def)
  from client_uploads_verifiable_request [OF demo_crates run wet] name start run show ?thesis
    by (auto simp del: append_assoc)
qed

lemma demo_http_panic_free: "http_get_panic_free (e_http demo_E)"
  by (simp add: http_get_panic_free_def demo_env_def demo_http_def)

end
