(* ===== verification/Ip_Cmd.thy ===== *)
theory Ip_Cmd
  imports Client
begin

text \<open>\<open>src/ip.rs\<close>: the subcommand that prints the public address.\<close>

text \<open>\<open>Result::unwrap\<close>.\<close>

fun unwrap :: "'a result \<Rightarrow> 'a result" where
  "unwrap (Ok x) = Ok x"
| "unwrap (Err e) = Panic ''called `Result::unwrap()` on an `Err` value''"
| "unwrap (Panic p) = Panic p"

definition dummy_config :: "ip_config \<Rightarrow> domain_name \<Rightarrow> config_client" where
  "dummy_config conf dn =
     \<lparr>cc_s3_queue_bucket = '''', cc_s3_ddns_json_directory = '''', cc_domain = dn,
      cc_ip_addr_check_url = ic_ip_addr_check_url conf, cc_ttl = None, cc_key_path = '''',
      cc_signing_key_password = None, cc_is_dry_run = False,
      cc_aws_config = \<lparr>region = '''', access_key_id = None, secret_access_key = None\<rparr>,
      cc_drop_user = '''', cc_insecure_skip_verify = False\<rparr>"

definition wrong_family :: "string \<Rightarrow> ('w sys, unit) io" where
  "wrong_family shown_ip =
     io_lift (Err (Bail (''returned IP address was ipv4, but force-ipv6 was set: '' @ shown_ip)))"

definition show_ip :: "ip_config \<Rightarrow> ip_addr \<Rightarrow> ('w sys, unit) io" where
  "show_ip conf ip =
     (case ip of
        V4 a \<Rightarrow> if ic_force_ipv6 conf then wrong_family (ipv4_display a)
                else print (Line (ipv4_display a))
      | V6 a \<Rightarrow> if ic_force_ipv4 conf then wrong_family (ipv6_display a)
                else print (Line (ipv6_display a)))"

definition handle_ip :: "('k, 'b, 'w) env \<Rightarrow> ip_args \<Rightarrow> ('w sys, unit) io" where
  "handle_ip E a =
     io_bind (io_lift (ctx ''failed to parse IP config'' (ip_config_parse a))) (\<lambda>conf.
       if ic_is_public conf then
         io_bind (io_lift (unwrap (parse_domain (e_lower E) ''sample.arpa''))) (\<lambda>dn.
         io_bind (io_ctx ''failed to get IP address'' (query_for_ip E (dummy_config conf dn)))
           (show_ip conf))
       else io_ret ())"

section \<open>Facts\<close>

text \<open>The placeholder domain is valid, whatever the lower case of other scripts.\<close>

lemma sample_domain: "parse_domain lower ''sample.arpa'' = Ok (Domain_Name ''sample.arpa'')"
proof -
  have "parse_domain (\<lambda>s i. []) ''sample.arpa'' = Ok (Domain_Name ''sample.arpa'')" by code_simp
  moreover have "to_lowercase lower (trim ''sample.arpa'') = to_lowercase (\<lambda>s i. []) (trim ''sample.arpa'')"
  proof -
    have ascii: "list_all (\<lambda>c. byte c < 128) (trim ''sample.arpa'')" by code_simp
    show ?thesis by (simp only: to_lowercase_ascii [OF ascii])
  qed
  ultimately show ?thesis by (simp add: parse_domain_def)
qed

definition right_family :: "ip_args \<Rightarrow> ip_addr \<Rightarrow> bool" where
  "right_family a ip \<longleftrightarrow>
     (case ip of V4 _ \<Rightarrow> \<not> ia_force_ipv6 a | V6 _ \<Rightarrow> \<not> ia_force_ipv4 a)"

lemma query_for_ip_trace:
  "query_for_ip E conf s = (r, t) \<Longrightarrow> trace t = trace s @ [Ev_Http_Get (cc_ip_addr_check_url conf)]"
  by (auto simp: query_for_ip_def Let_def io_bind_def io_ctx_def perform_def
      split: prod.splits result.splits if_splits)

lemma show_ip_Ok:
  "show_ip conf ip s = (Ok (), t) \<longleftrightarrow>
     (case ip of V4 _ \<Rightarrow> \<not> ic_force_ipv6 conf | V6 _ \<Rightarrow> \<not> ic_force_ipv4 conf) \<and>
     \<not> stdout_refuses s (trace s) (Line (ip_display ip)) \<and>
     t = s\<lparr>trace := trace s @ [Ev_Print (Line (ip_display ip))]\<rparr>"
  by (cases ip) (auto simp: show_ip_def wrong_family_def print_def)

lemma show_ip_panics:
  "fst (show_ip conf ip s) = Panic p \<longleftrightarrow> p = stdout_failed \<and>
     (case ip of V4 _ \<Rightarrow> \<not> ic_force_ipv6 conf | V6 _ \<Rightarrow> \<not> ic_force_ipv4 conf) \<and>
     stdout_refuses s (trace s) (Line (ip_display ip))"
  by (cases ip) (auto simp: show_ip_def wrong_family_def print_def)

text \<open>
  C30: when the command succeeds and an address was asked for, it asked the service once and printed
  one line, which is the text of the address that the service answered; this is of a permitted family,
  and the line reads back as it.
\<close>

theorem handle_ip_prints_permitted_address:
  assumes run: "handle_ip E a s = (Ok (), t)" and asked: "ia_get_public a"
  shows "\<exists>ip. answered (e_http E) (ia_ip_addr_check_url a) (world s) ip \<and> right_family a ip \<and>
    ip_from_str (ip_display ip) = Some ip \<and>
    trace t = trace s @ [Ev_Http_Get (ia_ip_addr_check_url a), Ev_Print (Line (ip_display ip))]"
proof -
  from run obtain conf where conf: "ip_config_parse a = Ok conf"
    by (auto simp: handle_ip_def ok_iff)
  then have ic: "ic_is_public conf = ia_get_public a" "ic_force_ipv4 conf = ia_force_ipv4 a"
    "ic_force_ipv6 conf = ia_force_ipv6 a" "ic_ip_addr_check_url conf = ia_ip_addr_check_url a"
    by (auto simp: ip_config_parse_def split: if_splits)
  let ?d = "dummy_config conf (Domain_Name ''sample.arpa'')"
  from run conf asked ic obtain ip u where q: "query_for_ip E ?d s = (Ok ip, u)"
    and p: "show_ip conf ip u = (Ok (), t)"
    by (auto simp: handle_ip_def sample_domain ok_iff)
  from q ic have "answered (e_http E) (ia_ip_addr_check_url a) (world s) ip"
    by (simp add: query_for_ip_Ok_iff dummy_config_def)
  moreover from query_for_ip_trace [OF q] p ic have "right_family a ip"
    "trace t = trace s @ [Ev_Http_Get (ia_ip_addr_check_url a), Ev_Print (Line (ip_display ip))]"
    by (auto simp: show_ip_Ok right_family_def dummy_config_def split: ip_addr.splits)
  ultimately show ?thesis using ip_from_str_display by blast
qed

text \<open>
  C31: the command panics in exactly one case, if the HTTP client does not panic: when an address was
  asked for, the service answered one of a permitted family, and the standard output refuses its line.
  So it never panics on an answer of the service, nor on the domain it unwraps.
\<close>

theorem handle_ip_panics_iff:
  assumes "http_get_panic_free (e_http E)"
  shows "fst (handle_ip E a s) = Panic p \<longleftrightarrow>
    p = stdout_failed \<and> ia_get_public a \<and>
    (\<exists>ip. answered (e_http E) (ia_ip_addr_check_url a) (world s) ip \<and> right_family a ip \<and>
       stdout_refuses s (trace s @ [Ev_Http_Get (ia_ip_addr_check_url a)]) (Line (ip_display ip)))"
proof (cases "ia_get_public a \<and> \<not> (ia_force_ipv4 a \<and> ia_force_ipv6 a)")
  case True
  let ?conf = "\<lparr>ic_ip_addr_check_url = ia_ip_addr_check_url a, ic_is_public = True,
    ic_force_ipv4 = ia_force_ipv4 a, ic_force_ipv6 = ia_force_ipv6 a\<rparr>"
  let ?d = "dummy_config ?conf (Domain_Name ''sample.arpa'')"
  have url: "cc_ip_addr_check_url ?d = ia_ip_addr_check_url a" by (simp add: dummy_config_def)
  from True have run: "handle_ip E a s =
      io_bind (io_ctx ''failed to get IP address'' (query_for_ip E ?d)) (show_ip ?conf) s"
    by (auto simp: handle_ip_def ip_config_parse_def sample_domain io_bind_def)
  obtain r u where q: "query_for_ip E ?d s = (r, u)" by (cases "query_for_ip E ?d s")
  show ?thesis
  proof (cases r)
    case (Ok ip)
    with q have ans: "answered (e_http E) (ia_ip_addr_check_url a) (world s) ip"
      and u: "stdout_refuses u = stdout_refuses s" "trace u = trace s @ [Ev_Http_Get (ia_ip_addr_check_url a)]"
      by (simp_all add: query_for_ip_Ok_iff url)
    have "answered (e_http E) (ia_ip_addr_check_url a) (world s) ip' \<longleftrightarrow> ip' = ip" for ip'
      using ans by (auto simp: answered_def)
    then show ?thesis using True
      by (cases ip) (simp_all add: run io_bind_def io_ctx_def q Ok show_ip_panics u right_family_def)
  next
    case (Err e)
    have "\<not> answered (e_http E) (ia_ip_addr_check_url a) (world s) ip" for ip
    proof
      assume "answered (e_http E) (ia_ip_addr_check_url a) (world s) ip"
      then have "\<exists>t. query_for_ip E ?d s = (Ok ip, t)" unfolding query_for_ip_Ok_iff url by blast
      with q Err show False by simp
    qed
    with True show ?thesis by (simp add: run io_bind_def io_ctx_def q Err)
  next
    case (Panic m)
    with q query_for_ip_not_Panic [OF assms] show ?thesis by blast
  qed
next
  case False
  then show ?thesis
    by (auto simp: handle_ip_def ip_config_parse_def io_bind_def right_family_def split: ip_addr.splits)
qed

definition demo_ip_args :: "bool \<Rightarrow> ip_args" where
  "demo_ip_args v6 =
     \<lparr>ia_ip_addr_check_url = ''https://checkip.example'', ia_get_public = True,
      ia_force_ipv4 = (\<not> v6), ia_force_ipv6 = v6\<rparr>"

text \<open>With a closed standard output the command panics where an address of the right family came.\<close>

abbreviation "closed_start \<equiv> (demo_start [])\<lparr>stdout_refuses := (\<lambda>es out. True)\<rparr>"

lemma handle_ip_panics_witness:
  "fst (handle_ip demo_E (demo_ip_args False) closed_start) = Panic stdout_failed \<and>
   fst (handle_ip demo_E (demo_ip_args True) closed_start) \<noteq> Panic stdout_failed"
proof -
  have ip: "answered (e_http demo_E) url (world closed_start) ip \<longleftrightarrow> ip = V4 (Ipv4_Addr 192 0 2 7)" for url ip
  proof -
    have "ip_from_str (from_utf8_lossy (trim_ascii ''192.0.2.7 '')) = Some (V4 (Ipv4_Addr 192 0 2 7))" by code_simp
    then show ?thesis by (auto simp: answered_def demo_env_def demo_http_def demo_start_def)
  qed
  show ?thesis
    unfolding handle_ip_panics_iff [OF demo_http_panic_free] ip
    by (simp add: demo_ip_args_def right_family_def)
qed

lemma handle_ip_witness:
  "\<exists>ip t. right_family (demo_ip_args False) ip \<and>
     handle_ip demo_E (demo_ip_args False) (demo_start []) = (Ok (), t) \<and>
     trace t = [Ev_Http_Get ''https://checkip.example'', Ev_Print (Line (ip_display ip))]"
proof -
  have "fst (handle_ip demo_E (demo_ip_args False) (demo_start [])) = Ok ()" by code_simp
  then obtain t where run: "handle_ip demo_E (demo_ip_args False) (demo_start []) = (Ok (), t)"
    by (metis prod.collapse)
  have "ia_get_public (demo_ip_args False)" by (simp add: demo_ip_args_def)
  from handle_ip_prints_permitted_address [OF run this] run show ?thesis
    by (auto simp: demo_start_def demo_ip_args_def)
qed

text \<open>
  An address of the wrong family is refused, and in both cases with the same text: the message
  for an IPv6 address says that it was an IPv4 address and that \<open>force-ipv6\<close> was set.
\<close>

lemma wrong_family_message:
  "ic_force_ipv4 conf \<Longrightarrow>
     show_ip conf (V6 a) s =
       (Err (Bail (''returned IP address was ipv4, but force-ipv6 was set: '' @ ipv6_display a)), s)"
  by (simp add: show_ip_def wrong_family_def)

end
