(* ===== verification/Server_Check.thy ===== *)
theory Server_Check
  imports Demo
begin

text \<open>
  \<open>src/server.rs\<close>, the pure part and the checks: the errors a run collects, the validation of one
  request and of all of them, and the changes made of the requests that passed.
\<close>

section \<open>Types\<close>

datatype s3_key = S3_Key string

fun key_text :: "s3_key \<Rightarrow> string" where
  "key_text (S3_Key k) = k"

record unverified_request =
  ur_signed_payload :: "resource_record_set signed_payload"
  ur_s3_key :: s3_key

record verified_request =
  vr_resource_record :: resource_record_set
  vr_s3_key :: s3_key

text \<open>\<open>ServerErrors\<close>.\<close>

record server_errors =
  failed_s3_fetches :: "(s3_key \<times> error) list"
  failed_json_parses :: "(s3_key \<times> error) list"
  failed_key_parses :: "(string \<times> error) list"
  failed_signature_checks :: "(string \<times> error) list"
  failed_s3_deletions :: "(s3_key \<times> error) list"

definition server_errors_new :: server_errors where
  "server_errors_new =
     \<lparr>failed_s3_fetches = [], failed_json_parses = [], failed_key_parses = [],
      failed_signature_checks = [], failed_s3_deletions = []\<rparr>"

definition has_errors :: "server_errors \<Rightarrow> bool" where
  "has_errors e \<longleftrightarrow>
     failed_s3_fetches e \<noteq> [] \<or> failed_json_parses e \<noteq> [] \<or> failed_key_parses e \<noteq> [] \<or>
     failed_signature_checks e \<noteq> [] \<or> failed_s3_deletions e \<noteq> []"

text \<open>What \<open>println!\<close> shows of a list of failures: its title and a line for each.\<close>

definition print_failures :: "string \<Rightarrow> (string \<times> error) list \<Rightarrow> ('w sys, unit) io" where
  "print_failures title fails =
     (if fails = [] then io_ret ()
      else io_bind (print (Line title)) (\<lambda>_. print_all (map (\<lambda>(k, e). Shown_Failure k e) fails)))"

definition by_key :: "(s3_key \<times> error) list \<Rightarrow> (string \<times> error) list" where
  "by_key fails = map (\<lambda>(k, e). (key_text k, e)) fails"

definition print_summary :: "server_errors \<Rightarrow> ('w sys, unit) io" where
  "print_summary e =
     io_bind (print (Line (''Errors Summary'' @ nl @ ''-------''))) (\<lambda>_.
     if has_errors e then
       io_bind (print_failures ''Failed S3 Fetches:'' (by_key (failed_s3_fetches e))) (\<lambda>_.
       io_bind (print_failures ''Failed JSON Deserializations:'' (by_key (failed_json_parses e))) (\<lambda>_.
       io_bind (print_failures ''Failed Signing Key Parses:'' (failed_key_parses e)) (\<lambda>_.
       io_bind (print_failures ''Failed Signature Checks:'' (failed_signature_checks e)) (\<lambda>_.
       io_bind (print_failures ''Failed S3 Deletions:'' (by_key (failed_s3_deletions e))) (\<lambda>_.
       io_lift (Err (Bail ''errors occurred while executing this dyndynser run'')))))))
     else print (Line ''No errors''))"

section \<open>Validating a request\<close>

text \<open>The operator \<open>+\<close> of a \<open>DateTime\<close> with a \<open>TimeDelta\<close> panics on overflow.\<close>

definition date_add :: "chrono_crate \<Rightarrow> int \<Rightarrow> int \<Rightarrow> int result" where
  "date_add C t d =
     (case add_delta C t d of None \<Rightarrow> Panic ''`DateTime + TimeDelta` overflowed'' | Some u \<Rightarrow> Ok u)"

text \<open>\<open>TimeDelta::num_seconds\<close> rounds towards zero.\<close>

definition num_seconds :: "int \<Rightarrow> int" where
  "num_seconds d = (if d < 0 then - ((- d) div 1000000000) else d div 1000000000)"

definition fmt_int :: "int \<Rightarrow> string" where
  "fmt_int i = (if i < 0 then ''-'' @ fmt_dec (nat (- i)) else fmt_dec (nat i))"

definition clock_tolerance :: int where
  "clock_tolerance = time_delta_seconds 15"

definition verify_signature ::
  "('k, 'b, 'w) env \<Rightarrow> verifying_key \<Rightarrow> resource_record_set signed_payload \<Rightarrow> unit result" where
  "verify_signature E vk sp =
     and_then (ctx ''failed to re-serialize during signature check''
        (ok_or (External ''serde_json'') (signed_bytes (e_json E) record_set_to_json (envelope sp)))) (\<lambda>m.
     ctx ''ddns json signature did not match''
       (if verify_strict (e_dalek E) vk m (signature_inner (signature sp)) then Ok ()
        else Err (External ''ed25519'')))"

definition check_age :: "('k, 'b, 'w) env \<Rightarrow> int \<Rightarrow> resource_record_set signed_payload \<Rightarrow> ('w sys, unit) io" where
  "check_age E max_time_ago sp =
     (let C = e_chrono E in
      io_bind (io_lift (ok_or (Bail ''could not construct a timestamp for this envelope'')
        (from_timestamp C (sint (signed_at_unix_secs (envelope sp)))))) (\<lambda>signed_at.
      io_bind (io_lift (date_add C signed_at max_time_ago)) (\<lambda>latest.
      io_bind (io_lift (date_add C latest clock_tolerance)) (\<lambda>max_age_permitted.
      io_bind (utc_now E) (\<lambda>now.
      if max_age_permitted < now
      then io_lift (Err (Bail (''Signature is too old (age: '' @ fmt_int (num_seconds (now - signed_at)) @
        ''s, max: '' @ fmt_int (num_seconds max_time_ago) @ ''s)'')))
      else io_ret ())))))"

text \<open>\<open>UnverifiedDdnsRequest::validate\<close>.\<close>

definition validate ::
  "('k, 'b, 'w) env \<Rightarrow> unverified_request \<Rightarrow> verifying_key \<Rightarrow> int \<Rightarrow> bool \<Rightarrow> ('w sys, verified_request) io" where
  "validate E r vk max_time_ago insecure_skip_verify =
     io_bind
       (if insecure_skip_verify then io_ret ()
        else io_bind (io_lift (verify_signature E vk (ur_signed_payload r)))
               (\<lambda>_. check_age E max_time_ago (ur_signed_payload r)))
       (\<lambda>_. io_ret \<lparr>vr_resource_record = payload (envelope (ur_signed_payload r)), vr_s3_key = ur_s3_key r\<rparr>)"

definition request_name :: "unverified_request \<Rightarrow> string" where
  "request_name r = rr_name (payload (envelope (ur_signed_payload r)))"

definition find_key :: "('k, 'b, 'w) env \<Rightarrow> unverified_request \<Rightarrow> cert_match list \<Rightarrow> bool \<Rightarrow> verifying_key result" where
  "find_key E r domain_key_map insecure_skip_verify =
     (if insecure_skip_verify then Ok (verifying_key_of (e_dalek E) dummy_ed25519_private_key)
      else
        and_then (ok_or (Bail (''Received ddns request for domain '' @ quoted (request_name r) @
            '', but no matching key could be found''))
          (find (\<lambda>x. common_name x = request_name r) domain_key_map)) (\<lambda>matching_certificate.
        and_then (verify_signature E (cert_key matching_certificate) (ur_signed_payload r)) (\<lambda>_.
        Ok (cert_key matching_certificate))))"

definition check_valid_ddns_request ::
  "('k, 'b, 'w) env \<Rightarrow> unverified_request \<Rightarrow> cert_match list \<Rightarrow> int \<Rightarrow> bool \<Rightarrow> ('w sys, verified_request) io" where
  "check_valid_ddns_request E r domain_key_map max_time_ago insecure_skip_verify =
     io_bind (io_lift (find_key E r domain_key_map insecure_skip_verify)) (\<lambda>vk.
     io_ctx ''Did not successfully validate the request'' (validate E r vk max_time_ago insecure_skip_verify))"

text \<open>One round of the loop of \<open>validate_unverified_dns_requests\<close>, and the loop.\<close>

definition validate_one ::
  "('k, 'b, 'w) env \<Rightarrow> cert_match list \<Rightarrow> int \<Rightarrow> bool \<Rightarrow> unverified_request \<Rightarrow>
     verified_request list \<times> server_errors \<Rightarrow> ('w sys, verified_request list \<times> server_errors) io" where
  "validate_one E certs max_time_ago skip r acc =
     (case acc of (verified, errors) \<Rightarrow>
        io_match (io_ctx ''failed to check signing key request''
            (check_valid_ddns_request E r certs max_time_ago skip))
          (\<lambda>v. io_ret (verified @ [v], errors))
          (\<lambda>e. io_ret (verified, errors\<lparr>failed_signature_checks := failed_signature_checks errors @
             [(request_name r, Context ''signature did not pass validation'' e)]\<rparr>)))"

fun validate_unverified_dns_requests ::
  "('k, 'b, 'w) env \<Rightarrow> cert_match list \<Rightarrow> int \<Rightarrow> bool \<Rightarrow> unverified_request list \<Rightarrow>
     verified_request list \<times> server_errors \<Rightarrow> ('w sys, verified_request list \<times> server_errors) io" where
  "validate_unverified_dns_requests E certs max_time_ago skip [] acc = io_ret acc"
| "validate_unverified_dns_requests E certs max_time_ago skip (r # rs) acc =
     io_bind (validate_one E certs max_time_ago skip r acc)
       (validate_unverified_dns_requests E certs max_time_ago skip rs)"

section \<open>The changes\<close>

definition fixed_name :: "resource_record_set \<Rightarrow> string" where
  "fixed_name r =
     (case data_record_type (rr_data r) of
        RT_A \<Rightarrow> if ends_with ''.'' (rr_name r) then rr_name r else rr_name r @ ''.''
      | RT_AAAA \<Rightarrow> if ends_with ''.'' (rr_name r) then rr_name r else rr_name r @ ''.'')"

definition build_change :: "verified_request \<Rightarrow> change" where
  "build_change v =
     (let r = vr_resource_record v in
      \<lparr>action = Upsert,
       record_set = \<lparr>rr_name = fixed_name r, rr_ttl = rr_ttl r, rr_data = rr_data r\<rparr>\<rparr>)"

fun build_changes :: "verified_request list \<Rightarrow> change list" where
  "build_changes [] = []"
| "build_changes (v # vs) = build_change v # build_changes vs"

section \<open>The loop records failures and goes on\<close>

definition errors_ext :: "server_errors \<Rightarrow> server_errors \<Rightarrow> bool" where
  "errors_ext e f \<longleftrightarrow>
     prefix (failed_s3_fetches e) (failed_s3_fetches f) \<and>
     prefix (failed_json_parses e) (failed_json_parses f) \<and>
     prefix (failed_key_parses e) (failed_key_parses f) \<and>
     prefix (failed_signature_checks e) (failed_signature_checks f) \<and>
     prefix (failed_s3_deletions e) (failed_s3_deletions f)"

lemma errors_ext_refl [simp]: "errors_ext e e"
  by (simp add: errors_ext_def)

lemma errors_ext_trans: "errors_ext e f \<Longrightarrow> errors_ext f g \<Longrightarrow> errors_ext e g"
  by (auto simp: errors_ext_def intro: prefix_order.trans)

lemma errors_ext_update [simp]:
  "errors_ext e (e\<lparr>failed_s3_fetches := failed_s3_fetches e @ xs\<rparr>)"
  "errors_ext e (e\<lparr>failed_json_parses := failed_json_parses e @ xs\<rparr>)"
  "errors_ext e (e\<lparr>failed_key_parses := failed_key_parses e @ ys\<rparr>)"
  "errors_ext e (e\<lparr>failed_signature_checks := failed_signature_checks e @ ys\<rparr>)"
  "errors_ext e (e\<lparr>failed_s3_deletions := failed_s3_deletions e @ xs\<rparr>)"
  by (simp_all add: errors_ext_def)

lemma has_errors_ext: "errors_ext e f \<Longrightarrow> has_errors e \<Longrightarrow> has_errors f"
  by (auto simp: errors_ext_def has_errors_def)

definition acc_ext :: "'a list \<times> server_errors \<Rightarrow> 'a list \<times> server_errors \<Rightarrow> bool" where
  "acc_ext a b \<longleftrightarrow> prefix (fst a) (fst b) \<and> errors_ext (snd a) (snd b)"

lemma acc_ext_refl [simp]: "acc_ext a a"
  by (simp add: acc_ext_def)

lemma acc_ext_trans: "acc_ext a b \<Longrightarrow> acc_ext b c \<Longrightarrow> acc_ext a c"
  by (auto simp: acc_ext_def intro: prefix_order.trans errors_ext_trans)

text \<open>One round adds either the verified request or a failure.\<close>

lemma validate_one_Ok:
  "validate_one E certs age skip r acc s = (Ok acc', t) \<Longrightarrow>
     (\<exists>v. check_valid_ddns_request E r certs age skip s = (Ok v, t) \<and> acc' = (fst acc @ [v], snd acc)) \<or>
     (\<exists>e. acc' = (fst acc, (snd acc)\<lparr>failed_signature_checks := failed_signature_checks (snd acc) @
            [(request_name r, e)]\<rparr>))"
  by (cases acc) (fastforce simp: validate_one_def ok_iff)

interpretation validate_loop: world_loop "validate_one E certs age skip"
  "validate_unverified_dns_requests E certs age skip" acc_ext for E certs age skip
proof unfold_locales
  fix r acc acc' and s t :: "'c sys"
  assume "validate_one E certs age skip r acc s = (Ok acc', t)"
  from validate_one_Ok [OF this] show "acc_ext acc acc'"
    by (cases acc) (auto simp: acc_ext_def)
qed (auto intro: acc_ext_trans)

section \<open>When a request is accepted\<close>

text \<open>The certificate for the name is the first with that CommonName, and the signature verifies.\<close>

definition authentic :: "('k, 'b, 'w) env \<Rightarrow> cert_match list \<Rightarrow> unverified_request \<Rightarrow> bool" where
  "authentic E certs r \<longleftrightarrow>
     (\<exists>c m. find (\<lambda>x. common_name x = request_name r) certs = Some c \<and>
        signed_bytes (e_json E) record_set_to_json (envelope (ur_signed_payload r)) = Some m \<and>
        verify_strict (e_dalek E) (cert_key c) m (signature_inner (signature (ur_signed_payload r))))"

text \<open>The latest time at which a request is accepted: \<open>signed_at + max_time_ago + tolerance\<close>.\<close>

definition latest_accept :: "('k, 'b, 'w) env \<Rightarrow> int \<Rightarrow> unverified_request \<Rightarrow> int \<Rightarrow> bool" where
  "latest_accept E age r u \<longleftrightarrow>
     (\<exists>t0 t1. from_timestamp (e_chrono E) (sint (signed_at_unix_secs (envelope (ur_signed_payload r)))) = Some t0 \<and>
        add_delta (e_chrono E) t0 age = Some t1 \<and> add_delta (e_chrono E) t1 clock_tolerance = Some u)"

definition to_verified :: "unverified_request \<Rightarrow> verified_request" where
  "to_verified r = \<lparr>vr_resource_record = payload (envelope (ur_signed_payload r)), vr_s3_key = ur_s3_key r\<rparr>"

lemma verify_signature_Ok:
  "verify_signature E vk sp = Ok () \<longleftrightarrow>
     (\<exists>m. signed_bytes (e_json E) record_set_to_json (envelope sp) = Some m \<and>
        verify_strict (e_dalek E) vk m (signature_inner (signature sp)))"
  by (auto simp: verify_signature_def ok_iff)

lemma find_key_Ok:
  "find_key E r certs False = Ok vk \<longleftrightarrow>
     (\<exists>c. find (\<lambda>x. common_name x = request_name r) certs = Some c \<and>
        verify_signature E (cert_key c) (ur_signed_payload r) = Ok () \<and> vk = cert_key c)"
  by (auto simp: find_key_def ok_iff)

lemma date_add_Ok [ok_iff]: "date_add C t d = Ok u \<longleftrightarrow> add_delta C t d = Some u"
  by (simp add: date_add_def split: option.splits)

lemma utc_now_Ok [ok_iff]:
  "utc_now E s = (Ok now, t) \<longleftrightarrow> (\<exists>w. http_clock (e_http E) (world s) = (now, w) \<and> t = s\<lparr>world := w\<rparr>)"
  by (auto simp: utc_now_def read_clock_def quietly_def split: prod.splits)

lemma check_age_Ok:
  "check_age E age (ur_signed_payload r) s = (Ok (), t) \<longleftrightarrow>
     (\<exists>u now w. latest_accept E age r u \<and> http_clock (e_http E) (world s) = (now, w) \<and> now \<le> u \<and>
        t = s\<lparr>world := w\<rparr>)"
  unfolding check_age_def Let_def io_bind_Ok_iff
  by (auto simp: latest_accept_def ok_iff not_less split: if_splits)

lemma validate_Ok:
  "validate E r vk age False s = (Ok v, t) \<longleftrightarrow>
     verify_signature E vk (ur_signed_payload r) = Ok () \<and>
     check_age E age (ur_signed_payload r) s = (Ok (), t) \<and> v = to_verified r"
  by (auto simp: validate_def ok_iff to_verified_def)

lemma check_valid_Ok_iff:
  "check_valid_ddns_request E r certs age False s = (Ok v, t) \<longleftrightarrow>
     authentic E certs r \<and>
     (\<exists>u now w. latest_accept E age r u \<and> http_clock (e_http E) (world s) = (now, w) \<and> now \<le> u \<and>
        t = s\<lparr>world := w\<rparr>) \<and>
     v = to_verified r"
proof -
  have "check_valid_ddns_request E r certs age False s = (Ok v, t) \<longleftrightarrow>
      (\<exists>c. find (\<lambda>x. common_name x = request_name r) certs = Some c \<and>
        verify_signature E (cert_key c) (ur_signed_payload r) = Ok () \<and>
        check_age E age (ur_signed_payload r) s = (Ok (), t) \<and> v = to_verified r)"
    by (auto simp: check_valid_ddns_request_def io_bind_Ok_iff io_ctx_Ok_iff find_key_Ok validate_Ok)
  then show ?thesis by (auto simp: check_age_Ok verify_signature_Ok authentic_def)
qed

text \<open>
  C3: exactly when a request is accepted. There is a first certificate whose CommonName is the
  requested name, the signature over the canonical JSON of the envelope verifies strictly under its
  key, and the clock has not passed \<open>signed_at + max_time_ago + 15 s\<close>; then the result is the record
  and the key of this request, and only the clock was read.
\<close>

theorem check_valid_ddns_request_Ok_iff:
  "check_valid_ddns_request E r certs age False s = (Ok v, t) \<longleftrightarrow>
     authentic E certs r \<and>
     (\<exists>u now w. latest_accept E age r u \<and> http_clock (e_http E) (world s) = (now, w) \<and> now \<le> u \<and>
        t = s\<lparr>world := w\<rparr>) \<and>
     v = to_verified r"
  by (rule check_valid_Ok_iff)

lemma check_valid_skip:
  "check_valid_ddns_request E r certs age True s = (Ok (to_verified r), s)"
  by (simp add: check_valid_ddns_request_def find_key_def validate_def to_verified_def io_bind_def io_ctx_def)

lemma check_valid_may_return:
  "may_return (check_valid_ddns_request E r certs age skip :: ('w sys, _) io) v \<Longrightarrow>
     v = to_verified r \<and> (skip \<or> authentic E certs r)"
proof (cases skip)
  case True
  then show "may_return (check_valid_ddns_request E r certs age skip :: ('w sys, _) io) v \<Longrightarrow> ?thesis"
    by (auto simp: may_return_def check_valid_skip)
next
  case False
  then show "may_return (check_valid_ddns_request E r certs age skip :: ('w sys, _) io) v \<Longrightarrow> ?thesis"
    by (auto simp: may_return_def check_valid_Ok_iff)
qed

text \<open>What \<open>chrono\<close> documents of time arithmetic: it is exact where it does not fail.\<close>

definition chrono_exact :: "chrono_crate \<Rightarrow> bool" where
  "chrono_exact C \<longleftrightarrow>
     (\<forall>n t. from_timestamp C n = Some t \<longrightarrow> t = time_delta_seconds n) \<and>
     (\<forall>t d u. add_delta C t d = Some u \<longrightarrow> u = t + d)"

text \<open>
  C16: no request signed longer ago than the configured age plus 15 seconds is accepted, whatever the
  time stamps are.
\<close>

theorem accepted_request_is_not_stale:
  assumes "chrono_exact (e_chrono E)"
    and "check_valid_ddns_request E r certs (time_delta_seconds max_age) False s = (Ok v, t)"
    and "http_clock (e_http E) (world s) = (now, w)"
  shows "now \<le> time_delta_seconds
    (sint (signed_at_unix_secs (envelope (ur_signed_payload r))) + max_age + 15)"
  using assms
  by (auto simp: check_valid_Ok_iff latest_accept_def chrono_exact_def
      clock_tolerance_def time_delta_seconds_def)

text \<open>
  C34: there is no bound in the other direction: what is accepted at some time is accepted at every
  earlier time, so a request dated in the future is accepted.
\<close>

theorem earlier_clock_accepts:
  assumes "check_valid_ddns_request E r certs age False s = (Ok v, t)"
    and "http_clock (e_http E) (world s) = (now, w)"
    and "http_clock (e_http E) (world s') = (earlier, w')" and "earlier \<le> now"
  shows "check_valid_ddns_request E r certs age False s' = (Ok v, s'\<lparr>world := w'\<rparr>)"
  using assms by (auto simp: check_valid_Ok_iff)

text \<open>
  The signature is checked twice, by the caller and inside \<open>validate\<close>; the two checks are one:
  a request is accepted exactly when \<open>validate\<close> accepts it under the key of the first certificate
  for its name.
\<close>

lemma double_check_is_single:
  "check_valid_ddns_request E r certs age False s = (Ok v, t) \<longleftrightarrow>
     (\<exists>c. find (\<lambda>x. common_name x = request_name r) certs = Some c \<and>
        validate E r (cert_key c) age False s = (Ok v, t))"
  by (auto simp: check_valid_ddns_request_def io_bind_Ok_iff io_ctx_Ok_iff find_key_Ok validate_Ok)

section \<open>A request that stops the run\<close>

text \<open>
  C18: a request whose signature is good but whose time stamp is so late that adding the permitted age
  overflows does not fail the check: it panics, and with it the loop, whatever other requests there
  are. So the owner of any one known key can keep the server from updating the other domains.
\<close>

theorem overflowing_time_stamp_panics:
  assumes "authentic E certs r"
    and "from_timestamp (e_chrono E) (sint (signed_at_unix_secs (envelope (ur_signed_payload r)))) = Some t0"
    and "add_delta (e_chrono E) t0 age = None"
    and "validate_unverified_dns_requests E certs age False rs acc s = (Ok acc', u)"
  shows "\<exists>v. validate_unverified_dns_requests E certs age False (rs @ r # rs') acc s =
    (Panic ''`DateTime + TimeDelta` overflowed'', v)"
proof -
  have "fst (check_valid_ddns_request E r certs age False u) = Panic ''`DateTime + TimeDelta` overflowed''"
    using assms(1-3)
    by (auto simp: authentic_def check_valid_ddns_request_def find_key_def verify_signature_def
        validate_def check_age_def Let_def date_add_def io_bind_def io_ctx_def)
  then have "fst (validate_one E certs age False r acc' u) = Panic ''`DateTime + TimeDelta` overflowed''"
    by (cases acc'; cases "check_valid_ddns_request E r certs age False u")
       (simp add: validate_one_def io_match_def io_ctx_def)
  then show ?thesis
    using assms(4) by (cases "validate_one E certs age False r acc' u")
      (auto simp: validate_loop.run_append io_bind_def)
qed

section \<open>The loop over the requests\<close>

lemma validate_loop_count:
  assumes "validate_unverified_dns_requests E certs age skip rs (verified, errors) s =
    (Ok (verified', errors'), t)"
  shows "length verified' + length (failed_signature_checks errors') =
      length verified + length (failed_signature_checks errors) + length rs \<and>
    prefix verified verified' \<and> errors_ext errors errors'"
proof -
  let ?n = "\<lambda>acc. length (fst acc) + length (failed_signature_checks (snd acc))"
  have "?n (verified', errors') = ?n (verified, errors) + length rs"
    by (rule validate_loop.run_counts [OF assms]) (auto dest!: validate_one_Ok)
  with validate_loop.run_ext [OF assms] show ?thesis by (simp add: acc_ext_def)
qed

text \<open>
  A reference for the loop, on the requests and the world alone: which of them pass, which do not, and
  the world after the clock was read for those that got that far.
\<close>

definition accepts ::
  "('k, 'b, 'w) env \<Rightarrow> cert_match list \<Rightarrow> int \<Rightarrow> bool \<Rightarrow> unverified_request \<Rightarrow> 'w \<Rightarrow> bool" where
  "accepts E certs age skip r w \<longleftrightarrow>
     skip \<or> authentic E certs r \<and>
       (\<exists>latest. latest_accept E age r latest \<and> fst (http_clock (e_http E) w) \<le> latest)"

definition signed_at :: "('k, 'b, 'w) env \<Rightarrow> unverified_request \<Rightarrow> int option" where
  "signed_at E r =
     from_timestamp (e_chrono E) (sint (signed_at_unix_secs (envelope (ur_signed_payload r))))"

definition after_check ::
  "('k, 'b, 'w) env \<Rightarrow> cert_match list \<Rightarrow> bool \<Rightarrow> unverified_request \<Rightarrow> 'w \<Rightarrow> 'w" where
  "after_check E certs skip r w =
     (if \<not> skip \<and> authentic E certs r \<and> signed_at E r \<noteq> None then snd (http_clock (e_http E) w) else w)"

fun sort_out ::
  "('k, 'b, 'w) env \<Rightarrow> cert_match list \<Rightarrow> int \<Rightarrow> bool \<Rightarrow> unverified_request list \<Rightarrow> 'w \<Rightarrow>
     unverified_request list \<times> unverified_request list \<times> 'w" where
  "sort_out E certs age skip [] w = ([], [], w)"
| "sort_out E certs age skip (r # rs) w =
     (case sort_out E certs age skip rs (after_check E certs skip r w) of
        (pass, fail, w') \<Rightarrow>
          if accepts E certs age skip r w then (r # pass, fail, w') else (pass, r # fail, w'))"

text \<open>The time stamp is representable, but the latest time of acceptance is not.\<close>

definition overflows :: "('k, 'b, 'w) env \<Rightarrow> int \<Rightarrow> unverified_request \<Rightarrow> bool" where
  "overflows E age r \<longleftrightarrow> signed_at E r \<noteq> None \<and> (\<nexists>latest. latest_accept E age r latest)"

lemma find_key_cases:
  obtains (found) c :: cert_match where "authentic E certs r" and "find_key E r certs False = Ok (cert_key c)"
      and "verify_signature E (cert_key c) (ur_signed_payload r) = Ok ()"
  | (refused) e where "\<not> authentic E certs r" and "find_key E r certs False = Err e"
proof (cases "find_key E r certs False")
  case (Ok vk)
  then obtain c where c: "find (\<lambda>x. common_name x = request_name r) certs = Some c" "vk = cert_key c"
    "verify_signature E (cert_key c) (ur_signed_payload r) = Ok ()" by (auto simp: find_key_Ok)
  then have "authentic E certs r" by (auto simp: authentic_def verify_signature_Ok)
  then show thesis by (rule found [of c]) (use Ok c in simp_all)
next
  case (Err e)
  then have "\<not> authentic E certs r"
    by (auto simp: authentic_def find_key_def verify_signature_def)
  with Err refused show thesis by simp
next
  case (Panic p)
  then show thesis
    by (auto simp: find_key_def verify_signature_def and_then_Panic_iff ctx_Panic_iff split: if_splits)
qed

text \<open>The check of the age, on every branch.\<close>

lemma check_age_cases:
  obtains (unrepresentable) e where "signed_at E r = None"
      and "check_age E age (ur_signed_payload r) s = (Err e, s)"
  | (overflow) p where "overflows E age r" and "check_age E age (ur_signed_payload r) s = (Panic p, s)"
  | (old) e latest where "signed_at E r \<noteq> None" and "latest_accept E age r latest"
      and "latest < fst (http_clock (e_http E) (world s))"
      and "check_age E age (ur_signed_payload r) s = (Err e, s\<lparr>world := snd (http_clock (e_http E) (world s))\<rparr>)"
  | (fresh) latest where "signed_at E r \<noteq> None" and "latest_accept E age r latest"
      and "fst (http_clock (e_http E) (world s)) \<le> latest"
      and "check_age E age (ur_signed_payload r) s = (Ok (), s\<lparr>world := snd (http_clock (e_http E) (world s))\<rparr>)"
proof (cases "signed_at E r")
  case None
  then have "\<exists>e. check_age E age (ur_signed_payload r) s = (Err e, s)"
    by (simp add: signed_at_def check_age_def Let_def io_bind_def)
  with None unrepresentable show thesis by blast
next
  case (Some t0)
  obtain now w where clock: "http_clock (e_http E) (world s) = (now, w)" by (cases "http_clock (e_http E) (world s)")
  show thesis
  proof (cases "\<exists>latest. latest_accept E age r latest")
    case True
    then obtain t1 latest where add: "add_delta (e_chrono E) t0 age = Some t1"
      "add_delta (e_chrono E) t1 clock_tolerance = Some latest" and latest: "latest_accept E age r latest"
      using Some by (auto simp: latest_accept_def signed_at_def)
    have now: "utc_now E s = (Ok now, s\<lparr>world := w\<rparr>)" by (simp add: utc_now_Ok clock)
    note run = Some [unfolded signed_at_def] add now
    show thesis
    proof (cases "now \<le> latest")
      case True
      then have "check_age E age (ur_signed_payload r) s = (Ok (), s\<lparr>world := w\<rparr>)"
        by (simp add: check_age_def Let_def date_add_def io_bind_def run)
      with fresh Some latest True clock show thesis by simp
    next
      case False
      then have "\<exists>e. check_age E age (ur_signed_payload r) s = (Err e, s\<lparr>world := w\<rparr>)"
        by (simp add: check_age_def Let_def date_add_def io_bind_def run)
      with old Some latest False clock show thesis by fastforce
    qed
  next
    case False
    then have "overflows E age r" using Some by (simp add: overflows_def)
    moreover from False Some have "\<exists>p. check_age E age (ur_signed_payload r) s = (Panic p, s)"
      by (auto simp: latest_accept_def signed_at_def check_age_def Let_def date_add_def io_bind_def
          split: option.splits)
    ultimately show thesis using overflow by blast
  qed
qed

lemma latest_accept_unique: "latest_accept E age r a \<Longrightarrow> latest_accept E age r b \<Longrightarrow> a = b"
  by (auto simp: latest_accept_def)

lemma latest_accept_signed: "latest_accept E age r a \<Longrightarrow> signed_at E r \<noteq> None"
  by (auto simp: latest_accept_def signed_at_def)

text \<open>One check against the reference.\<close>

lemma check_valid_cases:
  obtains (pass) "accepts E certs age skip r (world s)"
      and "check_valid_ddns_request E r certs age skip s =
        (Ok (to_verified r), s\<lparr>world := after_check E certs skip r (world s)\<rparr>)"
  | (fail) e where "\<not> accepts E certs age skip r (world s)"
      and "check_valid_ddns_request E r certs age skip s =
        (Err e, s\<lparr>world := after_check E certs skip r (world s)\<rparr>)"
  | (stop) p t where "\<not> skip" and "authentic E certs r" and "overflows E age r"
      and "check_valid_ddns_request E r certs age skip s = (Panic p, t)"
proof (cases skip)
  case True
  then have "accepts E certs age skip r (world s)" "after_check E certs skip r (world s) = world s"
    by (simp_all add: accepts_def after_check_def)
  with pass True check_valid_skip [of E r certs age s] show thesis by simp
next
  case False
  note simps = False check_valid_ddns_request_def validate_def io_bind_def io_ctx_def to_verified_def
  show thesis
  proof (cases rule: find_key_cases [of E certs r])
    case (refused e)
    then have "\<not> accepts E certs age skip r (world s)" "after_check E certs skip r (world s) = world s"
      by (simp_all add: accepts_def after_check_def False)
    with refused fail show thesis by (simp add: simps)
  next
    case (found c)
    show thesis
    proof (cases rule: check_age_cases [of E r age s])
      case (unrepresentable e)
      then have "\<not> accepts E certs age skip r (world s)" "after_check E certs skip r (world s) = world s"
        by (auto simp: accepts_def after_check_def False dest: latest_accept_signed)
      with found unrepresentable fail show thesis by (simp add: simps)
    next
      case (overflow p)
      with found stop False show thesis by (simp add: simps)
    next
      case (old e latest)
      then have "\<not> accepts E certs age skip r (world s)"
        by (auto simp: accepts_def False dest: latest_accept_unique)
      with found old fail show thesis by (simp add: simps after_check_def)
    next
      case (fresh latest)
      with found have "accepts E certs age skip r (world s)" by (auto simp: accepts_def)
      with found fresh pass show thesis by (simp add: simps after_check_def)
    qed
  qed
qed

lemma validate_loop_sorts_out:
  "case validate_unverified_dns_requests E certs age skip rs acc s of
     (Ok (verified', errors'), t) \<Rightarrow>
       (case sort_out E certs age skip rs (world s) of (pass, fail, w) \<Rightarrow>
          verified' = fst acc @ map to_verified pass \<and>
          (\<exists>es. length es = length fail \<and>
             errors' = (snd acc)\<lparr>failed_signature_checks :=
               failed_signature_checks (snd acc) @ zip (map request_name fail) es\<rparr>) \<and>
          t = s\<lparr>world := w\<rparr>)
   | (Err e, t) \<Rightarrow> False
   | (Panic p, t) \<Rightarrow> \<not> skip \<and> (\<exists>r. r \<in> set rs \<and> authentic E certs r \<and> overflows E age r)"
proof (induction rs arbitrary: acc s)
  case Nil
  then show ?case by (cases acc) simp
next
  case (Cons r rs)
  obtain verified errors where acc: "acc = (verified, errors)" by (cases acc)
  let ?u = "s\<lparr>world := after_check E certs skip r (world s)\<rparr>"
  obtain pass fail w where ref: "sort_out E certs age skip rs (after_check E certs skip r (world s)) = (pass, fail, w)"
    by (rule prod_cases3)
  have go_on: "(\<exists>verified2 errors2. validate_unverified_dns_requests E certs age skip rs acc1 ?u =
        (Ok (verified2, errors2), s\<lparr>world := w\<rparr>) \<and> verified2 = fst acc1 @ map to_verified pass \<and>
        (\<exists>es. length es = length fail \<and> errors2 = (snd acc1)\<lparr>failed_signature_checks :=
           failed_signature_checks (snd acc1) @ zip (map request_name fail) es\<rparr>)) \<or>
      (\<exists>p t. validate_unverified_dns_requests E certs age skip rs acc1 ?u = (Panic p, t) \<and>
        \<not> skip \<and> (\<exists>r. r \<in> set rs \<and> authentic E certs r \<and> overflows E age r))" for acc1
    using Cons.IH [of acc1 ?u]
    by (cases "validate_unverified_dns_requests E certs age skip rs acc1 ?u";
        cases "fst (validate_unverified_dns_requests E certs age skip rs acc1 ?u)") (auto simp: ref)
  show ?case
  proof (cases rule: check_valid_cases [of E certs age skip r s])
    case pass
    then have "validate_one E certs age skip r acc s = (Ok (verified @ [to_verified r], errors), ?u)"
      by (simp add: acc validate_one_def io_match_def io_ctx_def)
    with pass(1) go_on [of "(verified @ [to_verified r], errors)"] show ?thesis
      by (auto simp: acc io_bind_def ref intro!: exI)
  next
    case rejected: (fail e)
    let ?x = "(request_name r, Context ''signature did not pass validation'' (Context ''failed to check signing key request'' e))"
    let ?errors = "errors\<lparr>failed_signature_checks := failed_signature_checks errors @ [?x]\<rparr>"
    from rejected have step: "validate_one E certs age skip r acc s = (Ok (verified, ?errors), ?u)"
      by (simp add: acc validate_one_def io_match_def io_ctx_def)
    have more: "\<exists>es'. length es' = Suc (length fail) \<and>
        ?errors\<lparr>failed_signature_checks := failed_signature_checks ?errors @ zip (map request_name fail) es\<rparr> =
        errors\<lparr>failed_signature_checks := failed_signature_checks errors @
          zip (request_name r # map request_name fail) es'\<rparr>"
      if "length es = length fail" for es
      using that by (intro exI [of _ "snd ?x # es"]) simp
    from go_on [of "(verified, ?errors)"] show ?thesis
    proof (elim disjE exE conjE)
      fix verified2 errors2 es
      assume run: "validate_unverified_dns_requests E certs age skip rs (verified, ?errors) ?u =
          (Ok (verified2, errors2), s\<lparr>world := w\<rparr>)" and v2: "verified2 = fst (verified, ?errors) @ map to_verified pass"
        and es: "length es = length fail" and e2: "errors2 = (snd (verified, ?errors))\<lparr>failed_signature_checks :=
           failed_signature_checks (snd (verified, ?errors)) @ zip (map request_name fail) es\<rparr>"
      from more [OF es] e2 obtain es' where "length es' = Suc (length fail)"
        "errors2 = errors\<lparr>failed_signature_checks := failed_signature_checks errors @
          zip (request_name r # map request_name fail) es'\<rparr>" by (auto simp only: snd_conv)
      then have "\<exists>es'. length es' = length (r # fail) \<and> errors2 = errors\<lparr>failed_signature_checks :=
          failed_signature_checks errors @ zip (map request_name (r # fail)) es'\<rparr>" by auto
      with run step v2 rejected(1) show ?thesis by (simp only: validate_unverified_dns_requests.simps
            io_bind_def prod.case result.case acc fst_conv snd_conv sort_out.simps ref if_False simp_thms)
    next
      fix p t q
      assume "validate_unverified_dns_requests E certs age skip rs (verified, ?errors) ?u = (Panic p, t)"
        and "\<not> skip" "q \<in> set rs" "authentic E certs q" "overflows E age q"
      with step show ?thesis by (auto simp: acc io_bind_def)
    qed
  next
    case (stop p t)
    then have "validate_one E certs age skip r acc s = (Panic p, t)"
      by (simp add: acc validate_one_def io_match_def io_ctx_def)
    with stop show ?thesis by (auto simp: io_bind_def)
  qed
qed

text \<open>
  C15: the loop is the reference. A request passes if verification is skipped, or if it is authentic and
  the clock at its turn is not past the latest time of acceptance; the verified ones are exactly the
  passing requests, in order, the failed checks that are added name exactly the others, in order, and
  no other list of errors changes. The loop never ends with an error, and panics only for an authentic
  request whose time of acceptance overflows.
\<close>

theorem validate_loop_sorts_requests:
  "case validate_unverified_dns_requests E certs age skip rs (verified, errors) s of
     (Ok (verified', errors'), t) \<Rightarrow>
       (case sort_out E certs age skip rs (world s) of (pass, fail, w) \<Rightarrow>
          verified' = verified @ map to_verified pass \<and>
          (\<exists>es. length es = length fail \<and>
             errors' = errors\<lparr>failed_signature_checks :=
               failed_signature_checks errors @ zip (map request_name fail) es\<rparr>) \<and>
          t = s\<lparr>world := w\<rparr>)
   | (Err e, t) \<Rightarrow> False
   | (Panic p, t) \<Rightarrow> \<not> skip \<and> (\<exists>r. r \<in> set rs \<and> authentic E certs r \<and> overflows E age r)"
  using validate_loop_sorts_out [where acc = "(verified, errors)"] by (simp only: fst_conv snd_conv)

text \<open>Every verified request comes from one of the requests, and that one is authentic.\<close>

definition vouched :: "('k, 'b, 'w) env \<Rightarrow> cert_match list \<Rightarrow> bool \<Rightarrow> unverified_request list \<Rightarrow> verified_request \<Rightarrow> bool" where
  "vouched E certs skip rs v \<longleftrightarrow> (\<exists>r \<in> set rs. v = to_verified r \<and> (skip \<or> authentic E certs r))"

lemma validate_loop_vouched:
  assumes "validate_unverified_dns_requests E certs age skip rs acc s = (Ok acc', t)"
    and "\<forall>v \<in> set (fst acc). vouched E certs skip rs v"
  shows "\<forall>v \<in> set (fst acc'). vouched E certs skip rs v"
proof (rule validate_loop.run_invariant [OF assms(1), where keeps = "\<lambda>acc. \<forall>v \<in> set (fst acc). vouched E certs skip rs v"])
  fix r a u a' u'
  assume r: "r \<in> set rs" and a: "\<forall>v \<in> set (fst a). vouched E certs skip rs v"
    and step: "validate_one E certs age skip r a u = (Ok a', u')"
  from validate_one_Ok [OF step] show "\<forall>v \<in> set (fst a'). vouched E certs skip rs v"
    using a r by (auto simp: vouched_def dest!: may_returnI check_valid_may_return)
qed (rule assms(2))

lemma emits_validate_loop [emits_intros]:
  "emits P (validate_unverified_dns_requests E certs age skip rs acc)"
proof (rule validate_loop.run_emits)
  fix r acc
  show "emits P (validate_one E certs age skip r acc)"
    unfolding validate_one_def check_valid_ddns_request_def validate_def check_age_def Let_def
    by (intro emits_intros)
qed

text \<open>
  C35: with \<open>insecure_skip_verify\<close> every request passes, in order, without looking at certificates,
  signatures or the clock.
\<close>

theorem insecure_skip_verify_accepts_all:
  "validate_unverified_dns_requests E certs age True rs (verified, errors) s =
     (Ok (verified @ map to_verified rs, errors), s)"
  by (induction rs arbitrary: verified)
     (simp_all add: validate_one_def io_match_def io_ctx_def check_valid_skip io_bind_def)

section \<open>The changes are what was signed\<close>

lemma build_changes_map: "build_changes vs = map build_change vs"
  by (induction vs) simp_all

lemma fixed_name_dot: "ends_with ''.'' (fixed_name r)"
  by (simp add: fixed_name_def split: record_type.splits)

lemma fixed_name_cases: "fixed_name r = rr_name r \<or> fixed_name r = rr_name r @ ''.''"
  by (simp add: fixed_name_def split: record_type.splits)

lemma fixed_name_base: "without_suffix ''.'' (fixed_name r) = without_suffix ''.'' (rr_name r)"
  by (auto simp: fixed_name_def without_suffix_def ends_with_def starts_with_def strip_prefix_Some_iff
      split: record_type.splits option.splits)

text \<open>
  C17: one change for each verified request, in order; each is an upsert of exactly the record that was
  signed, except that its name ends in a dot: the same domain, fully qualified.
\<close>

theorem build_changes_upserts_signed_records:
  "list_all2 (\<lambda>v ch. action ch = Upsert \<and>
       rr_data (record_set ch) = rr_data (vr_resource_record v) \<and>
       rr_ttl (record_set ch) = rr_ttl (vr_resource_record v) \<and>
       ends_with ''.'' (rr_name (record_set ch)) \<and>
       without_suffix ''.'' (rr_name (record_set ch)) = without_suffix ''.'' (rr_name (vr_resource_record v)))
     vs (build_changes vs)"
  unfolding build_changes_map
  by (induction vs) (simp_all add: build_change_def Let_def fixed_name_dot fixed_name_base)

section \<open>The summary\<close>

fun failure_of :: "event \<Rightarrow> (string \<times> error) list" where
  "failure_of (Ev_Print (Shown_Failure k e)) = [(k, e)]"
| "failure_of e = []"

text \<open>
  \<open>reports m r fs\<close>: \<open>m\<close> only prints; either it returns \<open>r\<close> and has shown the failures \<open>fs\<close> in order, or
  it panics because the standard output refused a line, and has shown the first of them.
\<close>

definition reports :: "('w sys, unit) io \<Rightarrow> unit result \<Rightarrow> (string \<times> error) list \<Rightarrow> bool" where
  "reports m r fs \<longleftrightarrow>
     (\<forall>s. \<exists>out. list_all is_print out \<and>
        (m s = (r, s\<lparr>trace := trace s @ out\<rparr>) \<and> concat (map failure_of out) = fs \<or>
         m s = (Panic stdout_failed, s\<lparr>trace := trace s @ out\<rparr>) \<and>
         prefix (concat (map failure_of out)) fs \<and> (\<exists>line. stdout_refuses s (trace s @ out) line)))"

lemma reports_bind:
  assumes "reports m (Ok ()) fs" and "reports (f ()) r gs"
  shows "reports (io_bind m f) r (fs @ gs)"
  unfolding reports_def
proof
  fix s
  let ?goal = "\<lambda>out. list_all is_print out \<and>
    (io_bind m f s = (r, s\<lparr>trace := trace s @ out\<rparr>) \<and> concat (map failure_of out) = fs @ gs \<or>
     io_bind m f s = (Panic stdout_failed, s\<lparr>trace := trace s @ out\<rparr>) \<and>
     prefix (concat (map failure_of out)) (fs @ gs) \<and> (\<exists>line. stdout_refuses s (trace s @ out) line))"
  from assms(1) consider (shown) o1 where "m s = (Ok (), s\<lparr>trace := trace s @ o1\<rparr>)"
      "list_all is_print o1" "concat (map failure_of o1) = fs"
    | (stopped) o1 line where "m s = (Panic stdout_failed, s\<lparr>trace := trace s @ o1\<rparr>)"
      "list_all is_print o1" "prefix (concat (map failure_of o1)) fs" "stdout_refuses s (trace s @ o1) line"
    unfolding reports_def by metis
  then show "\<exists>out. ?goal out"
  proof cases
    case shown
    let ?u = "s\<lparr>trace := trace s @ o1\<rparr>"
    from assms(2) obtain o2 where o2: "list_all is_print o2"
      "f () ?u = (r, ?u\<lparr>trace := trace ?u @ o2\<rparr>) \<and> concat (map failure_of o2) = gs \<or>
       f () ?u = (Panic stdout_failed, ?u\<lparr>trace := trace ?u @ o2\<rparr>) \<and>
         prefix (concat (map failure_of o2)) gs \<and> (\<exists>line. stdout_refuses ?u (trace ?u @ o2) line)"
      unfolding reports_def by blast
    with shown have "?goal (o1 @ o2)" by (auto simp: io_bind_def)
    then show ?thesis ..
  next
    case stopped
    then have "?goal o1" by (auto simp: io_bind_def prefix_def)
    then show ?thesis ..
  qed
qed

lemma reports_print: "reports (print v) (Ok ()) (failure_of (Ev_Print v))"
  unfolding reports_def
proof
  fix s :: "'a sys"
  let ?out = "if stdout_refuses s (trace s) v then [] else [Ev_Print v]"
  show "\<exists>out. list_all is_print out \<and>
      (print v s = (Ok (), s\<lparr>trace := trace s @ out\<rparr>) \<and> concat (map failure_of out) = failure_of (Ev_Print v) \<or>
       print v s = (Panic stdout_failed, s\<lparr>trace := trace s @ out\<rparr>) \<and>
       prefix (concat (map failure_of out)) (failure_of (Ev_Print v)) \<and>
       (\<exists>line. stdout_refuses s (trace s @ out) line))"
    by (intro exI [of _ ?out]) (auto simp: print_def)
qed

lemma reports_line: "reports (print (Line l)) (Ok ()) []"
  using reports_print [of "Line l"] by simp

lemma reports_result: "reports (io_lift r) r []"
  unfolding reports_def
proof
  fix s :: "'a sys"
  show "\<exists>out. list_all is_print out \<and>
      (io_lift r s = (r, s\<lparr>trace := trace s @ out\<rparr>) \<and> concat (map failure_of out) = [] \<or>
       io_lift r s = (Panic stdout_failed, s\<lparr>trace := trace s @ out\<rparr>) \<and>
       prefix (concat (map failure_of out)) [] \<and> (\<exists>line. stdout_refuses s (trace s @ out) line))"
    by (intro exI [of _ "[]"]) simp
qed

lemma reports_ret: "reports (io_ret ()) (Ok ()) []"
proof -
  have "io_ret () = (io_lift (Ok ()) :: ('a sys, unit) io)" by (simp add: fun_eq_iff io_ret_def io_lift_def)
  then show ?thesis using reports_result by metis
qed

lemma reports_print_all: "reports (print_all (map (\<lambda>(k, e). Shown_Failure k e) fails)) (Ok ()) fails"
proof (induction fails)
  case Nil
  then show ?case using reports_ret by (simp only: list.map print_all.simps)
next
  case (Cons f fails)
  obtain k e where f: "f = (k, e)" by (cases f)
  from reports_bind [OF reports_print [of "Shown_Failure k e"], of "\<lambda>_. print_all (map (\<lambda>(k, e). Shown_Failure k e) fails)"]
    Cons show ?case by (simp add: f)
qed

lemma reports_failures: "reports (print_failures title fails) (Ok ()) fails"
proof (cases "fails = []")
  case True
  then have "print_failures title fails = (io_ret () :: ('w sys, unit) io)" by (simp add: print_failures_def)
  with reports_ret True show ?thesis by metis
next
  case False
  have "reports (io_bind (print (Line title)) (\<lambda>_. print_all (map (\<lambda>(k, e). Shown_Failure k e) fails)))
      (Ok ()) ([] @ fails)"
    by (rule reports_bind [OF reports_line reports_print_all])
  then show ?thesis by (simp add: print_failures_def False)
qed

definition all_failures :: "server_errors \<Rightarrow> (string \<times> error) list" where
  "all_failures e = by_key (failed_s3_fetches e) @ by_key (failed_json_parses e) @ failed_key_parses e @
     failed_signature_checks e @ by_key (failed_s3_deletions e)"

lemma has_errors_all_failures: "has_errors e \<longleftrightarrow> all_failures e \<noteq> []"
  by (auto simp: has_errors_def all_failures_def by_key_def)

definition summary_result :: "server_errors \<Rightarrow> unit result" where
  "summary_result e =
     (if has_errors e then Err (Bail ''errors occurred while executing this dyndynser run'') else Ok ())"

lemma print_summary_reports: "reports (print_summary e) (summary_result e) (all_failures e)"
proof (cases "has_errors e")
  case True
  have "reports (print_summary e) (Err (Bail ''errors occurred while executing this dyndynser run''))
      ([] @ by_key (failed_s3_fetches e) @ by_key (failed_json_parses e) @ failed_key_parses e @
       failed_signature_checks e @ by_key (failed_s3_deletions e) @ [])"
    unfolding print_summary_def if_P [OF True]
    by (intro reports_bind reports_line reports_failures reports_result)
  with True show ?thesis by (simp add: all_failures_def summary_result_def)
next
  case False
  then have "all_failures e = []" by (simp add: has_errors_all_failures)
  moreover have "reports (print_summary e) (Ok ()) ([] @ [])"
    unfolding print_summary_def if_not_P [OF False] by (intro reports_bind reports_line)
  ultimately show ?thesis using False by (simp add: summary_result_def)
qed

text \<open>
  C24: the summary only prints. Unless the standard output refuses a line, it shows every failure of the
  run, each once and in the order of the five lists, and its result is an error exactly when there was
  a failure; where a line is refused, it panics there, and has shown the failures before it.
\<close>

theorem print_summary_shows_all_failures:
  "(\<exists>out. list_all is_print out \<and>
      (print_summary e s = (summary_result e, s\<lparr>trace := trace s @ out\<rparr>) \<and>
         concat (map failure_of out) = all_failures e \<or>
       print_summary e s = (Panic stdout_failed, s\<lparr>trace := trace s @ out\<rparr>) \<and>
         prefix (concat (map failure_of out)) (all_failures e) \<and>
         (\<exists>line. stdout_refuses s (trace s @ out) line))) \<and>
   (is_ok (summary_result e) \<longleftrightarrow> all_failures e = [])"
  using spec [OF print_summary_reports [of e, unfolded reports_def], of s]
  by (auto simp: summary_result_def has_errors_all_failures)

end
