(* ===== verification/Server_Io.thy ===== *)
theory Server_Io
  imports Server_Check
begin

text \<open>
  \<open>src/server.rs\<close>, the parts that talk to S3, the file system and Route 53: reading the requests page
  by page, loading the certificates, committing the changes, deleting what was handled.
\<close>

section \<open>Computations that may run forever\<close>

text \<open>\<open>None\<close>: the loop never ends.\<close>

type_synonym ('s, 'a) looping = "'s \<Rightarrow> ('a result \<times> 's) option"

definition lo_once :: "('s, 'a) io \<Rightarrow> ('s, 'a) looping" where
  "lo_once m s = Some (m s)"

definition lo_bind :: "('s, 'a) looping \<Rightarrow> ('a \<Rightarrow> ('s, 'b) looping) \<Rightarrow> ('s, 'b) looping" where
  "lo_bind m f s =
     (case m s of
        None \<Rightarrow> None
      | Some (Ok x, t) \<Rightarrow> f x t
      | Some (Err e, t) \<Rightarrow> Some (Err e, t)
      | Some (Panic p, t) \<Rightarrow> Some (Panic p, t))"

definition lo_ctx :: "string \<Rightarrow> ('s, 'a) looping \<Rightarrow> ('s, 'a) looping" where
  "lo_ctx msg m s = (case m s of None \<Rightarrow> None | Some (r, t) \<Rightarrow> Some (ctx msg r, t))"

section \<open>The bucket\<close>

definition get_s3_bucket :: "('k, 'b, 'w) env \<Rightarrow> config_server \<Rightarrow> aws_credentials \<Rightarrow> 'b result" where
  "get_s3_bucket E conf creds =
     and_then (ctx ''invalid AWS region found during S3 write''
        (ok_or (External ''region'') (parse_region (e_s3 E) (region (cs_aws_config conf))))) (\<lambda>rg.
     ctx ''failed to retrieve s3 credentials''
       (ok_or (External ''s3'') (bucket_new (e_s3 E) (cs_s3_queue_bucket conf) rg creds)))"

section \<open>Fetching the requests\<close>

text \<open>One key of a page.\<close>

definition fetch_object ::
  "('k, 'b, 'w) env \<Rightarrow> 'b \<Rightarrow> string \<Rightarrow> unverified_request list \<times> server_errors \<Rightarrow>
     ('w sys, unverified_request list \<times> server_errors) io" where
  "fetch_object E b key acc =
     (case acc of (reqs, errors) \<Rightarrow>
        if \<not> ends_with ddns_json_file_ext key then io_ret (reqs, errors)
        else io_match (perform (Ev_Get_Object key) (s3_get_object (e_s3 E) b key))
          (\<lambda>response_data.
             io_match (io_lift (signed_payload_from_slice (e_hex E) (e_json E) record_set_of_json response_data))
               (\<lambda>ddnsjson. io_ret (reqs @ [\<lparr>ur_signed_payload = ddnsjson, ur_s3_key = S3_Key key\<rparr>], errors))
               (\<lambda>e. io_ret (reqs, errors\<lparr>failed_json_parses := failed_json_parses errors @
                  [(S3_Key key, Context ''failed to deserialize into a DdnsJson object'' e)]\<rparr>)))
          (\<lambda>e. io_ret (reqs, errors\<lparr>failed_s3_fetches := failed_s3_fetches errors @
             [(S3_Key key, Context ''failed to Get S3 Object'' e)]\<rparr>)))"

fun fetch_objects ::
  "('k, 'b, 'w) env \<Rightarrow> 'b \<Rightarrow> string list \<Rightarrow> unverified_request list \<times> server_errors \<Rightarrow>
     ('w sys, unverified_request list \<times> server_errors) io" where
  "fetch_objects E b [] acc = io_ret acc"
| "fetch_objects E b (k # ks) acc = io_bind (fetch_object E b k acc) (fetch_objects E b ks)"

text \<open>One page: the token of the next one, and what was collected.\<close>

definition fetch_page ::
  "('k, 'b, 'w) env \<Rightarrow> config_server \<Rightarrow> 'b \<Rightarrow> string option \<Rightarrow> unverified_request list \<times> server_errors \<Rightarrow>
     ('w sys, string option \<times> unverified_request list \<times> server_errors) io" where
  "fetch_page E conf b tok acc =
     (let dir = cs_s3_ddns_json_directory conf in
      io_bind (io_ctx ''failed to list contents of s3 bucket''
        (perform (Ev_List_Page dir ''/'' tok) (s3_list_page (e_s3 E) b dir (Some ''/'') tok))) (\<lambda>list_result.
      io_bind (fetch_objects E b (page_keys list_result) acc) (\<lambda>acc'.
      io_ret (next_continuation_token list_result, acc'))))"

partial_function (option) fetch_pages ::
  "('k, 'b, 'w) env \<Rightarrow> config_server \<Rightarrow> 'b \<Rightarrow> string option \<Rightarrow> unverified_request list \<times> server_errors \<Rightarrow>
     'w sys \<Rightarrow> ((unverified_request list \<times> server_errors) result \<times> 'w sys) option" where
  "fetch_pages E conf b tok acc s =
     (case fetch_page E conf b tok acc s of
        (Ok (next_tok, acc'), t) \<Rightarrow>
          (case next_tok of
             Some token \<Rightarrow> fetch_pages E conf b (Some token) acc' t
           | None \<Rightarrow> Some (Ok acc', t))
      | (Err e, t) \<Rightarrow> Some (Err e, t)
      | (Panic p, t) \<Rightarrow> Some (Panic p, t))"

declare fetch_pages.simps [code]

definition fetch_ddns_jsons_from_s3 ::
  "('k, 'b, 'w) env \<Rightarrow> config_server \<Rightarrow> aws_credentials \<Rightarrow>
     ('w sys, unverified_request list \<times> server_errors) looping" where
  "fetch_ddns_jsons_from_s3 E conf creds =
     lo_bind (lo_once (io_lift (ctx ''failed to get S3 bucket'' (get_s3_bucket E conf creds)))) (\<lambda>bucket.
     lo_bind (lo_once (print (Line (''Querying Bucket: '' @ cs_s3_queue_bucket conf @ ''/'' @
        cs_s3_ddns_json_directory conf)))) (\<lambda>_.
     fetch_pages E conf bucket None ([], server_errors_new)))"

section \<open>The certificates\<close>

text \<open>\<open>Path::extension\<close> of a file name, and \<open>Path::join\<close>.\<close>

definition path_extension :: "string \<Rightarrow> string option" where
  "path_extension n =
     (let ext = rev (takeWhile (\<lambda>c. c \<noteq> CHR ''.'') (rev n));
          stem = rev (drop 1 (dropWhile (\<lambda>c. c \<noteq> CHR ''.'') (rev n)))
      in if n = ''..'' \<or> CHR ''.'' \<notin> set n \<or> stem = [] then None else Some ext)"

definition path_join :: "string \<Rightarrow> string \<Rightarrow> string" where
  "path_join dir n = (if dir = [] \<or> ends_with ''/'' dir then dir @ n else dir @ ''/'' @ n)"

definition is_cert_entry :: "dir_entry \<Rightarrow> bool" where
  "is_cert_entry entry \<longleftrightarrow>
     (case entry_is_file entry of None \<Rightarrow> False | Some b \<Rightarrow> b) \<and>
     (case path_extension (entry_name entry) of None \<Rightarrow> False | Some ext \<Rightarrow> ext = public_cert_ext)"

text \<open>\<open>filter_map(|entry| entry.ok())\<close> and the filter on files and extensions.\<close>

definition cert_entries :: "(io_kind + dir_entry) list \<Rightarrow> dir_entry list" where
  "cert_entries entries = filter is_cert_entry (concat (map (case_sum (\<lambda>_. []) (\<lambda>e. [e])) entries))"

definition key_map_one ::
  "('k, 'b, 'w) env \<Rightarrow> string \<Rightarrow> dir_entry \<Rightarrow> cert_match list \<times> server_errors \<Rightarrow>
     ('w sys, cert_match list \<times> server_errors) io" where
  "key_map_one E dir entry acc =
     (case acc of (v, errors) \<Rightarrow>
        io_bind (io_ctx ''invalid key_path''
          (read_file_limited (e_fs E) (path_join dir (entry_name entry)) file_size_max_bytes)) (\<lambda>fbytes.
        io_match (io_lift (ctx ''failed to load an x509 certificate from bytes''
            (load_ed25519_certificate_pem (e_x509 E) (e_dalek E) fbytes)))
          (\<lambda>crt. io_ret (v @ [crt], errors))
          (\<lambda>e. io_ret (v, errors\<lparr>failed_key_parses := failed_key_parses errors @
             [(from_utf8_lossy (entry_name entry), e)]\<rparr>))))"

fun key_map_loop ::
  "('k, 'b, 'w) env \<Rightarrow> string \<Rightarrow> dir_entry list \<Rightarrow> cert_match list \<times> server_errors \<Rightarrow>
     ('w sys, cert_match list \<times> server_errors) io" where
  "key_map_loop E dir [] acc = io_ret acc"
| "key_map_loop E dir (x # xs) acc = io_bind (key_map_one E dir x acc) (key_map_loop E dir xs)"

definition get_public_key_map ::
  "('k, 'b, 'w) env \<Rightarrow> config_server \<Rightarrow> server_errors \<Rightarrow> ('w sys, cert_match list \<times> server_errors) io" where
  "get_public_key_map E conf errors =
     (let dir = cs_keys_search_path conf in
      io_bind (io_ctx ''failed to read known key search path''
        (perform (Ev_Read_Dir dir) (\<lambda>w. case fs_read_dir (e_fs E) dir w of
           (Inl k, w') \<Rightarrow> (Err (Io k), w') | (Inr entries, w') \<Rightarrow> (Ok entries, w')))) (\<lambda>entries.
      key_map_loop E dir (cert_entries entries) ([], errors)))"

section \<open>Committing and cleaning up\<close>

definition commit_changes ::
  "('k, 'b, 'w) env \<Rightarrow> config_server \<Rightarrow> aws_credentials \<Rightarrow> change list \<Rightarrow> ('w sys, change_info) io" where
  "commit_changes E conf creds changes =
     io_bind (io_ctx ''failed to construct a Route53 Client'' (from_s3_credentials (e_http E) creds)) (\<lambda>client.
     io_ctx ''failed to issue a Route53 update''
       (change_resource_record_sets (e_sigv4 E) (e_http E) client (cs_hosted_dns_zone_id conf)
         (Some ''Updated via dyndynser'') changes))"

definition cleanup_one ::
  "('k, 'b, 'w) env \<Rightarrow> 'b \<Rightarrow> s3_key \<Rightarrow> server_errors \<Rightarrow> ('w sys, server_errors) io" where
  "cleanup_one E b key errors =
     io_match (io_ctx ''failed to delete S3 Key''
         (perform (Ev_Delete_Object (key_text key)) (s3_delete_object (e_s3 E) b (key_text key))))
       (\<lambda>status.
          if status < 200 \<or> 300 \<le> status then
            io_bind (print (Line (''Failed to S3 bucket item '' @ key_text key))) (\<lambda>_.
            io_ret (errors\<lparr>failed_s3_deletions := failed_s3_deletions errors @
              [(key, Bail (''got non-200 status code: '' @ fmt_dec status))]\<rparr>))
          else io_ret errors)
       (\<lambda>e. io_ret (errors\<lparr>failed_s3_deletions := failed_s3_deletions errors @ [(key, e)]\<rparr>))"

fun cleanup_loop ::
  "('k, 'b, 'w) env \<Rightarrow> 'b \<Rightarrow> s3_key list \<Rightarrow> server_errors \<Rightarrow> ('w sys, server_errors) io" where
  "cleanup_loop E b [] errors = io_ret errors"
| "cleanup_loop E b (k # ks) errors = io_bind (cleanup_one E b k errors) (cleanup_loop E b ks)"

definition cleanup ::
  "('k, 'b, 'w) env \<Rightarrow> config_server \<Rightarrow> aws_credentials \<Rightarrow> s3_key list \<Rightarrow> server_errors \<Rightarrow>
     ('w sys, server_errors) io" where
  "cleanup E conf creds s3_keys errors =
     io_bind (io_lift (ctx ''failed to get S3 bucket'' (get_s3_bucket E conf creds))) (\<lambda>bucket.
     cleanup_loop E bucket s3_keys errors)"

section \<open>The loops\<close>

lemma fetch_object_Ok:
  assumes "fetch_object E b key acc s = (Ok acc', t)"
  shows "acc' = acc \<and> \<not> ends_with ddns_json_file_ext key \<and> t = s \<or>
    ends_with ddns_json_file_ext key \<and>
    ((\<exists>bs w sp. s3_get_object (e_s3 E) b key (world s) = (Ok bs, w) \<and>
        signed_payload_from_slice (e_hex E) (e_json E) record_set_of_json bs = Ok sp \<and>
        acc' = (fst acc @ [\<lparr>ur_signed_payload = sp, ur_s3_key = S3_Key key\<rparr>], snd acc)) \<or>
     (\<exists>e. acc' = (fst acc, (snd acc)\<lparr>failed_json_parses := failed_json_parses (snd acc) @ [(S3_Key key, e)]\<rparr>)) \<or>
     (\<exists>e. acc' = (fst acc, (snd acc)\<lparr>failed_s3_fetches := failed_s3_fetches (snd acc) @ [(S3_Key key, e)]\<rparr>)))"
proof (cases "ends_with ddns_json_file_ext key")
  case False
  with assms show ?thesis by (cases acc) (simp add: fetch_object_def)
next
  case True
  with assms show ?thesis
    by (cases acc) (fastforce simp: fetch_object_def io_match_Ok_iff perform_Ok_iff)
qed

interpretation fetch_loop: world_loop "fetch_object E b" "fetch_objects E b" acc_ext for E b
proof unfold_locales
  fix key acc acc' and s t :: "'c sys"
  assume "fetch_object E b key acc s = (Ok acc', t)"
  from fetch_object_Ok [OF this] show "acc_ext acc acc'" by (auto simp: acc_ext_def)
qed (auto intro: acc_ext_trans)

lemma key_map_one_Ok:
  assumes "key_map_one E dir entry acc s = (Ok acc', t)"
  obtains fbytes u where "read_file_limited (e_fs E) (path_join dir (entry_name entry)) file_size_max_bytes s = (Ok fbytes, u)"
    and "(\<exists>crt. load_ed25519_certificate_pem (e_x509 E) (e_dalek E) fbytes = Ok crt \<and>
           acc' = (fst acc @ [crt], snd acc)) \<or>
         (\<exists>e. acc' = (fst acc, (snd acc)\<lparr>failed_key_parses := failed_key_parses (snd acc) @
           [(from_utf8_lossy (entry_name entry), e)]\<rparr>))"
  using assms
  by (cases acc) (fastforce simp: key_map_one_def io_bind_Ok_iff io_ctx_Ok_iff io_match_Ok_iff ctx_Ok_iff)

interpretation key_loop: world_loop "key_map_one E dir" "key_map_loop E dir" acc_ext for E dir
proof unfold_locales
  fix entry acc acc' and s t :: "'c sys"
  assume "key_map_one E dir entry acc s = (Ok acc', t)"
  then show "acc_ext acc acc'" by (rule key_map_one_Ok) (auto simp: acc_ext_def)
qed (auto intro: acc_ext_trans)

lemma cleanup_one_Ok:
  "cleanup_one E b key errors s = (Ok errors', t) \<Longrightarrow>
     (errors' = errors \<and> (\<exists>status w. s3_delete_object (e_s3 E) b (key_text key) (world s) = (Ok status, w) \<and>
        200 \<le> status \<and> status < 300)) \<or>
     (\<exists>e. errors' = errors\<lparr>failed_s3_deletions := failed_s3_deletions errors @ [(key, e)]\<rparr>)"
  by (fastforce simp: cleanup_one_def io_match_Ok_iff io_ctx_Ok_iff perform_Ok_iff io_bind_Ok_iff
      split: if_splits)

interpretation cleanup_loop: world_loop "cleanup_one E b" "cleanup_loop E b" errors_ext for E b
proof unfold_locales
  fix key errors errors' and s t :: "'c sys"
  assume "cleanup_one E b key errors s = (Ok errors', t)"
  from cleanup_one_Ok [OF this] show "errors_ext errors errors'" by auto
qed (auto intro: errors_ext_trans)

section \<open>Which events\<close>

lemma emits_fetch_objects [emits_intros]:
  assumes "\<And>e. is_s3_read e \<Longrightarrow> P e"
  shows "emits P (fetch_objects E b ks acc)"
proof (rule fetch_loop.run_emits)
  fix k acc
  show "emits P (fetch_object E b k acc)"
    unfolding fetch_object_def by (intro emits_intros) (simp_all add: assms)
qed

lemma emits_fetch_page [emits_intros]:
  assumes "\<And>e. is_s3_read e \<Longrightarrow> P e"
  shows "emits P (fetch_page E conf b tok acc)"
  unfolding fetch_page_def Let_def by (intro emits_intros) (simp_all add: assms)

text \<open>A page only gets objects that were listed on it.\<close>

lemma emits_fetch_page_listed:
  assumes "\<And>t. P (Ev_List_Page (cs_s3_ddns_json_directory conf) ''/'' t)"
    and "\<And>tok w page w' k. s3_list_page (e_s3 E) b (cs_s3_ddns_json_directory conf) (Some ''/'') tok w = (Ok page, w') \<Longrightarrow>
      k \<in> set (page_keys page) \<Longrightarrow> P (Ev_Get_Object k)"
  shows "emits P (fetch_page E conf b tok acc)"
proof -
  let ?list = "perform (Ev_List_Page (cs_s3_ddns_json_directory conf) ''/'' tok)
    (s3_list_page (e_s3 E) b (cs_s3_ddns_json_directory conf) (Some ''/'') tok)"
  have keys: "emits P (fetch_objects E b (page_keys page) acc)"
    if "may_return (io_ctx msg ?list) page" for page acc msg
  proof (rule fetch_loop.run_emits)
    fix k acc assume "k \<in> set (page_keys page)"
    moreover from that obtain w w' where
      "s3_list_page (e_s3 E) b (cs_s3_ddns_json_directory conf) (Some ''/'') tok w = (Ok page, w')"
      by (auto simp: may_return_def io_ctx_Ok_iff perform_Ok_iff)
    ultimately have "P (Ev_Get_Object k)" using assms(2) by blast
    then show "emits P (fetch_object E b k acc)"
      unfolding fetch_object_def by (intro emits_intros)
  qed
  show ?thesis
    unfolding fetch_page_def Let_def
    by (intro emits_bind_returned [of _ "io_ctx _ _"] emits_intros keys assms(1))
qed

lemma emits_get_public_key_map [emits_intros]:
  assumes "\<And>e. is_file_call e \<Longrightarrow> P e"
  shows "emits P (get_public_key_map E conf errors)"
proof -
  have one: "emits P (key_map_one E dir x acc)" for dir x acc
    unfolding key_map_one_def by (intro emits_intros assms)
  have "emits P (key_map_loop E dir xs acc)" for dir xs acc
    by (rule key_loop.run_emits) (rule one)
  then show ?thesis
    unfolding get_public_key_map_def Let_def
    by (intro emits_intros assms) (simp_all add: is_file_call_def)
qed

lemma emits_cleanup_loop:
  assumes "\<And>k. k \<in> set keys \<Longrightarrow> P (Ev_Delete_Object (key_text k))" and "\<And>e. is_print e \<Longrightarrow> P e"
  shows "emits P (cleanup_loop E b keys errors)"
proof (rule cleanup_loop.run_emits)
  fix k errors
  assume "k \<in> set keys"
  then show "emits P (cleanup_one E b k errors)"
    unfolding cleanup_one_def by (intro emits_intros) (simp_all add: assms)
qed

section \<open>Reading all pages\<close>

text \<open>
  A run over the pages as a relation: \<open>page_run E conf b tok acc s pages acc' t\<close> when listing from the
  token \<open>tok\<close> answers the pages \<open>pages\<close>, the last of which has no token.
\<close>

inductive page_run ::
  "('k, 'b, 'w) env \<Rightarrow> config_server \<Rightarrow> 'b \<Rightarrow> string option \<Rightarrow> unverified_request list \<times> server_errors \<Rightarrow>
     'w sys \<Rightarrow> list_page list \<Rightarrow> unverified_request list \<times> server_errors \<Rightarrow> 'w sys \<Rightarrow> bool"
  for E :: "('k, 'b, 'w) env" and conf :: config_server and b :: 'b where
  last_page: "perform (Ev_List_Page (cs_s3_ddns_json_directory conf) ''/'' tok)
      (s3_list_page (e_s3 E) b (cs_s3_ddns_json_directory conf) (Some ''/'') tok) s = (Ok page, s1) \<Longrightarrow>
    fetch_objects E b (page_keys page) acc s1 = (Ok acc', t) \<Longrightarrow>
    next_continuation_token page = None \<Longrightarrow>
    page_run E conf b tok acc s [page] acc' t"
| more_pages: "perform (Ev_List_Page (cs_s3_ddns_json_directory conf) ''/'' tok)
      (s3_list_page (e_s3 E) b (cs_s3_ddns_json_directory conf) (Some ''/'') tok) s = (Ok page, s1) \<Longrightarrow>
    fetch_objects E b (page_keys page) acc s1 = (Ok acc1, s2) \<Longrightarrow>
    next_continuation_token page = Some token \<Longrightarrow>
    page_run E conf b (Some token) acc1 s2 pages acc' t \<Longrightarrow>
    page_run E conf b tok acc s (page # pages) acc' t"

lemma fetch_page_Ok:
  "fetch_page E conf b tok acc s = (Ok (nxt, acc'), t) \<longleftrightarrow>
     (\<exists>page s1. perform (Ev_List_Page (cs_s3_ddns_json_directory conf) ''/'' tok)
        (s3_list_page (e_s3 E) b (cs_s3_ddns_json_directory conf) (Some ''/'') tok) s = (Ok page, s1) \<and>
      fetch_objects E b (page_keys page) acc s1 = (Ok acc', t) \<and> nxt = next_continuation_token page)"
  unfolding fetch_page_def Let_def by (cases acc') (fastforce simp: io_bind_Ok_iff io_ctx_Ok_iff)

lemma fetch_pages_to_run:
  assumes "fetch_pages E conf b tok acc s = Some y"
  shows "\<forall>acc' t. y = (Ok acc', t) \<longrightarrow> (\<exists>pages. page_run E conf b tok acc s pages acc' t)"
proof (rule fetch_pages.raw_induct [OF _ assms,
      where P = "\<lambda>E conf b tok acc s y. \<forall>acc' t. y = (Ok acc', t) \<longrightarrow> (\<exists>pages. page_run E conf b tok acc s pages acc' t)"])
  fix rec E conf b tok acc s y
  assume IH: "\<And>E conf b tok acc s y. rec E conf b tok acc s = Some y \<Longrightarrow>
      \<forall>acc' t. y = (Ok acc', t) \<longrightarrow> (\<exists>pages. page_run E conf b tok acc s pages acc' t)"
    and body: "(case fetch_page E conf b tok acc s of
        (Ok (next_tok, acc'), t) \<Rightarrow>
          (case next_tok of Some token \<Rightarrow> rec E conf b (Some token) acc' t | None \<Rightarrow> Some (Ok acc', t))
      | (Err e, t) \<Rightarrow> Some (Err e, t)
      | (Panic p, t) \<Rightarrow> Some (Panic p, t)) = Some y"
  show "\<forall>acc' t. y = (Ok acc', t) \<longrightarrow> (\<exists>pages. page_run E conf b tok acc s pages acc' t)"
  proof (intro allI impI)
    fix acc' t
    assume y: "y = (Ok acc', t)"
    obtain res u where page: "fetch_page E conf b tok acc s = (res, u)"
      by (cases "fetch_page E conf b tok acc s")
    from body page y obtain nxt acc1 where res: "res = Ok (nxt, acc1)"
      by (cases res) (auto split: prod.splits)
    from page res obtain pg s1 where pg: "perform (Ev_List_Page (cs_s3_ddns_json_directory conf) ''/'' tok)
          (s3_list_page (e_s3 E) b (cs_s3_ddns_json_directory conf) (Some ''/'') tok) s = (Ok pg, s1)"
        "fetch_objects E b (page_keys pg) acc s1 = (Ok acc1, u)" "nxt = next_continuation_token pg"
      by (auto simp: fetch_page_Ok)
    show "\<exists>pages. page_run E conf b tok acc s pages acc' t"
    proof (cases nxt)
      case None
      with body page res y have "acc1 = acc'" "u = t" by auto
      with pg None show ?thesis by (metis last_page)
    next
      case (Some token)
      with body page res y have "rec E conf b (Some token) acc1 u = Some (Ok acc', t)" by simp
      with IH pg Some show ?thesis by (metis more_pages)
    qed
  qed
qed

lemma fetch_pages_of_run:
  "page_run E conf b tok acc s pages acc' t \<Longrightarrow> fetch_pages E conf b tok acc s = Some (Ok acc', t)"
proof (induction rule: page_run.induct)
  case (last_page tok s page s1 acc acc' t)
  then have "fetch_page E conf b tok acc s = (Ok (None, acc'), t)" by (auto simp: fetch_page_Ok)
  then show ?case by (subst fetch_pages.simps) simp
next
  case (more_pages tok s page s1 acc acc1 s2 token pages acc' t)
  then have "fetch_page E conf b tok acc s = (Ok (Some token, acc1), s2)" by (auto simp: fetch_page_Ok)
  with more_pages.IH show ?case by (subst fetch_pages.simps) simp
qed

section \<open>What is collected, and that nothing is skipped\<close>

text \<open>Where a request comes from: an object of the bucket under a request key, read as JSON.\<close>

definition origin :: "('k, 'b, 'w) env \<Rightarrow> unverified_request \<Rightarrow> bool" where
  "origin E r \<longleftrightarrow>
     ends_with ddns_json_file_ext (key_text (ur_s3_key r)) \<and>
     (\<exists>b w w' bs. s3_get_object (e_s3 E) b (key_text (ur_s3_key r)) w = (Ok bs, w') \<and>
        signed_payload_from_slice (e_hex E) (e_json E) record_set_of_json bs = Ok (ur_signed_payload r))"

definition request_keyed :: "(s3_key \<times> error) list \<Rightarrow> bool" where
  "request_keyed fails \<longleftrightarrow> (\<forall>(k, e) \<in> set fails. ends_with ddns_json_file_ext (key_text k))"

definition collected :: "('k, 'b, 'w) env \<Rightarrow> unverified_request list \<times> server_errors \<Rightarrow> bool" where
  "collected E acc \<longleftrightarrow>
     (\<forall>r \<in> set (fst acc). origin E r) \<and>
     request_keyed (failed_s3_fetches (snd acc)) \<and> request_keyed (failed_json_parses (snd acc))"

text \<open>A key is handled when it is the key of a request, of a failed fetch or of a failed parse.\<close>

definition handled :: "unverified_request list \<times> server_errors \<Rightarrow> string \<Rightarrow> bool" where
  "handled acc k \<longleftrightarrow>
     S3_Key k \<in> set (map ur_s3_key (fst acc) @ map fst (failed_s3_fetches (snd acc)) @
       map fst (failed_json_parses (snd acc)))"

lemma handled_ext: "acc_ext acc acc' \<Longrightarrow> handled acc k \<Longrightarrow> handled acc' k"
  by (auto simp: acc_ext_def errors_ext_def handled_def prefix_def)

lemma fetch_object_handles:
  "fetch_object E b k acc s = (Ok acc', t) \<Longrightarrow> ends_with ddns_json_file_ext k \<Longrightarrow> handled acc' k"
  by (drule fetch_object_Ok) (auto simp: handled_def)

lemma fetch_object_collects:
  "fetch_object E b k acc s = (Ok acc', t) \<Longrightarrow> collected E acc \<Longrightarrow> collected E acc'"
  by (drule fetch_object_Ok) (auto simp: collected_def request_keyed_def origin_def; blast)

lemma fetch_objects_handles:
  assumes "fetch_objects E b ks acc s = (Ok acc', t)" and "k \<in> set ks" and "ends_with ddns_json_file_ext k"
  shows "handled acc' k"
proof -
  from fetch_loop.run_covers [OF assms(1,2)] obtain a u a' u'
    where "fetch_object E b k a u = (Ok a', u')" "acc_ext a' acc'" by blast
  from handled_ext [OF this(2) fetch_object_handles [OF this(1) assms(3)]] show ?thesis .
qed

lemma fetch_objects_collects:
  "fetch_objects E b ks acc s = (Ok acc', t) \<Longrightarrow> collected E acc \<Longrightarrow> collected E acc'"
  by (erule fetch_loop.run_invariant) (auto dest: fetch_object_collects)

lemma page_run_ext: "page_run E conf b tok acc s pages acc' t \<Longrightarrow> acc_ext acc acc'"
  by (induction rule: page_run.induct) (auto dest!: fetch_loop.run_ext intro: acc_ext_trans)

lemma page_run_collects:
  "page_run E conf b tok acc s pages acc' t \<Longrightarrow> collected E acc \<Longrightarrow> collected E acc'"
  by (induction rule: page_run.induct) (auto dest: fetch_objects_collects)

lemma page_run_handles:
  "page_run E conf b tok acc s pages acc' t \<Longrightarrow> page \<in> set pages \<Longrightarrow> k \<in> set (page_keys page) \<Longrightarrow>
     ends_with ddns_json_file_ext k \<Longrightarrow> handled acc' k"
proof (induction rule: page_run.induct)
  case (last_page tok s pg s1 acc acc' t)
  then have "k \<in> set (page_keys pg)" by simp
  from fetch_objects_handles [OF last_page(2) this] last_page show ?case by blast
next
  case (more_pages tok s pg s1 acc acc1 s2 token pages acc' t)
  show ?case
  proof (cases "page = pg")
    case True
    with more_pages.prems have "k \<in> set (page_keys pg)" by simp
    from fetch_objects_handles [OF more_pages.hyps(2) this] more_pages.prems have "handled acc1 k" by blast
    with page_run_ext [OF more_pages.hyps(4)] show ?thesis by (rule handled_ext)
  next
    case False
    with more_pages.prems more_pages.IH show ?thesis by simp
  qed
qed

lemma page_run_last: "page_run E conf b tok acc s pages acc' t \<Longrightarrow>
  pages \<noteq> [] \<and> next_continuation_token (last pages) = None"
  by (induction rule: page_run.induct) auto

text \<open>
  C7: when reading the bucket ends, it has listed pages up to one without a token; every key on them
  that is a request file is now a request or a recorded failure, and every request was read as JSON
  from an object with such a key.
\<close>

theorem fetch_pages_handles_every_request_file:
  assumes "fetch_pages E conf b None ([], server_errors_new) s = Some (Ok acc, t)"
  shows "\<exists>pages. page_run E conf b None ([], server_errors_new) s pages acc t \<and>
    next_continuation_token (last pages) = None \<and>
    (\<forall>page \<in> set pages. \<forall>k \<in> set (page_keys page). ends_with ddns_json_file_ext k \<longrightarrow> handled acc k) \<and>
    collected E acc"
proof -
  from fetch_pages_to_run [OF assms] obtain pages
    where run: "page_run E conf b None ([], server_errors_new) s pages acc t" by blast
  have "collected E ([], server_errors_new)"
    by (simp add: collected_def server_errors_new_def request_keyed_def)
  with page_run_collects [OF run] have "collected E acc" by blast
  with run page_run_last [OF run] page_run_handles [OF run] show ?thesis by blast
qed

section \<open>The pages end\<close>

text \<open>
  S3 documents a continuation token as the way to the next part of one finite listing: \<open>left\<close> bounds
  how many pages may follow a token.
\<close>

definition tokens_progress :: "('b, 'w) s3_calls \<Rightarrow> 'b \<Rightarrow> string \<Rightarrow> (string option \<Rightarrow> nat) \<Rightarrow> bool" where
  "tokens_progress S b dir left \<longleftrightarrow>
     (\<forall>tok w page w' token. s3_list_page S b dir (Some ''/'') tok w = (Ok page, w') \<longrightarrow>
        next_continuation_token page = Some token \<longrightarrow> left (Some token) < left tok)"

lemma fetch_pages_ends:
  assumes "tokens_progress (e_s3 E) b (cs_s3_ddns_json_directory conf) left"
  shows "fetch_pages E conf b tok acc s \<noteq> None"
proof (induction "left tok" arbitrary: tok acc s rule: less_induct)
  case less
  show ?case
  proof (cases "\<exists>token acc1 t. fetch_page E conf b tok acc s = (Ok (Some token, acc1), t)")
    case True
    then obtain token acc1 t where page: "fetch_page E conf b tok acc s = (Ok (Some token, acc1), t)" by blast
    then obtain pg s1 where "perform (Ev_List_Page (cs_s3_ddns_json_directory conf) ''/'' tok)
        (s3_list_page (e_s3 E) b (cs_s3_ddns_json_directory conf) (Some ''/'') tok) s = (Ok pg, s1)"
      "next_continuation_token pg = Some token" unfolding fetch_page_Ok by metis
    with assms have "left (Some token) < left tok"
      unfolding perform_Ok_iff tokens_progress_def by blast
    from less [OF this] page show ?thesis by (subst fetch_pages.simps) auto
  next
    case False
    then show ?thesis
      by (subst fetch_pages.simps) (auto split: prod.splits result.splits option.splits)
  qed
qed

text \<open>The listing of a page is asked for with the token that the page before it had.\<close>

fun is_list_page :: "event \<Rightarrow> bool" where
  "is_list_page (Ev_List_Page dir delim tok) = True"
| "is_list_page e = False"

lemma fetch_objects_lists_nothing:
  assumes "fetch_objects E b ks acc s = (r, t)"
  shows "\<exists>es. trace t = trace s @ es \<and> filter is_list_page es = []"
proof -
  have "emits (\<lambda>e. \<not> is_list_page e) (fetch_objects E b ks acc)"
    by (rule fetch_loop.run_emits) (unfold fetch_object_def, intro emits_intros, simp)
  from emitsD [OF this assms] show ?thesis by (auto simp: list_all_iff filter_empty_conv)
qed

lemma page_run_lists:
  "page_run E conf b tok acc s pages acc' t \<Longrightarrow>
     \<exists>es. trace t = trace s @ es \<and> filter is_list_page es =
       map (Ev_List_Page (cs_s3_ddns_json_directory conf) ''/'') (tok # map next_continuation_token (butlast pages))"
proof (induction rule: page_run.induct)
  case (last_page tok s page s1 acc acc' t)
  from last_page(1) have "trace s1 = trace s @ [Ev_List_Page (cs_s3_ddns_json_directory conf) ''/'' tok]"
    by (auto simp: perform_Ok_iff)
  moreover from fetch_objects_lists_nothing [OF last_page(2)] obtain es
    where "trace t = trace s1 @ es" "filter is_list_page es = []" by blast
  ultimately show ?case
    by (intro exI [of _ "Ev_List_Page (cs_s3_ddns_json_directory conf) ''/'' tok # es"]) simp
next
  case (more_pages tok s page s1 acc acc1 s2 token pages acc' t)
  from more_pages(1) have "trace s1 = trace s @ [Ev_List_Page (cs_s3_ddns_json_directory conf) ''/'' tok]"
    by (auto simp: perform_Ok_iff)
  moreover from fetch_objects_lists_nothing [OF more_pages(2)] obtain es
    where "trace s2 = trace s1 @ es" "filter is_list_page es = []" by blast
  moreover from more_pages.IH obtain fs where "trace t = trace s2 @ fs" "filter is_list_page fs =
      map (Ev_List_Page (cs_s3_ddns_json_directory conf) ''/'') (Some token # map next_continuation_token (butlast pages))"
    by blast
  moreover have "pages \<noteq> []" using page_run_last [OF more_pages(4)] by blast
  ultimately show ?case using more_pages(3)
    by (intro exI [of _ "Ev_List_Page (cs_s3_ddns_json_directory conf) ''/'' tok # es @ fs"]) simp
qed

lemma page_run_bound:
  assumes "tokens_progress (e_s3 E) b (cs_s3_ddns_json_directory conf) left"
  shows "page_run E conf b tok acc s pages acc' t \<Longrightarrow> length pages \<le> Suc (left tok)"
proof (induction rule: page_run.induct)
  case (more_pages tok s page s1 acc acc1 s2 token pages acc' t)
  from more_pages(1,3) assms have "left (Some token) < left tok"
    unfolding perform_Ok_iff tokens_progress_def by blast
  with more_pages.IH show ?case by simp
qed simp

text \<open>
  C33: reading the bucket follows the pages. It asks for the first page without a token and for every other
  one with the token that the page before it had, for each page once, and for no more pages than the
  service has left.
\<close>

theorem fetch_pages_follows_tokens:
  assumes "tokens_progress (e_s3 E) b (cs_s3_ddns_json_directory conf) left"
    and "fetch_pages E conf b None acc s = Some (Ok acc', t)"
  shows "\<exists>pages es. page_run E conf b None acc s pages acc' t \<and> trace t = trace s @ es \<and>
    filter is_list_page es = map (Ev_List_Page (cs_s3_ddns_json_directory conf) ''/'')
      (None # map next_continuation_token (butlast pages)) \<and>
    length (filter is_list_page es) \<le> Suc (left None)"
proof -
  from fetch_pages_to_run [OF assms(2)] obtain pages
    where run: "page_run E conf b None acc s pages acc' t" by blast
  with page_run_lists [OF run] page_run_bound [OF assms(1) run] page_run_last [OF run] show ?thesis
    by (intro exI [of _ pages]) (auto simp: Suc_le_eq)
qed

section \<open>Events of the looping part\<close>

lemma fetch_pages_emits_if:
  assumes "fetch_pages E conf b tok acc s = Some y" and P: "\<And>tok acc. emits P (fetch_page E conf b tok acc)"
  shows "\<exists>es. trace (snd y) = trace s @ es \<and> list_all P es"
proof -
  have "E = E \<longrightarrow> conf = conf \<longrightarrow> b = b \<longrightarrow> (\<exists>es. trace (snd y) = trace s @ es \<and> list_all P es)"
  proof (rule fetch_pages.raw_induct [OF _ assms(1), where P = "\<lambda>E1 conf1 b1 tok acc s y.
        E1 = E \<longrightarrow> conf1 = conf \<longrightarrow> b1 = b \<longrightarrow> (\<exists>es. trace (snd y) = trace s @ es \<and> list_all P es)"], intro impI)
    fix rec E1 conf1 b1 tok acc s y
    assume IH: "\<And>E1 conf1 b1 tok acc s y. rec E1 conf1 b1 tok acc s = Some y \<Longrightarrow>
        E1 = E \<longrightarrow> conf1 = conf \<longrightarrow> b1 = b \<longrightarrow> (\<exists>es. trace (snd y) = trace s @ es \<and> list_all P es)"
      and body: "(case fetch_page E1 conf1 b1 tok acc s of
          (Ok (next_tok, acc'), t) \<Rightarrow>
            (case next_tok of Some token \<Rightarrow> rec E1 conf1 b1 (Some token) acc' t | None \<Rightarrow> Some (Ok acc', t))
        | (Err e, t) \<Rightarrow> Some (Err e, t)
        | (Panic p, t) \<Rightarrow> Some (Panic p, t)) = Some y"
      and same: "E1 = E" "conf1 = conf" "b1 = b"
    obtain res u where page: "fetch_page E conf b tok acc s = (res, u)"
      by (cases "fetch_page E conf b tok acc s")
    from emitsD [OF P page] obtain es where es: "trace u = trace s @ es" "list_all P es" by blast
    show "\<exists>es. trace (snd y) = trace s @ es \<and> list_all P es"
    proof (cases "\<exists>token acc1. res = Ok (Some token, acc1)")
      case True
      then obtain token acc1 where "res = Ok (Some token, acc1)" by blast
      with body page have "rec E conf b (Some token) acc1 u = Some y" by (simp add: same)
      from IH [OF this] obtain es' where "trace (snd y) = trace u @ es'" "list_all P es'" by blast
      with es show ?thesis by auto
    next
      case False
      with body page have "snd y = u" by (auto simp: same split: result.splits option.splits)
      with es show ?thesis by blast
    qed
  qed
  then show ?thesis by simp
qed

lemma fetch_pages_emits:
  assumes "fetch_pages E conf b tok acc s = Some y" and P: "\<And>e. is_s3_read e \<Longrightarrow> P e"
  shows "\<exists>es. trace (snd y) = trace s @ es \<and> list_all P es"
  by (rule fetch_pages_emits_if [OF assms(1)]) (rule emits_fetch_page [OF P])

section \<open>Certificates come from files\<close>

text \<open>A certificate that was read, in full or up to the limit, from a certificate file of the directory.\<close>

definition cert_on_disk :: "('k, 'b, 'w) env \<Rightarrow> config_server \<Rightarrow> cert_match \<Rightarrow> bool" where
  "cert_on_disk E conf c \<longleftrightarrow>
     (\<exists>entry w evs w' bs. is_cert_entry entry \<and>
        fs_open (e_fs E) (path_join (cs_keys_search_path conf) (entry_name entry)) w = (Inr evs, w') \<and>
        read_to_end_limited file_size_max_bytes evs = Inr bs \<and>
        load_ed25519_certificate_pem (e_x509 E) (e_dalek E) bs = Ok c)"

lemma key_map_one_on_disk:
  assumes "key_map_one E (cs_keys_search_path conf) entry acc s = (Ok acc', t)" and "is_cert_entry entry"
    and "\<forall>c \<in> set (fst acc). cert_on_disk E conf c"
  shows "\<forall>c \<in> set (fst acc'). cert_on_disk E conf c"
proof -
  obtain fbytes u where read: "read_file_limited (e_fs E)
      (path_join (cs_keys_search_path conf) (entry_name entry)) file_size_max_bytes s = (Ok fbytes, u)"
    and acc': "(\<exists>crt. load_ed25519_certificate_pem (e_x509 E) (e_dalek E) fbytes = Ok crt \<and>
           acc' = (fst acc @ [crt], snd acc)) \<or>
         (\<exists>e. acc' = (fst acc, (snd acc)\<lparr>failed_key_parses := failed_key_parses (snd acc) @
           [(from_utf8_lossy (entry_name entry), e)]\<rparr>))"
    by (rule key_map_one_Ok [OF assms(1)])
  obtain w evs w' where "fs_open (e_fs E) (path_join (cs_keys_search_path conf) (entry_name entry)) w = (Inr evs, w')"
      "read_to_end_limited file_size_max_bytes evs = Inr fbytes"
    by (rule read_file_limited_Ok [OF read])
  with acc' assms(2,3) show ?thesis by (auto simp: cert_on_disk_def) blast
qed

lemma get_public_key_map_on_disk:
  assumes "get_public_key_map E conf errors s = (Ok acc, t)"
  shows "\<forall>c \<in> set (fst acc). cert_on_disk E conf c"
proof -
  from assms obtain entries u where run: "key_map_loop E (cs_keys_search_path conf) (cert_entries entries)
      ([], errors) u = (Ok acc, t)"
    unfolding get_public_key_map_def Let_def io_bind_Ok_iff by blast
  show ?thesis
  proof (rule key_loop.run_invariant [OF run, where keeps = "\<lambda>acc. \<forall>c \<in> set (fst acc). cert_on_disk E conf c"])
    fix x a u a' u'
    assume x: "x \<in> set (cert_entries entries)" and a: "\<forall>c \<in> set (fst a). cert_on_disk E conf c"
      and step: "key_map_one E (cs_keys_search_path conf) x a u = (Ok a', u')"
    from x have "is_cert_entry x" by (simp add: cert_entries_def)
    from key_map_one_on_disk [OF step this a] show "\<forall>c \<in> set (fst a'). cert_on_disk E conf c" .
  qed simp
qed

lemma get_public_key_map_keeps:
  assumes "get_public_key_map E conf errors s = (Ok (certs, errors'), t)"
  shows "failed_s3_fetches errors' = failed_s3_fetches errors"
    and "failed_json_parses errors' = failed_json_parses errors"
proof -
  from assms obtain entries u where run: "key_map_loop E (cs_keys_search_path conf) (cert_entries entries)
      ([], errors) u = (Ok (certs, errors'), t)"
    unfolding get_public_key_map_def Let_def io_bind_Ok_iff by blast
  let ?keeps = "\<lambda>acc :: cert_match list \<times> server_errors.
    failed_s3_fetches (snd acc) = failed_s3_fetches errors \<and>
    failed_json_parses (snd acc) = failed_json_parses errors"
  have "?keeps (certs, errors')"
    by (rule key_loop.run_invariant [OF run, where keeps = ?keeps]) (auto elim!: key_map_one_Ok)
  then show "failed_s3_fetches errors' = failed_s3_fetches errors"
    and "failed_json_parses errors' = failed_json_parses errors" by simp_all
qed

text \<open>
  The certificate files with what was read of each and the certificate that it holds, if it is one.
\<close>

definition sorted_certs ::
  "('k, 'b, 'w) env \<Rightarrow> string \<Rightarrow> (dir_entry \<times> bytes \<times> cert_match option) list \<Rightarrow> bool" where
  "sorted_certs E dir =
     list_all (\<lambda>(x, bs, c).
       (\<exists>u v :: 'w sys. read_file_limited (e_fs E) (path_join dir (entry_name x)) file_size_max_bytes u = (Ok bs, v)) \<and>
       (case c of
          None \<Rightarrow> (\<nexists>cm. certifies (e_x509 E) (e_dalek E) bs cm)
        | Some cm \<Rightarrow> certifies (e_x509 E) (e_dalek E) bs cm))"

lemma key_map_one_outcome:
  assumes "key_map_one E dir x (certs, errors) s = (Ok (certs', errors'), t)"
  obtains bs c es where "sorted_certs E dir [(x, bs, c)]" and "certs' = certs @ (case c of None \<Rightarrow> [] | Some cm \<Rightarrow> [cm])"
    and "errors' = errors\<lparr>failed_key_parses := failed_key_parses errors @ es\<rparr>"
    and "map fst es = (case c of None \<Rightarrow> [from_utf8_lossy (entry_name x)] | Some cm \<Rightarrow> [])"
proof -
  obtain bs u where read: "read_file_limited (e_fs E) (path_join dir (entry_name x)) file_size_max_bytes s = (Ok bs, u)"
    using assms by (rule key_map_one_Ok)
  show thesis
  proof (cases "load_ed25519_certificate_pem (e_x509 E) (e_dalek E) bs")
    case (Ok cm)
    with read assms have "certs' = certs @ [cm]" "errors' = errors"
      by (auto simp: key_map_one_def io_bind_def io_ctx_def io_match_def)
    moreover have "sorted_certs E dir [(x, bs, Some cm)]"
      using read Ok by (auto simp: sorted_certs_def load_certificate_certifies)
    ultimately show thesis by (intro that [of bs "Some cm" "[]"]) simp_all
  next
    case (Err e)
    with read assms have "certs' = certs" "errors' = errors\<lparr>failed_key_parses := failed_key_parses errors @
        [(from_utf8_lossy (entry_name x), Context ''failed to load an x509 certificate from bytes'' e)]\<rparr>"
      by (auto simp: key_map_one_def io_bind_def io_ctx_def io_match_def)
    moreover have "\<not> certifies (e_x509 E) (e_dalek E) bs cm" for cm
      using Err by (simp flip: load_certificate_certifies)
    then have "sorted_certs E dir [(x, bs, None)]" using read by (auto simp: sorted_certs_def)
    ultimately show thesis
      by (intro that [of bs None "[(from_utf8_lossy (entry_name x),
            Context ''failed to load an x509 certificate from bytes'' e)]"]) simp_all
  next
    case (Panic p)
    with load_certificate_not_Panic show thesis by metis
  qed
qed

text \<open>
  C21: when the loading of the certificates returns, every file was read, and each is either a certificate
  and in the map, with the CommonName and the key that it certifies, or it is none and recorded by its
  name; both in the order of the directory, and no other list of errors changes.
\<close>

theorem key_map_sorts_files:
  assumes "key_map_loop E dir xs (certs, errors) s = (Ok (certs', errors'), t)"
  shows "\<exists>files es. map fst files = xs \<and> sorted_certs E dir files \<and>
    certs' = certs @ List.map_filter (\<lambda>(x, bs, c). c) files \<and>
    errors' = errors\<lparr>failed_key_parses := failed_key_parses errors @ es\<rparr> \<and>
    map fst es = map (\<lambda>(x, bs, c). from_utf8_lossy (entry_name x)) (filter (\<lambda>(x, bs, c). c = None) files)"
  using assms
proof (induction xs arbitrary: certs errors s)
  case Nil
  then show ?case by (intro exI [of _ "[]"]) (simp add: sorted_certs_def List.map_filter_simps)
next
  case (Cons x xs)
  from Cons.prems obtain certs1 errors1 u where step: "key_map_one E dir x (certs, errors) s = (Ok (certs1, errors1), u)"
    and rest: "key_map_loop E dir xs (certs1, errors1) u = (Ok (certs', errors'), t)"
    by (auto simp: io_bind_Ok_iff)
  obtain bs c es where one: "sorted_certs E dir [(x, bs, c)]" "certs1 = certs @ (case c of None \<Rightarrow> [] | Some cm \<Rightarrow> [cm])"
    "errors1 = errors\<lparr>failed_key_parses := failed_key_parses errors @ es\<rparr>"
    "map fst es = (case c of None \<Rightarrow> [from_utf8_lossy (entry_name x)] | Some cm \<Rightarrow> [])"
    by (rule key_map_one_outcome [OF step])
  from Cons.IH [OF rest] obtain files fs where more: "map fst files = xs" "sorted_certs E dir files"
    "certs' = certs1 @ List.map_filter (\<lambda>(x, bs, c). c) files"
    "errors' = errors1\<lparr>failed_key_parses := failed_key_parses errors1 @ fs\<rparr>"
    "map fst fs = map (\<lambda>(x, bs, c). from_utf8_lossy (entry_name x)) (filter (\<lambda>(x, bs, c). c = None) files)"
    by blast
  from one more show ?case
    by (intro exI [of _ "(x, bs, c) # files"] exI [of _ "es @ fs"])
       (cases c; simp add: sorted_certs_def List.map_filter_simps)
qed

text \<open>
  C23: one certificate file that cannot be read (too large, no permission, gone) stops the loading of
  all: the error leaves the loop, whatever certificates come before or after it. A file that can be
  read but not parsed is only recorded.
\<close>

theorem unreadable_certificate_aborts:
  assumes "key_map_loop E dir xs acc s = (Ok acc', u)"
    and "read_file_limited (e_fs E) (path_join dir (entry_name x)) file_size_max_bytes u = (Err e, v)"
  shows "key_map_loop E dir (xs @ x # ys) acc s = (Err (Context ''invalid key_path'' e), v)"
proof -
  have "key_map_one E dir x acc' u = (Err (Context ''invalid key_path'' e), v)"
    using assms(2) by (cases acc') (simp add: key_map_one_def io_bind_def io_ctx_def)
  with assms(1) show ?thesis by (simp add: key_loop.run_append io_bind_def)
qed

section \<open>Cleaning up\<close>

lemma cleanup_one_deletes:
  "cleanup_one E b k errors s = (r, t) \<Longrightarrow>
     \<exists>es. trace t = trace s @ es \<and> filter is_s3_delete es = [Ev_Delete_Object (key_text k)] \<and>
       list_all (\<lambda>e. is_print e \<or> is_s3_delete e) es"
  by (cases "s3_delete_object (e_s3 E) b (key_text k) (world s)"; cases "fst (s3_delete_object (e_s3 E) b (key_text k) (world s))")
     (auto simp: cleanup_one_def io_match_def io_ctx_def perform_def print_def io_bind_def split: if_splits)

lemma cleanup_loop_deletes:
  assumes "cleanup_loop E b keys errors s = (Ok errors', t)"
  shows "(\<exists>es. trace t = trace s @ es \<and> list_all (\<lambda>e. is_print e \<or> is_s3_delete e) es \<and>
      filter is_s3_delete es = map (\<lambda>k. Ev_Delete_Object (key_text k)) keys) \<and>
    errors_ext errors errors'"
proof
  show "\<exists>es. trace t = trace s @ es \<and> list_all (\<lambda>e. is_print e \<or> is_s3_delete e) es \<and>
      filter is_s3_delete es = map (\<lambda>k. Ev_Delete_Object (key_text k)) keys"
    using assms
  proof (induction keys arbitrary: errors s)
    case Nil
    then show ?case by simp
  next
    case (Cons k ks)
    from Cons.prems obtain errors1 u where step: "cleanup_one E b k errors s = (Ok errors1, u)"
      and rest: "cleanup_loop E b ks errors1 u = (Ok errors', t)" by (auto simp: io_bind_Ok_iff)
    from cleanup_one_deletes [OF step] obtain es1 where "trace u = trace s @ es1"
      "filter is_s3_delete es1 = [Ev_Delete_Object (key_text k)]"
      "list_all (\<lambda>e. is_print e \<or> is_s3_delete e) es1" by blast
    moreover from Cons.IH [OF rest] obtain es2 where "trace t = trace u @ es2"
      "list_all (\<lambda>e. is_print e \<or> is_s3_delete e) es2"
      "filter is_s3_delete es2 = map (\<lambda>k. Ev_Delete_Object (key_text k)) ks" by blast
    ultimately show ?case by (intro exI [of _ "es1 @ es2"]) simp
  qed
qed (rule cleanup_loop.run_ext [OF assms])

text \<open>What the service answers to the deletions, one after the other, and the world after them.\<close>

fun delete_answers :: "('b, 'w) s3_calls \<Rightarrow> 'b \<Rightarrow> s3_key list \<Rightarrow> 'w \<Rightarrow> nat result list \<times> 'w" where
  "delete_answers S b [] w = ([], w)"
| "delete_answers S b (k # ks) w =
     (case s3_delete_object S b (key_text k) w of (r, w1) \<Rightarrow>
        case delete_answers S b ks w1 of (rs, w2) \<Rightarrow> (r # rs, w2))"

text \<open>The failure that an answer counts as: none for a 2xx status.\<close>

definition deletion_failure :: "nat result \<Rightarrow> error option" where
  "deletion_failure r =
     (case r of
        Ok status \<Rightarrow>
          if 200 \<le> status \<and> status < 300 then None
          else Some (Bail (''got non-200 status code: '' @ fmt_dec status))
      | Err e \<Rightarrow> Some (Context ''failed to delete S3 Key'' e)
      | Panic p \<Rightarrow> None)"

definition deletion_failures :: "s3_key list \<Rightarrow> nat result list \<Rightarrow> (s3_key \<times> error) list" where
  "deletion_failures ks rs =
     concat (map (\<lambda>(k, r). case deletion_failure r of None \<Rightarrow> [] | Some e \<Rightarrow> [(k, e)]) (zip ks rs))"

lemma cleanup_one_outcome:
  assumes "\<And>w p. fst (s3_delete_object (e_s3 E) b (key_text k) w) \<noteq> Panic p"
    and "\<And>es out. \<not> stdout_refuses s es out"
    and "s3_delete_object (e_s3 E) b (key_text k) (world s) = (r, w)"
  obtains es where "cleanup_one E b k errors s =
      (Ok (errors\<lparr>failed_s3_deletions := failed_s3_deletions errors @ deletion_failures [k] [r]\<rparr>),
       s\<lparr>world := w, trace := trace s @ es\<rparr>)"
proof (cases r)
  case (Ok status)
  then show thesis
    by (intro that [of "Ev_Delete_Object (key_text k) # (if status < 200 \<or> 300 \<le> status
          then [Ev_Print (Line (''Failed to S3 bucket item '' @ key_text k))] else [])"])
       (simp add: cleanup_one_def io_match_def io_ctx_def perform_def print_def io_bind_def assms(2,3)
         deletion_failures_def deletion_failure_def)
next
  case (Err e)
  then show thesis
    by (intro that [of "[Ev_Delete_Object (key_text k)]"])
       (simp add: cleanup_one_def io_match_def io_ctx_def perform_def assms(3) deletion_failures_def
         deletion_failure_def)
next
  case (Panic p)
  with assms(1) [of "world s" p] assms(3) show thesis by simp
qed

lemma cleanup_loop_outcome:
  assumes "\<And>k w p. fst (s3_delete_object (e_s3 E) b k w) \<noteq> Panic p"
    and "\<And>es out. \<not> stdout_refuses s es out"
  shows "\<exists>t. cleanup_loop E b keys errors s =
      (Ok (errors\<lparr>failed_s3_deletions := failed_s3_deletions errors @
         deletion_failures keys (fst (delete_answers (e_s3 E) b keys (world s)))\<rparr>), t) \<and>
    world t = snd (delete_answers (e_s3 E) b keys (world s))"
  using assms(2)
proof (induction keys arbitrary: errors s)
  case Nil
  then show ?case by (simp add: deletion_failures_def)
next
  case (Cons k ks)
  obtain r w where answer: "s3_delete_object (e_s3 E) b (key_text k) (world s) = (r, w)"
    by (cases "s3_delete_object (e_s3 E) b (key_text k) (world s)")
  let ?errors = "errors\<lparr>failed_s3_deletions := failed_s3_deletions errors @ deletion_failures [k] [r]\<rparr>"
  obtain es where step: "cleanup_one E b k errors s = (Ok ?errors, s\<lparr>world := w, trace := trace s @ es\<rparr>)"
    by (rule cleanup_one_outcome [OF assms(1) Cons.prems answer])
  from Cons.IH [of "s\<lparr>world := w, trace := trace s @ es\<rparr>" ?errors] Cons.prems step answer show ?case
    by (cases "delete_answers (e_s3 E) b ks w") (simp add: io_bind_def deletion_failures_def)
qed

text \<open>
  C32: cleaning up asks once for the deletion of each key, in order, and goes on after a failed one: if the
  crate does not panic and the output is written, the loop gets to its end, whatever the answers are.
  Exactly the keys whose deletion failed or was answered with a status other than 2xx are recorded, in
  order and with the failure, behind those recorded before; no other list of errors changes.
\<close>

theorem cleanup_deletes_each_key:
  assumes "\<And>k w p. fst (s3_delete_object (e_s3 E) b k w) \<noteq> Panic p"
    and "\<And>es out. \<not> stdout_refuses s es out"
  shows "\<exists>t es. cleanup_loop E b keys errors s =
      (Ok (errors\<lparr>failed_s3_deletions := failed_s3_deletions errors @
         deletion_failures keys (fst (delete_answers (e_s3 E) b keys (world s)))\<rparr>), t) \<and>
    world t = snd (delete_answers (e_s3 E) b keys (world s)) \<and>
    trace t = trace s @ es \<and> list_all (\<lambda>e. is_print e \<or> is_s3_delete e) es \<and>
    filter is_s3_delete es = map (\<lambda>k. Ev_Delete_Object (key_text k)) keys"
proof -
  from cleanup_loop_outcome [OF assms, of keys errors] obtain t where
    run: "cleanup_loop E b keys errors s = (Ok (errors\<lparr>failed_s3_deletions := failed_s3_deletions errors @
       deletion_failures keys (fst (delete_answers (e_s3 E) b keys (world s)))\<rparr>), t)"
    and w: "world t = snd (delete_answers (e_s3 E) b keys (world s))" by blast
  from cleanup_loop_deletes [OF run] obtain es where "trace t = trace s @ es"
    "list_all (\<lambda>e. is_print e \<or> is_s3_delete e) es"
    "filter is_s3_delete es = map (\<lambda>k. Ev_Delete_Object (key_text k)) keys" by blast
  with run w show ?thesis by (intro exI [of _ t] exI [of _ es]) simp
qed

end
