(* ===== verification/Server.thy ===== *)
theory Server
  imports Server_Io
begin

text \<open>
  \<open>handle_server\<close> of \<open>src/server.rs\<close>: one run of the server, with its early returns. Its stages are
  definitions of their own; \<open>handle_server\<close> composes them in the order of the code.
\<close>

section \<open>A run\<close>

text \<open>The configuration, the credentials and the greeting of a dry run.\<close>

definition server_setup ::
  "('k, 'b, 'w) env \<Rightarrow> server_args \<Rightarrow> ('w sys, config_server \<times> aws_credentials) io" where
  "server_setup E a =
     io_bind (io_lift (ctx ''failed to parse server config'' (config_server_parse a))) (\<lambda>conf.
     io_bind (get_s3_credentials (e_creds E) (cs_aws_config conf)) (\<lambda>creds.
     io_bind (if cs_is_dry_run conf then print (Line ''Performing a server Dry Run'') else io_ret ()) (\<lambda>_.
     io_ret (conf, creds))))"

text \<open>\<open>println!\<close> of the names that were requested.\<close>

definition print_names :: "unverified_request list \<Rightarrow> ('w sys, unit) io" where
  "print_names reqs =
     io_bind (print (Line (''Found '' @ fmt_dec (length reqs) @ '' .ddns.json files''))) (\<lambda>_.
     print_all (map (\<lambda>r. Line (CHR 0x09 # '' * '' @ request_name r)) reqs))"

text \<open>The certificates to check against: none are read when verification is skipped.\<close>

definition domain_certs ::
  "('k, 'b, 'w) env \<Rightarrow> config_server \<Rightarrow> server_errors \<Rightarrow> ('w sys, cert_match list \<times> server_errors) io" where
  "domain_certs E conf errors =
     (if cs_insecure_skip_verify conf then io_ret ([], errors)
      else io_ctx ''failed to get public key map'' (get_public_key_map E conf errors))"

definition delete_keys :: "verified_request list \<Rightarrow> server_errors \<Rightarrow> s3_key list" where
  "delete_keys verified errors =
     map vr_s3_key verified @ map fst (failed_s3_fetches errors) @ map fst (failed_json_parses errors)"

text \<open>Step 3: the changes, and writing them unless this is a dry run.\<close>

definition apply_changes ::
  "('k, 'b, 'w) env \<Rightarrow> config_server \<Rightarrow> aws_credentials \<Rightarrow> verified_request list \<Rightarrow> server_errors \<Rightarrow>
     ('w sys, unit) io" where
  "apply_changes E conf creds verified errors =
     (let changes = build_changes verified; keys = delete_keys verified errors in
      if cs_is_dry_run conf then
        io_bind (print (Shown_Changes changes)) (\<lambda>_. print (Shown_Keys (map key_text keys)))
      else
        io_bind (io_ctx ''failed to commit dns changes'' (commit_changes E conf creds changes)) (\<lambda>info.
        io_bind (print (Line (''Updated Route53 DNS records:'' @ nl @ ''request id: '' @ change_id info @ nl @
          ''request status:'' @ change_status info))) (\<lambda>_.
        io_bind (io_ctx ''failed to cleanup s3 ddns.json items'' (cleanup E conf creds keys errors))
          print_summary)))"

text \<open>Step 2: validating, then dropping privileges.\<close>

definition validate_and_apply ::
  "('k, 'b, 'w) env \<Rightarrow> config_server \<Rightarrow> aws_credentials \<Rightarrow> unverified_request list \<Rightarrow> cert_match list \<Rightarrow>
     server_errors \<Rightarrow> ('w sys, unit) io" where
  "validate_and_apply E conf creds reqs certs errors =
     io_bind (validate_unverified_dns_requests E certs (cs_max_time_ago_signed_at conf)
       (cs_insecure_skip_verify conf) reqs ([], errors)) (\<lambda>(verified, errors').
     io_bind (io_ctx ''failed to drop privileges''
       (maybe_drop_privileges (e_unix E) (cs_drop_to_user conf))) (\<lambda>_.
     if verified = [] then print (Line ''No verified requests found, nothing to do.'')
     else apply_changes E conf creds verified errors'))"

definition server_process ::
  "('k, 'b, 'w) env \<Rightarrow> config_server \<Rightarrow> aws_credentials \<Rightarrow> unverified_request list \<times> server_errors \<Rightarrow>
     ('w sys, unit) io" where
  "server_process E conf creds fetched =
     (case fetched of (reqs, errors) \<Rightarrow>
        if reqs = [] then print (Line ''No ddns.json files found, nothing to do.'')
        else
          io_bind (print_names reqs) (\<lambda>_.
          io_bind (domain_certs E conf errors) (\<lambda>(certs, errors').
          if \<not> cs_insecure_skip_verify conf \<and> certs = []
          then print (Line ''No public keys found, nothing to validate.'')
          else validate_and_apply E conf creds reqs certs errors')))"

definition handle_server :: "('k, 'b, 'w) env \<Rightarrow> server_args \<Rightarrow> ('w sys, unit) looping" where
  "handle_server E a =
     lo_bind (lo_once (server_setup E a)) (\<lambda>(conf, creds).
     lo_bind (lo_ctx ''failed to query S3 for outstanding ddns requests'' (fetch_ddns_jsons_from_s3 E conf creds))
       (\<lambda>fetched. lo_once (server_process E conf creds fetched)))"

section \<open>The stages of a run\<close>

lemma lo_once_Some: "lo_once m s = Some y \<longleftrightarrow> m s = y"
  by (simp add: lo_once_def)

lemma lo_bind_Some:
  assumes "lo_bind m f s = Some (r, t)"
  obtains (stop) r' where "m s = Some (r', t)" and "\<not> is_ok r'" and "\<not> is_ok r"
  | (go) x u where "m s = Some (Ok x, u)" and "f x u = Some (r, t)"
  using assms by (auto simp: lo_bind_def split: option.splits prod.splits result.splits)

lemma lo_ctx_Some: "lo_ctx msg m s = Some (r, t) \<longleftrightarrow> (\<exists>r'. m s = Some (r', t) \<and> r = ctx msg r')"
  by (auto simp: lo_ctx_def split: option.splits)

text \<open>
  A run that ends either stops in the set-up or in reading the bucket, or it goes on with the requests
  that were read.
\<close>

lemma fetch_ddns_emits:
  assumes "fetch_ddns_jsons_from_s3 E conf creds s = Some (r, t)"
  shows "\<exists>es. trace t = trace s @ es \<and> in_phases [is_print, is_s3_read] es"
  using assms unfolding fetch_ddns_jsons_from_s3_def
proof (cases rule: lo_bind_Some)
  case (stop r')
  then have "t = s" by (simp add: lo_once_def)
  then show ?thesis by (intro exI [of _ "[]"]) simp
next
  case (go bucket u)
  then have u: "u = s" by (simp add: lo_once_def)
  from go(2) show ?thesis
  proof (cases rule: lo_bind_Some)
    case (stop r')
    with u have "t = s" by (auto simp: lo_once_def print_def split: if_splits)
    then show ?thesis by (intro exI [of _ "[]"]) simp
  next
    case (go x v)
    let ?p = "Ev_Print (Line (''Querying Bucket: '' @ cs_s3_queue_bucket conf @ ''/'' @ cs_s3_ddns_json_directory conf))"
    from go(1) u have v: "trace v = trace s @ [?p]" by (auto simp: lo_once_def print_Ok_iff)
    from fetch_pages_emits [OF go(2), of is_s3_read] obtain es
      where es: "trace t = trace v @ es" "list_all is_s3_read es" by auto
    have "in_phases ([is_print] @ [is_s3_read]) ([?p] @ es)"
      by (rule in_phases_append) (simp_all add: in_phases_one es)
    with v es show ?thesis by (intro exI [of _ "[?p] @ es"]) simp
  qed
qed

lemma server_setup_emits:
  assumes "\<And>e. is_print e \<Longrightarrow> P e"
  shows "emits P (server_setup E a)"
  unfolding server_setup_def by (intro emits_intros) (simp_all add: assms)

lemma handle_server_stages:
  assumes "handle_server E a s = Some (r, t)"
  obtains (at_setup) r' where "server_setup E a s = (r', t)" and "\<not> is_ok r'" and "\<not> is_ok r"
  | (at_fetch) conf creds u r' where "server_setup E a s = (Ok (conf, creds), u)"
      and "fetch_ddns_jsons_from_s3 E conf creds u = Some (r', t)" and "\<not> is_ok r'" and "\<not> is_ok r"
  | (at_process) conf creds u fetched v where "server_setup E a s = (Ok (conf, creds), u)"
      and "fetch_ddns_jsons_from_s3 E conf creds u = Some (Ok fetched, v)"
      and "server_process E conf creds fetched v = (r, t)"
  using assms unfolding handle_server_def
proof (cases rule: lo_bind_Some)
  case (stop r')
  with at_setup show ?thesis by (simp add: lo_once_def)
next
  case (go x u)
  obtain conf creds where x: "x = (conf, creds)" by (cases x)
  from go(2) have rest: "lo_bind (lo_ctx ''failed to query S3 for outstanding ddns requests''
      (fetch_ddns_jsons_from_s3 E conf creds)) (\<lambda>fetched. lo_once (server_process E conf creds fetched)) u =
      Some (r, t)" by (simp add: x)
  from go(1) x have su: "server_setup E a s = (Ok (conf, creds), u)" by (simp add: lo_once_def)
  from rest show ?thesis
  proof (cases rule: lo_bind_Some)
    case (stop r')
    then obtain r2 where r2: "fetch_ddns_jsons_from_s3 E conf creds u = Some (r2, t)"
        "r' = ctx ''failed to query S3 for outstanding ddns requests'' r2"
      unfolding lo_ctx_Some by blast
    with stop(2) have "\<not> is_ok r2" by (cases r2) simp_all
    with r2(1) have "fetch_ddns_jsons_from_s3 E conf creds u = Some (r2, t)" "\<not> is_ok r2" by simp_all
    then show ?thesis by (rule at_fetch [OF su]) (rule stop(3))
  next
    case (go fetched v)
    from go(1) obtain r2 where r2: "fetch_ddns_jsons_from_s3 E conf creds u = Some (r2, v)"
        "Ok fetched = ctx ''failed to query S3 for outstanding ddns requests'' r2"
      unfolding lo_ctx_Some by blast
    from r2(2) have "r2 = Ok fetched" by (cases r2) simp_all
    with r2(1) have "fetch_ddns_jsons_from_s3 E conf creds u = Some (Ok fetched, v)" by simp
    moreover from go(2) have "server_process E conf creds fetched v = (r, t)" unfolding lo_once_Some .
    ultimately show ?thesis by (rule at_process [OF su])
  qed
qed

lemma server_setup_Ok:
  "server_setup E a s = (Ok (conf, creds), u) \<Longrightarrow> config_server_parse a = Ok conf"
  by (auto simp: server_setup_def ok_iff)

section \<open>The order of a run\<close>

lemma emits_change_rrs:
  assumes "\<And>url. P (Ev_Route53_Post url (build_change_xml comment changes))"
  shows "emits P (change_resource_record_sets S N rc zone comment changes)"
  unfolding change_resource_record_sets_def client_signed_headers_def Let_def
  by (intro emits_intros assms)

lemma emits_from_s3_credentials: "emits P (from_s3_credentials N cr)"
  unfolding from_s3_credentials_def route53_client_new_def by (intro emits_intros)

lemma emits_commit_changes:
  assumes "\<And>url. P (Ev_Route53_Post url (build_change_xml (Some ''Updated via dyndynser'') changes))"
  shows "emits P (commit_changes E conf creds changes)"
  unfolding commit_changes_def by (intro emits_intros emits_from_s3_credentials emits_change_rrs assms)

lemma emits_print_failures: "(\<And>e. is_print e \<Longrightarrow> P e) \<Longrightarrow> emits P (print_failures title fails)"
  unfolding print_failures_def by (intro emits_intros) simp_all

lemma emits_print_summary: "(\<And>e. is_print e \<Longrightarrow> P e) \<Longrightarrow> emits P (print_summary errors)"
  unfolding print_summary_def by (intro emits_intros emits_print_failures) simp_all

lemma emits_print_names: "(\<And>e. is_print e \<Longrightarrow> P e) \<Longrightarrow> emits P (print_names reqs)"
  unfolding print_names_def by (intro emits_intros) simp_all

lemma emits_cleanup:
  assumes "\<And>k. k \<in> set keys \<Longrightarrow> P (Ev_Delete_Object (key_text k))" and "\<And>e. is_print e \<Longrightarrow> P e"
  shows "emits P (cleanup E conf creds keys errors)"
  unfolding cleanup_def by (intro emits_intros emits_cleanup_loop assms)

definition is_cleanup :: "event \<Rightarrow> bool" where
  "is_cleanup e \<longleftrightarrow> is_s3_delete e \<or> is_print e"

lemma phased_apply_changes: "phased [is_dns_post, is_cleanup] (apply_changes E conf creds verified errors)"
proof (cases "cs_is_dry_run conf")
  case True
  have "emits is_cleanup (apply_changes E conf creds verified errors)"
    unfolding apply_changes_def Let_def if_P [OF True] by (intro emits_intros) (simp_all add: is_cleanup_def)
  then show ?thesis by (intro phased_later phased_one)
next
  case False
  have "phased ([is_dns_post] @ [is_cleanup]) (apply_changes E conf creds verified errors)"
    unfolding apply_changes_def Let_def if_not_P [OF False]
    by (intro phased_bind phased_one emits_intros emits_commit_changes emits_cleanup emits_print_summary)
       (simp_all add: is_cleanup_def)
  then show ?thesis by simp
qed

lemma phased_validate_and_apply:
  "phased [is_privilege_call, is_dns_post, is_cleanup] (validate_and_apply E conf creds reqs certs errors)"
proof -
  have finish: "phased [is_dns_post, is_cleanup]
      (if verified = [] then print (Line msg) else apply_changes E conf creds verified errors')"
    for verified errors' msg
    using phased_apply_changes phased_later [OF phased_one [OF emits_print [of is_cleanup]]]
    by (auto simp: is_cleanup_def)
  have "phased ([is_privilege_call] @ [is_dns_post, is_cleanup])
      (io_bind (io_ctx c (maybe_drop_privileges (e_unix E) (cs_drop_to_user conf)))
         (\<lambda>_. if verified = [] then print (Line msg) else apply_changes E conf creds verified errors'))"
    for verified errors' c msg
    by (intro phased_bind phased_one emits_intros finish)
  then show ?thesis
    unfolding validate_and_apply_def
    by (intro phased_first emits_intros) (auto split: prod.splits)
qed

lemma phased_server_process:
  "phased [is_print, is_file_call, is_privilege_call, is_dns_post, is_cleanup]
     (server_process E conf creds fetched)"
proof -
  let ?late = "[is_privilege_call, is_dns_post, is_cleanup]"
  have only_print: "phased (is_print # Ps) (print out)" for Ps out
    by (rule phased_subseq [OF phased_one [OF emits_print [of is_print]]]) simp_all
  have late_print: "phased ?late (print out)" for out
    by (intro phased_later phased_one emits_print) (simp add: is_cleanup_def)
  have certs: "phased (is_file_call # ?late)
      (io_bind (domain_certs E conf errors) (\<lambda>(certs, errors').
          if \<not> cs_insecure_skip_verify conf \<and> certs = []
          then print out
          else validate_and_apply E conf creds reqs certs errors'))" for errors out reqs
  proof -
    have "emits is_file_call (domain_certs E conf errors)"
      unfolding domain_certs_def by (intro emits_intros)
    then have "phased ([is_file_call] @ ?late)
      (io_bind (domain_certs E conf errors) (\<lambda>(certs, errors').
          if \<not> cs_insecure_skip_verify conf \<and> certs = []
          then print out
          else validate_and_apply E conf creds reqs certs errors'))"
      by (intro phased_bind phased_one) (auto split: prod.splits intro: late_print phased_validate_and_apply)
    then show ?thesis by simp
  qed
  obtain reqs errors where f: "fetched = (reqs, errors)" by (cases fetched)
  show ?thesis
  proof (cases "reqs = []")
    case True
    then show ?thesis by (simp add: server_process_def f only_print)
  next
    case False
    have "phased ([is_print] @ is_file_call # ?late) (server_process E conf creds fetched)"
      unfolding server_process_def f prod.case if_not_P [OF False]
      by (intro phased_bind phased_one emits_print_names certs)
    then show ?thesis by simp
  qed
qed

text \<open>The phases of a run, by the phases of its stages.\<close>

lemma handle_server_in_phases:
  assumes "handle_server E a s = Some (r, t)"
  shows "\<exists>es. trace t = trace s @ es \<and>
    in_phases [is_print, is_s3_read, is_print, is_file_call, is_privilege_call, is_dns_post, is_cleanup] es"
proof -
  have start: "\<exists>es. trace u = trace s @ es \<and> in_phases [is_print] es" if "server_setup E a s = (x, u)" for x u
    using emitsD [OF server_setup_emits that, of is_print] in_phases_one by blast
  have dup: "in_phases [is_print] es \<Longrightarrow> in_phases [is_print, is_s3_read] fs \<Longrightarrow>
      in_phases [is_print, is_s3_read] (es @ fs)" for es fs
    by (induction es) auto
  have pre: "in_phases [is_print, is_s3_read, is_print, is_file_call, is_privilege_call, is_dns_post, is_cleanup] (es @ [])"
    if "in_phases [is_print, is_s3_read] es" for es
    using in_phases_append [OF that in_phases_Nil,
        of "[is_print, is_file_call, is_privilege_call, is_dns_post, is_cleanup]"] by simp
  from assms show ?thesis
  proof (cases rule: handle_server_stages)
    case (at_setup r')
    from start [OF at_setup(1)] obtain es where es: "trace t = trace s @ es" "in_phases [is_print] es" by blast
    from pre [OF dup [OF es(2) in_phases_Nil]] es(1) show ?thesis by auto
  next
    case (at_fetch conf creds u r')
    from start [OF at_fetch(1)] obtain es where es: "trace u = trace s @ es" "in_phases [is_print] es" by blast
    from fetch_ddns_emits [OF at_fetch(2)] obtain fs
      where fs: "trace t = trace u @ fs" "in_phases [is_print, is_s3_read] fs" by blast
    from pre [OF dup [OF es(2) fs(2)]] es(1) fs(1) show ?thesis by auto
  next
    case (at_process conf creds u fetched v)
    from start [OF at_process(1)] obtain es where es: "trace u = trace s @ es" "in_phases [is_print] es" by blast
    from fetch_ddns_emits [OF at_process(2)] obtain fs
      where fs: "trace v = trace u @ fs" "in_phases [is_print, is_s3_read] fs" by blast
    have "phased [is_print, is_file_call, is_privilege_call, is_dns_post, is_cleanup]
        (server_process E conf creds fetched)" by (rule phased_server_process)
    with at_process(3) obtain gs where gs: "trace t = trace v @ gs"
        "in_phases [is_print, is_file_call, is_privilege_call, is_dns_post, is_cleanup] gs"
      unfolding phased_def by (metis snd_conv)
    from in_phases_append [OF dup [OF es(2) fs(2)] gs(2)] es(1) fs(1) gs(1)
    show ?thesis by (intro exI [of _ "es @ fs @ gs"]) simp
  qed
qed

text \<open>
  C13: the events of a run of the server come in this order: output, reading the bucket, output, reading
  certificates, dropping privileges, updating the DNS, and then deletions and output. In particular no
  file is read and no privilege call made once the DNS is updated, nothing is deleted before, and the
  server never writes an object to the bucket.
\<close>

theorem server_phases:
  assumes "handle_server E a s = Some (r, t)"
  shows "\<exists>es. trace t = trace s @ es \<and>
    in_phases [is_print, is_s3_read, is_print, is_file_call, is_privilege_call, is_dns_post, is_cleanup] es"
  by (rule handle_server_in_phases [OF assms])

section \<open>Every change was signed, every deleted key was a request file\<close>

text \<open>
  A change is justified when it is made of a request that was read from the bucket and, unless
  verification is skipped, carries a signature that verifies under the first certificate with its name
  among certificates that were read from the directory of trusted keys.
\<close>

definition justified :: "('k, 'b, 'w) env \<Rightarrow> config_server \<Rightarrow> change \<Rightarrow> bool" where
  "justified E conf ch \<longleftrightarrow>
     (\<exists>r. origin E r \<and> ch = build_change (to_verified r) \<and>
        (cs_insecure_skip_verify conf \<or>
         (\<exists>certs. (\<forall>c \<in> set certs. cert_on_disk E conf c) \<and> authentic E certs r)))"

text \<open>What a run may do to the DNS and the bucket.\<close>

definition legitimate :: "('k, 'b, 'w) env \<Rightarrow> config_server \<Rightarrow> event \<Rightarrow> bool" where
  "legitimate E conf e \<longleftrightarrow>
     (case e of
        Ev_Route53_Post url body \<Rightarrow>
          \<not> cs_is_dry_run conf \<and>
          (\<exists>chs. chs \<noteq> [] \<and> body = build_change_xml (Some ''Updated via dyndynser'') chs \<and>
             (\<forall>ch \<in> set chs. justified E conf ch))
      | Ev_Delete_Object k \<Rightarrow> \<not> cs_is_dry_run conf \<and> ends_with ddns_json_file_ext k
      | Ev_Put_Object k b \<Rightarrow> False
      | _ \<Rightarrow> True)"

lemma legitimate_other:
  "is_print e \<or> is_file_call e \<or> is_privilege_call e \<or> is_s3_read e \<Longrightarrow> legitimate E conf e"
  by (cases e) (simp_all add: legitimate_def is_file_call_def is_privilege_call_def)

lemma validate_loop_keeps:
  assumes "validate_unverified_dns_requests E certs age skip rs acc s = (Ok acc', t)"
  shows "failed_s3_fetches (snd acc') = failed_s3_fetches (snd acc) \<and>
    failed_json_parses (snd acc') = failed_json_parses (snd acc)"
  by (rule validate_loop.run_invariant [OF assms, where keeps = "\<lambda>a.
        failed_s3_fetches (snd a) = failed_s3_fetches (snd acc) \<and>
        failed_json_parses (snd a) = failed_json_parses (snd acc)"])
     (auto dest!: validate_one_Ok)

lemma domain_certs_may_return:
  assumes "may_return (domain_certs E conf errors) (certs, errors')"
  shows "(cs_insecure_skip_verify conf \<or> (\<forall>c \<in> set certs. cert_on_disk E conf c)) \<and>
    failed_s3_fetches errors' = failed_s3_fetches errors \<and> failed_json_parses errors' = failed_json_parses errors"
proof (cases "cs_insecure_skip_verify conf")
  case True
  with assms show ?thesis by (auto simp: domain_certs_def may_return_def)
next
  case False
  with assms obtain s t where "get_public_key_map E conf errors s = (Ok (certs, errors'), t)"
    by (auto simp: domain_certs_def may_return_def io_ctx_Ok_iff)
  from get_public_key_map_on_disk [OF this] get_public_key_map_keeps [OF this] show ?thesis by simp
qed

lemma emits_apply_changes_legitimate:
  assumes "verified \<noteq> []"
    and "\<forall>v \<in> set verified. justified E conf (build_change v) \<and> ends_with ddns_json_file_ext (key_text (vr_s3_key v))"
    and "request_keyed (failed_s3_fetches errors)" and "request_keyed (failed_json_parses errors)"
  shows "emits (legitimate E conf) (apply_changes E conf creds verified errors)"
proof (cases "cs_is_dry_run conf")
  case True
  then show ?thesis
    unfolding apply_changes_def Let_def if_P [OF True] by (intro emits_intros legitimate_other) simp_all
next
  case False
  have keys: "ends_with ddns_json_file_ext (key_text k)" if "k \<in> set (delete_keys verified errors)" for k
    using that assms by (auto simp: delete_keys_def request_keyed_def)
  have post: "legitimate E conf (Ev_Route53_Post url
      (build_change_xml (Some ''Updated via dyndynser'') (build_changes verified)))" for url
  proof -
    have "build_changes verified \<noteq> []" "\<forall>ch \<in> set (build_changes verified). justified E conf ch"
      using assms(1,2) by (simp_all add: build_changes_map)
    with False show ?thesis unfolding legitimate_def event.case by blast
  qed
  have del: "legitimate E conf (Ev_Delete_Object (key_text k))" if "k \<in> set (delete_keys verified errors)" for k
    using keys [OF that] False by (simp add: legitimate_def)
  show ?thesis
    unfolding apply_changes_def Let_def if_not_P [OF False]
    by (intro emits_intros emits_commit_changes emits_cleanup emits_print_summary post del legitimate_other)
       simp_all
qed

lemma emits_validate_and_apply_legitimate:
  assumes reqs: "\<forall>r \<in> set reqs. origin E r"
    and certs: "cs_insecure_skip_verify conf \<or> (\<forall>c \<in> set certs. cert_on_disk E conf c)"
    and keyed: "request_keyed (failed_s3_fetches errors)" "request_keyed (failed_json_parses errors)"
  shows "emits (legitimate E conf) (validate_and_apply E conf creds reqs certs errors)"
proof -
  have step: "emits (legitimate E conf)
      (if verified = [] then print (Line msg) else apply_changes E conf creds verified errors')"
    if "may_return (validate_unverified_dns_requests E certs (cs_max_time_ago_signed_at conf)
        (cs_insecure_skip_verify conf) reqs ([], errors) :: ('c sys, _) io) (verified, errors')"
    for verified errors' msg
  proof (rule emits_if)
    from that obtain s t where run: "validate_unverified_dns_requests E certs (cs_max_time_ago_signed_at conf)
        (cs_insecure_skip_verify conf) reqs ([], errors) s = (Ok (verified, errors'), t)"
      by (auto simp: may_return_def)
    from validate_loop_vouched [OF run]
    have vouched: "\<forall>v \<in> set verified. vouched E certs (cs_insecure_skip_verify conf) reqs v" by simp
    have "justified E conf (build_change v) \<and> ends_with ddns_json_file_ext (key_text (vr_s3_key v))"
      if "v \<in> set verified" for v
    proof -
      from vouched that obtain r where r: "r \<in> set reqs" "v = to_verified r"
        "cs_insecure_skip_verify conf \<or> authentic E certs r" unfolding vouched_def by blast
      then have o: "origin E r" using reqs by blast
      with r(2,3) certs have "justified E conf (build_change v)" unfolding justified_def by blast
      with o r(2) show ?thesis by (simp add: to_verified_def origin_def)
    qed
    with keyed validate_loop_keeps [OF run]
    show "verified \<noteq> [] \<Longrightarrow> emits (legitimate E conf) (apply_changes E conf creds verified errors')"
      by (intro emits_apply_changes_legitimate) simp_all
  qed (intro emits_print legitimate_other, simp)
  show ?thesis
    unfolding validate_and_apply_def
    by (intro emits_bind_returned [OF emits_validate_loop] emits_case_prod emits_bind emits_ctx
        emits_maybe_drop legitimate_other) (use step in blast)+
qed

lemma emits_server_process_legitimate:
  assumes "collected E fetched"
  shows "emits (legitimate E conf) (server_process E conf creds fetched)"
proof -
  obtain reqs errors where f: "fetched = (reqs, errors)" by (cases fetched)
  with assms have reqs: "\<forall>r \<in> set reqs. origin E r"
    and keyed: "request_keyed (failed_s3_fetches errors)" "request_keyed (failed_json_parses errors)"
    by (simp_all add: collected_def)
  have certs: "emits (legitimate E conf) (domain_certs E conf errors)"
    unfolding domain_certs_def by (intro emits_intros legitimate_other) simp
  have "emits (legitimate E conf) (if \<not> cs_insecure_skip_verify conf \<and> certs = [] then print (Line msg)
      else validate_and_apply E conf creds reqs certs errors')"
    if "may_return (domain_certs E conf errors :: ('c sys, _) io) (certs, errors')" for certs errors' msg
    using domain_certs_may_return [OF that] reqs keyed
    by (intro emits_if emits_print legitimate_other emits_validate_and_apply_legitimate) simp_all
  then have "emits (legitimate E conf) (io_bind (domain_certs E conf errors) (\<lambda>(certs, errors').
          if \<not> cs_insecure_skip_verify conf \<and> certs = []
          then print (Line ''No public keys found, nothing to validate.'')
          else validate_and_apply E conf creds reqs certs errors'))"
    by (intro emits_bind_returned [OF certs] emits_case_prod) blast
  note body = this
  have out: "emits (legitimate E conf) (print out)" for out
    by (intro emits_print legitimate_other) simp
  have names: "emits (legitimate E conf) (print_names reqs)"
    by (intro emits_print_names legitimate_other) simp
  show ?thesis
    unfolding server_process_def f prod.case by (rule emits_if [OF out emits_bind [OF names body]])
qed

lemma fetch_ddns_collected:
  assumes "fetch_ddns_jsons_from_s3 E conf creds s = Some (Ok fetched, t)"
  shows "collected E fetched"
  using assms unfolding fetch_ddns_jsons_from_s3_def
proof (cases rule: lo_bind_Some)
  case (go bucket u)
  from go(2) show ?thesis
  proof (cases rule: lo_bind_Some)
    case (go x v)
    from fetch_pages_to_run [OF go(2)] obtain pages
      where "page_run E conf bucket None ([], server_errors_new) v pages fetched t" by blast
    then show ?thesis
      by (rule page_run_collects) (simp add: collected_def server_errors_new_def request_keyed_def)
  qed simp
qed simp

lemma server_run_legitimate:
  assumes "handle_server E a s = Some (r, t)" and "config_server_parse a = Ok conf"
  shows "\<exists>es. trace t = trace s @ es \<and> list_all (legitimate E conf) es"
proof -
  have start: "\<exists>es. trace u = trace s @ es \<and> list_all (legitimate E conf) es"
    if "server_setup E a s = (x, u)" for x u
  proof -
    have "emits (legitimate E conf) (server_setup E a)"
      by (rule server_setup_emits) (simp add: legitimate_other)
    from emitsD [OF this that] show ?thesis .
  qed
  have read: "list_all (legitimate E conf) es" if "in_phases [is_print, is_s3_read] es" for es
    using that by (rule in_phases_all) (auto simp: legitimate_other)
  from assms(1) show ?thesis
  proof (cases rule: handle_server_stages)
    case (at_setup r')
    from start [OF at_setup(1)] show ?thesis .
  next
    case (at_fetch conf' creds u r')
    from start [OF at_fetch(1)] fetch_ddns_emits [OF at_fetch(2)] read show ?thesis by fastforce
  next
    case (at_process conf' creds u fetched v)
    from server_setup_Ok [OF at_process(1)] assms(2) have c: "conf' = conf" by simp
    from start [OF at_process(1)] obtain es where es: "trace u = trace s @ es" "list_all (legitimate E conf) es" by blast
    from fetch_ddns_emits [OF at_process(2)] read obtain fs
      where fs: "trace v = trace u @ fs" "list_all (legitimate E conf) fs" by blast
    from emitsD [OF emits_server_process_legitimate [OF fetch_ddns_collected [OF at_process(2)]] at_process(3)]
    obtain gs where "trace t = trace v @ gs" "list_all (legitimate E conf) gs" unfolding c by blast
    with es fs show ?thesis by (intro exI [of _ "es @ fs @ gs"]) simp
  qed
qed

text \<open>
  C1: every update the server sends to Route 53 is the XML of changes each of which comes from a
  request that was read from the bucket and, unless verification is skipped, signed: the signature
  over its canonical JSON verifies under the key of the first certificate with the requested name,
  and the certificates were read from the directory of trusted keys.
\<close>

theorem server_posts_only_signed_changes:
  assumes "handle_server E a s = Some (r, t)" and "config_server_parse a = Ok conf"
    and "Ev_Route53_Post url body \<in> set (drop (length (trace s)) (trace t))"
  shows "\<not> cs_is_dry_run conf \<and>
    (\<exists>chs. chs \<noteq> [] \<and> body = build_change_xml (Some ''Updated via dyndynser'') chs \<and>
       (\<forall>ch \<in> set chs. \<exists>r. origin E r \<and> ch = build_change (to_verified r) \<and>
          (cs_insecure_skip_verify conf \<or>
           (\<exists>certs. (\<forall>c \<in> set certs. cert_on_disk E conf c) \<and> authentic E certs r))))"
proof -
  from server_run_legitimate [OF assms(1,2)] obtain es
    where "trace t = trace s @ es" "list_all (legitimate E conf) es" by blast
  with assms(3) have "legitimate E conf (Ev_Route53_Post url body)" by (auto simp: list_all_iff)
  then show ?thesis by (simp add: legitimate_def justified_def)
qed

text \<open>
  C5: a dry run of the server posts nothing and deletes nothing, and the server never writes to the
  bucket; what it does delete are keys of request files.
\<close>

theorem server_deletes_only_request_files:
  assumes "handle_server E a s = Some (r, t)"
    and "e \<in> set (drop (length (trace s)) (trace t))" and "mutates e"
  shows "\<not> sa_is_dry_run a \<and> \<not> is_s3_put e \<and>
    (is_s3_delete e \<longrightarrow> (\<exists>k. e = Ev_Delete_Object k \<and> ends_with ddns_json_file_ext k))"
proof -
  obtain conf where conf: "config_server_parse a = Ok conf" "cs_is_dry_run conf = sa_is_dry_run a"
    by (simp add: config_server_parse_def)
  from server_run_legitimate [OF assms(1) conf(1)] obtain es
    where "trace t = trace s @ es" "list_all (legitimate E conf) es" by blast
  with assms(2) have "legitimate E conf e" by (auto simp: list_all_iff)
  with assms(3) conf(2) show ?thesis
    by (cases e) (simp_all add: legitimate_def mutates_def)
qed

text \<open>Only reading the bucket can go on forever.\<close>

lemma handle_server_ends:
  assumes "\<And>b. tokens_progress (e_s3 E) b (sa_s3_ddns_json_dir a) left"
  shows "handle_server E a s \<noteq> None"
proof -
  have fetch: "fetch_ddns_jsons_from_s3 E conf creds u \<noteq> None"
    if "cs_s3_ddns_json_directory conf = sa_s3_ddns_json_dir a" for conf creds u
  proof -
    have "fetch_pages E conf b tok acc v \<noteq> None" for b tok acc v
      by (rule fetch_pages_ends) (use assms that in simp)
    then show ?thesis
      by (auto simp: fetch_ddns_jsons_from_s3_def lo_bind_def lo_once_def print_def split: result.splits)
  qed
  have "cs_s3_ddns_json_directory conf = sa_s3_ddns_json_dir a" if "server_setup E a s = (Ok (conf, creds), u)"
    for conf creds u
    using server_setup_Ok [OF that] by (auto simp: config_server_parse_def)
  with fetch show ?thesis
    by (auto simp: handle_server_def lo_bind_def lo_once_def lo_ctx_def split: option.splits result.splits prod.splits)
       (metis option.distinct(1))+
qed

text \<open>
  C8: where the paging of the service makes progress, for every bucket that the crate makes, a run of
  the server ends.
\<close>

theorem handle_server_terminates:
  assumes "\<And>b. tokens_progress (e_s3 E) b (sa_s3_ddns_json_dir a) left"
  shows "handle_server E a s \<noteq> None"
  by (rule handle_server_ends [OF assms])

section \<open>What happens after a failure\<close>

text \<open>
  C19: when the update of the DNS fails, the run ends there with the error: no key is deleted, so the
  requests are still there for the next run.
\<close>

theorem failed_update_deletes_nothing:
  assumes "\<not> cs_is_dry_run conf"
    and "commit_changes E conf creds (build_changes verified) s = (Err e, t)"
  shows "apply_changes E conf creds verified errors s = (Err (Context ''failed to commit dns changes'' e), t) \<and>
    (\<exists>es. trace t = trace s @ es \<and> list_all is_dns_post es)"
proof -
  have "emits is_dns_post (commit_changes E conf creds (build_changes verified))"
    by (rule emits_commit_changes) simp
  from emitsD [OF this assms(2)] assms show ?thesis
    by (simp add: apply_changes_def io_bind_def io_ctx_def)
qed

lemma apply_changes_committed:
  assumes "\<not> cs_is_dry_run conf"
    and "commit_changes E conf creds (build_changes verified) s = (Ok info, u)"
  obtains line where "apply_changes E conf creds verified errors s =
    io_bind (print line) (\<lambda>_. io_bind (io_ctx ''failed to cleanup s3 ddns.json items''
      (cleanup E conf creds (delete_keys verified errors) errors)) print_summary) u"
  using assms by (simp add: apply_changes_def Let_def io_bind_def io_ctx_def)

text \<open>A run that got as far as the summary: what it deleted and what it reported.\<close>

lemma apply_changes_summary:
  assumes wet: "\<not> cs_is_dry_run conf"
    and run: "apply_changes E conf creds verified errors s = (r, t)"
    and r: "r = Ok () \<or> r = Err (Bail ''errors occurred while executing this dyndynser run'')"
  obtains b errors' u v where "cleanup_loop E b (delete_keys verified errors) errors u = (Ok errors', v)"
    and "print_summary errors' v = (r, t)"
proof -
  obtain res u where commit: "commit_changes E conf creds (build_changes verified) s = (res, u)"
    by (cases "commit_changes E conf creds (build_changes verified) s")
  from wet run r commit obtain info where info: "res = Ok info"
    by (cases res) (auto simp: apply_changes_def io_bind_def io_ctx_def)
  obtain line where start: "apply_changes E conf creds verified errors s =
    io_bind (print line) (\<lambda>_. io_bind (io_ctx ''failed to cleanup s3 ddns.json items''
      (cleanup E conf creds (delete_keys verified errors) errors)) print_summary) u"
    by (rule apply_changes_committed [OF wet commit [unfolded info]])
  let ?u = "u\<lparr>trace := trace u @ [Ev_Print line]\<rparr>"
  from start run r have step: "apply_changes E conf creds verified errors s =
    io_bind (io_ctx ''failed to cleanup s3 ddns.json items''
      (cleanup E conf creds (delete_keys verified errors) errors)) print_summary ?u"
    by (auto simp: io_bind_def print_def split: if_splits)
  obtain res2 v where clean: "cleanup E conf creds (delete_keys verified errors) errors ?u = (res2, v)"
    by (cases "cleanup E conf creds (delete_keys verified errors) errors ?u")
  from run step clean r obtain errors' where res2: "res2 = Ok errors'"
    by (cases res2) (auto simp: io_bind_def io_ctx_def)
  from clean res2 obtain b where "cleanup_loop E b (delete_keys verified errors) errors ?u = (Ok errors', v)"
    by (auto simp: cleanup_def io_bind_Ok_iff)
  moreover from run step clean res2 have "print_summary errors' v = (r, t)" by (simp add: io_bind_def io_ctx_def)
  ultimately show ?thesis by (rule that)
qed

text \<open>
  A run that updated the DNS and then succeeds had no failure of any kind, neither recorded before
  nor in cleaning up: a recorded failure always makes the result an error.
\<close>

lemma success_means_no_failure:
  assumes "\<not> cs_is_dry_run conf" and "apply_changes E conf creds verified errors s = (Ok (), t)"
  shows "\<not> has_errors errors"
proof -
  obtain b errors' u v where loop: "cleanup_loop E b (delete_keys verified errors) errors u = (Ok errors', v)"
    and summary: "print_summary errors' v = (Ok (), t)"
    by (rule apply_changes_summary [OF assms disjI1 [OF refl]])
  from spec [OF print_summary_reports [of errors', unfolded reports_def], of v] summary
  have "summary_result errors' = Ok ()" by auto
  then have "\<not> has_errors errors'" by (simp add: summary_result_def split: if_splits)
  with cleanup_loop.run_ext [OF loop] show ?thesis using has_errors_ext by blast
qed

text \<open>
  The early returns drop what was recorded: when no request could be read, or none was verified,
  the run succeeds and neither reports the recorded errors nor deletes anything, however many
  failures there were.
\<close>

lemma early_return_drops_errors:
  "server_process E conf creds ([], errors) s = print (Line ''No ddns.json files found, nothing to do.'') s"
  by (simp add: server_process_def)

text \<open>
  C25: the same after checking: when every check fails, the failures are recorded, but the run returns
  success without reporting them, once privileges are dropped and one line is written. (Only where the
  standard output refuses this line does it panic instead.)
\<close>

theorem no_verified_request_drops_errors:
  assumes "validate_unverified_dns_requests E certs (cs_max_time_ago_signed_at conf)
      (cs_insecure_skip_verify conf) reqs ([], errors) s = (Ok ([], errors'), u)"
    and "maybe_drop_privileges (e_unix E) (cs_drop_to_user conf) u = (Ok (), v)"
  shows "validate_and_apply E conf creds reqs certs errors s =
      (if stdout_refuses v (trace v) (Line ''No verified requests found, nothing to do.'')
       then (Panic stdout_failed, v)
       else (Ok (), v\<lparr>trace := trace v @ [Ev_Print (Line ''No verified requests found, nothing to do.'')]\<rparr>)) \<and>
    length (failed_signature_checks errors') = length (failed_signature_checks errors) + length reqs"
proof
  show "validate_and_apply E conf creds reqs certs errors s =
      (if stdout_refuses v (trace v) (Line ''No verified requests found, nothing to do.'')
       then (Panic stdout_failed, v)
       else (Ok (), v\<lparr>trace := trace v @ [Ev_Print (Line ''No verified requests found, nothing to do.'')]\<rparr>))"
    using assms by (simp add: validate_and_apply_def io_bind_def io_ctx_def print_def)
  from validate_loop_count [OF assms(1)]
  show "length (failed_signature_checks errors') = length (failed_signature_checks errors) + length reqs" by simp
qed

text \<open>
  C26: a key whose object could not be fetched, and whose request was therefore never looked at, is
  deleted like a handled one in every run that updates the DNS and gets to its summary.
\<close>

theorem unread_requests_are_deleted:
  assumes "\<not> cs_is_dry_run conf"
    and "apply_changes E conf creds verified errors s =
      (Err (Bail ''errors occurred while executing this dyndynser run''), t)"
    and "(k, e) \<in> set (failed_s3_fetches errors)"
  shows "Ev_Delete_Object (key_text k) \<in> set (trace t)"
proof -
  let ?keys = "delete_keys verified errors"
  obtain b errors' u v where loop: "cleanup_loop E b ?keys errors u = (Ok errors', v)"
    and summary: "print_summary errors' v = (Err (Bail ''errors occurred while executing this dyndynser run''), t)"
    by (rule apply_changes_summary [OF assms(1,2) disjI2 [OF refl]])
  from cleanup_loop_deletes [OF loop] obtain es where es: "trace v = trace u @ es"
    "filter is_s3_delete es = map (\<lambda>k. Ev_Delete_Object (key_text k)) ?keys" by blast
  have "k \<in> set ?keys" using assms(3) by (force simp: delete_keys_def)
  then have "Ev_Delete_Object (key_text k) \<in> set (filter is_s3_delete es)" unfolding es(2) by simp
  moreover have "\<exists>out. trace t = trace v @ out"
    using emitsD [OF emits_print_summary summary, of is_print] by blast
  ultimately show ?thesis using es(1) by auto
qed

end
