(* ===== verification/Logging.thy ===== *)
theory Logging
  imports World
begin

text \<open>
  \<open>src/logging.rs\<close>: the logger that forwards records to several loggers, the one that writes to
  syslog, and their installation. The crates \<open>log\<close>, \<open>env_logger\<close> and \<open>syslog\<close> are parameters: a
  trait object \<open>dyn Log\<close> is the record of its three methods over the state of the world.
\<close>

section \<open>Levels\<close>

text \<open>\<open>log::Level\<close>, from the most to the least severe, and \<open>log::LevelFilter\<close>.\<close>

datatype level = Error | Warn | Info | Debug | Trace

fun rank :: "level \<Rightarrow> nat" where
  "rank Error = 1"
| "rank Warn = 2"
| "rank Info = 3"
| "rank Debug = 4"
| "rank Trace = 5"

lemma rank_inj: "rank l = rank k \<longleftrightarrow> l = k"
  by (cases l; cases k) simp_all

instantiation level :: linorder
begin

definition less_eq_level :: "level \<Rightarrow> level \<Rightarrow> bool" where
  "l \<le> k \<longleftrightarrow> rank l \<le> rank k"

definition less_level :: "level \<Rightarrow> level \<Rightarrow> bool" where
  "l < k \<longleftrightarrow> rank l < rank k"

instance
  by standard (auto simp: less_eq_level_def less_level_def rank_inj)

end

datatype level_filter = Off | Up_To level

text \<open>The comparison \<open>level <= filter\<close>.\<close>

fun admits :: "level_filter \<Rightarrow> level \<Rightarrow> bool" where
  "admits Off l = False"
| "admits (Up_To k) l = (l \<le> k)"

section \<open>Loggers\<close>

record metadata =
  md_level :: level
  md_target :: string

text \<open>A record: its metadata and the text of its arguments.\<close>

record log_entry =
  le_metadata :: metadata
  le_args :: string

record 'w logger =
  lg_enabled :: "metadata \<Rightarrow> bool"
  lg_log :: "log_entry \<Rightarrow> 'w \<Rightarrow> 'w"
  lg_flush :: "'w \<Rightarrow> 'w"

section \<open>\<open>MultiLogger\<close>\<close>

definition multi_enabled :: "'w logger list \<Rightarrow> metadata \<Rightarrow> bool" where
  "multi_enabled loggers m = list_ex (\<lambda>l. lg_enabled l m) loggers"

fun multi_log :: "'w logger list \<Rightarrow> log_entry \<Rightarrow> 'w \<Rightarrow> 'w" where
  "multi_log [] r w = w"
| "multi_log (l # ls) r w =
     multi_log ls r (if lg_enabled l (le_metadata r) then lg_log l r w else w)"

fun multi_flush :: "'w logger list \<Rightarrow> 'w \<Rightarrow> 'w" where
  "multi_flush [] w = w"
| "multi_flush (l # ls) w = multi_flush ls (lg_flush l w)"

definition multi_logger :: "'w logger list \<Rightarrow> 'w logger" where
  "multi_logger loggers =
     \<lparr>lg_enabled = multi_enabled loggers, lg_log = multi_log loggers, lg_flush = multi_flush loggers\<rparr>"

section \<open>\<open>Syslog5424Logger\<close>\<close>

datatype facility = LOG_USER

datatype severity = Sev_Err | Sev_Warning | Sev_Info | Sev_Debug

text \<open>\<open>Formatter5424\<close>; the process id is the one of the running process.\<close>

record formatter5424 =
  fm_facility :: facility
  fm_hostname :: "string option"
  fm_process :: string

text \<open>The message id, the structured data and the message.\<close>

type_synonym payload5424 = "u32 \<times> (string \<times> (string \<times> string) list) list \<times> string"

text \<open>
  The crate \<open>syslog\<close>: connecting, and writing a message; the result of a write is thrown away. The
  mutex around the connection can be poisoned, and is not entered then.
\<close>

record 'w syslog_crate =
  sy_unix :: "formatter5424 \<Rightarrow> 'w \<Rightarrow> unit result \<times> 'w"
  sy_poisoned :: "'w \<Rightarrow> bool"
  sy_write :: "severity \<Rightarrow> payload5424 \<Rightarrow> 'w \<Rightarrow> 'w"

definition make_payload :: "log_entry \<Rightarrow> payload5424" where
  "make_payload r = (0, [], le_args r)"

definition severity_of :: "level \<Rightarrow> severity" where
  "severity_of l =
     (case l of
        Error \<Rightarrow> Sev_Err
      | Warn \<Rightarrow> Sev_Warning
      | Info \<Rightarrow> Sev_Info
      | Debug \<Rightarrow> Sev_Debug
      | Trace \<Rightarrow> Sev_Debug)"

definition syslog_log :: "'w syslog_crate \<Rightarrow> level_filter \<Rightarrow> log_entry \<Rightarrow> 'w \<Rightarrow> 'w" where
  "syslog_log Y lvl r w =
     (if \<not> admits lvl (md_level (le_metadata r)) then w
      else if sy_poisoned Y w then w
      else sy_write Y (severity_of (md_level (le_metadata r))) (make_payload r) w)"

definition syslog_logger :: "'w syslog_crate \<Rightarrow> level_filter \<Rightarrow> 'w logger" where
  "syslog_logger Y lvl =
     \<lparr>lg_enabled = (\<lambda>m. admits lvl (md_level m)), lg_log = syslog_log Y lvl, lg_flush = (\<lambda>w. w)\<rparr>"

text \<open>\<open>Syslog5424Logger::new\<close>.\<close>

definition syslog5424_new ::
  "'w syslog_crate \<Rightarrow> string \<Rightarrow> facility \<Rightarrow> level_filter \<Rightarrow> 'w \<Rightarrow> 'w logger result \<times> 'w" where
  "syslog5424_new Y app_name fac lvl w =
     (case sy_unix Y \<lparr>fm_facility = fac, fm_hostname = None, fm_process = app_name\<rparr> w of
        (r, w') \<Rightarrow> (and_then r (\<lambda>_. Ok (syslog_logger Y lvl)), w'))"

section \<open>Installing the loggers\<close>

text \<open>The logger and the level that the crate \<open>log\<close> keeps for the process.\<close>

record 'w log_facade =
  boxed_logger :: "'w logger option"
  max_level :: level_filter

text \<open>\<open>env_logger\<close> built from the environment: a logger, and the widest level it admits.\<close>

record 'w env_logger =
  el_logger :: "'w logger"
  el_filter :: level_filter

definition init_global_loggers ::
  "'w syslog_crate \<Rightarrow> 'w env_logger \<Rightarrow> string \<Rightarrow> 'w log_facade \<Rightarrow> 'w \<Rightarrow> 'w log_facade result \<times> 'w" where
  "init_global_loggers Y env_log app_name facade w =
     (case syslog5424_new Y app_name LOG_USER (Up_To Info) w of
        (Ok ss, w') \<Rightarrow>
          (if boxed_logger facade \<noteq> None then Panic ''Failed to set logger''
           else Ok \<lparr>boxed_logger = Some (multi_logger [el_logger env_log, ss]), max_level = el_filter env_log\<rparr>, w')
      | (Err e, w') \<Rightarrow> (Err (Bail ''Cannot contact syslog service''), w')
      | (Panic p, w') \<Rightarrow> (Panic p, w'))"

section \<open>Which records reach a logger\<close>

lemma multi_log_filter:
  "multi_log ls r w = fold (\<lambda>l. lg_log l r) (filter (\<lambda>l. lg_enabled l (le_metadata r)) ls) w"
  by (induction ls arbitrary: w) simp_all

lemma multi_enabled_iff: "multi_enabled ls m \<longleftrightarrow> (\<exists>l \<in> set ls. lg_enabled l m)"
  by (simp add: multi_enabled_def list_ex_iff)

text \<open>A record that the multi-logger does not accept would have changed nothing.\<close>

lemma multi_log_disabled: "\<not> multi_enabled ls (le_metadata r) \<Longrightarrow> multi_log ls r w = w"
  by (induction ls arbitrary: w) (simp_all add: multi_enabled_def)

lemma severity_of_mono: "l \<le> k \<Longrightarrow> severity_of l = Sev_Debug \<Longrightarrow> severity_of k = Sev_Debug"
  by (cases l; cases k) (simp_all add: severity_of_def less_eq_level_def)

lemma admits_less: "k \<le> l \<Longrightarrow> admits f l \<Longrightarrow> admits f k"
  by (cases f) auto

lemma init_Ok_iff:
  "init_global_loggers Y env_log app_name facade w = (Ok facade', w') \<longleftrightarrow>
     sy_unix Y \<lparr>fm_facility = LOG_USER, fm_hostname = None, fm_process = app_name\<rparr> w = (Ok (), w') \<and>
     boxed_logger facade = None \<and>
     facade' = \<lparr>boxed_logger = Some (multi_logger [el_logger env_log, syslog_logger Y (Up_To Info)]),
       max_level = el_filter env_log\<rparr>"
  by (auto simp: init_global_loggers_def syslog5424_new_def ok_iff split: prod.splits result.splits)

text \<open>
  C39: what the installed logger does with a record. It first gives it to the environment's logger, if that
  one is enabled for it, and then writes it to syslog, if its level is at most \<open>Info\<close> and no thread died
  while writing, with the severity of its level and without structured data. It is enabled for a record
  when one of the two is. The level of the process is the one of the environment's logger alone.
\<close>

theorem installed_loggers_receive:
  assumes "init_global_loggers Y env_log app_name facade w0 = (Ok facade', w1)"
  shows "max_level facade' = el_filter env_log \<and>
    (\<exists>L. boxed_logger facade' = Some L \<and>
       (\<forall>m. lg_enabled L m \<longleftrightarrow> lg_enabled (el_logger env_log) m \<or> md_level m \<le> Info) \<and>
       (\<forall>r w. lg_log L r w =
          (let w' = if lg_enabled (el_logger env_log) (le_metadata r) then lg_log (el_logger env_log) r w else w in
           if md_level (le_metadata r) \<le> Info \<and> \<not> sy_poisoned Y w' then
             sy_write Y
               (if md_level (le_metadata r) = Error then Sev_Err
                else if md_level (le_metadata r) = Warn then Sev_Warning else Sev_Info)
               (0, [], le_args r) w'
           else w')))"
proof -
  have severity: "severity_of l = (if l = Error then Sev_Err else if l = Warn then Sev_Warning else Sev_Info)"
    if "l \<le> Info" for l
    using that by (cases l) (simp_all add: severity_of_def less_eq_level_def)
  have log: "syslog_log Y (Up_To Info) r w =
      (if md_level (le_metadata r) \<le> Info \<and> \<not> sy_poisoned Y w then
         sy_write Y (if md_level (le_metadata r) = Error then Sev_Err
           else if md_level (le_metadata r) = Warn then Sev_Warning else Sev_Info) (0, [], le_args r) w
       else w)" for r w
    by (simp add: syslog_log_def severity make_payload_def)
  from assms have "facade' = \<lparr>boxed_logger = Some (multi_logger [el_logger env_log, syslog_logger Y (Up_To Info)]),
      max_level = el_filter env_log\<rparr>" by (simp add: init_Ok_iff)
  then show ?thesis
    by (simp add: multi_logger_def multi_enabled_def syslog_logger_def log Let_def del: if_split)
qed

section \<open>A concrete installation\<close>

text \<open>A world that is the list of the messages syslog got, and an environment's logger that writes nothing.\<close>

definition demo_syslog :: "(severity \<times> payload5424) list syslog_crate" where
  "demo_syslog =
     \<lparr>sy_unix = (\<lambda>f w. (Ok (), w)), sy_poisoned = (\<lambda>w. False), sy_write = (\<lambda>v p w. w @ [(v, p)])\<rparr>"

definition demo_env_logger :: "level_filter \<Rightarrow> 'w env_logger" where
  "demo_env_logger f =
     \<lparr>el_logger = \<lparr>lg_enabled = (\<lambda>m. admits f (md_level m)), lg_log = (\<lambda>r w. w), lg_flush = (\<lambda>w. w)\<rparr>,
      el_filter = f\<rparr>"

definition demo_entry :: "level \<Rightarrow> log_entry" where
  "demo_entry l = \<lparr>le_metadata = \<lparr>md_level = l, md_target = ''dyndynser''\<rparr>, le_args = ''message''\<rparr>"

abbreviation "demo_facade f \<equiv>
  \<lparr>boxed_logger = Some (multi_logger [el_logger (demo_env_logger f), syslog_logger demo_syslog (Up_To Info)]),
   max_level = f\<rparr>"

lemma demo_init:
  "init_global_loggers demo_syslog (demo_env_logger f) ''dyndynser'' \<lparr>boxed_logger = None, max_level = Off\<rparr> [] =
     (Ok (demo_facade f), [])"
  unfolding init_Ok_iff by (simp add: demo_syslog_def demo_env_logger_def)

text \<open>A warning arrives in syslog as such, and a debug message does not, whatever the environment's logger admits.\<close>

lemma installed_loggers_receive_witness:
  "\<exists>L. boxed_logger (demo_facade (Up_To Error)) = Some L \<and>
     lg_log L (demo_entry Warn) [] = [(Sev_Warning, 0, [], ''message'')] \<and> lg_log L (demo_entry Debug) [] = []"
proof -
  have levels: "Warn \<le> Info" "\<not> Debug \<le> Info" by (simp_all add: less_eq_level_def)
  show ?thesis
    by (insert installed_loggers_receive [OF demo_init [of "Up_To Error"]],
        elim conjE exE, intro exI conjI, assumption)
       (simp_all add: demo_entry_def demo_env_logger_def demo_syslog_def levels)
qed

end
