(* ===== verification/Entry.thy ===== *)
theory Entry
  imports Ip_Cmd Server Logging
begin

text \<open>
  \<open>src/main.rs\<close>: the loggers are installed, the command line is parsed and the subcommand is run. Here
  meet the three commands, so here are the properties of the program as a whole: which calls each role
  makes.
\<close>

definition app_name :: string where
  "app_name = ''dyndynser''"

definition dispatch :: "('k, 'b, 'w) env \<Rightarrow> sub_commands \<Rightarrow> ('w sys, unit) looping" where
  "dispatch E c =
     (case c of
        Server a \<Rightarrow> handle_server E a
      | Client a \<Rightarrow> lo_once (handle_client E a)
      | IP a \<Rightarrow> lo_once (handle_ip E a))"

text \<open>The process starts without a logger. What the later log calls write is left out.\<close>

definition main_entry ::
  "'w syslog_crate \<Rightarrow> 'w env_logger \<Rightarrow> target_os \<Rightarrow> string \<Rightarrow> clap_crate \<Rightarrow> ('k, 'b, 'w) env \<Rightarrow>
     ('w sys, unit) looping" where
  "main_entry Y env_log tgt cmd C E =
     lo_bind (lo_once (quietly (init_global_loggers Y env_log app_name \<lparr>boxed_logger = None, max_level = Off\<rparr>))) (\<lambda>_.
     lo_bind (lo_once (io_lift (cli_parse tgt cmd C))) (dispatch E))"

section \<open>Which services each role calls\<close>

text \<open>The calls of S3 and of Route 53.\<close>

definition calls_aws :: "event \<Rightarrow> bool" where
  "calls_aws e \<longleftrightarrow> is_s3_read e \<or> mutates e"

text \<open>What a role may call: the client puts objects, the server does everything else, the third nothing.\<close>

definition role_may :: "string \<Rightarrow> event \<Rightarrow> bool" where
  "role_may cmd e \<longleftrightarrow>
     (if cmd = ''client'' then calls_aws e \<longrightarrow> is_s3_put e
      else if cmd = ''server'' then \<not> is_s3_put e
      else \<not> calls_aws e)"

lemma calls_aws_simps [simp]:
  "is_print e \<Longrightarrow> \<not> calls_aws e" "is_http_get e \<Longrightarrow> \<not> calls_aws e"
  "is_file_call e \<Longrightarrow> \<not> calls_aws e" "is_privilege_call e \<Longrightarrow> \<not> calls_aws e"
  by (cases e; simp add: calls_aws_def mutates_def is_file_call_def is_privilege_call_def)+

lemma server_phases_no_put:
  "is_print e \<or> is_s3_read e \<or> is_file_call e \<or> is_privilege_call e \<or> is_dns_post e \<or> is_cleanup e \<Longrightarrow>
     \<not> is_s3_put e"
  by (cases e) (simp_all add: is_file_call_def is_privilege_call_def is_cleanup_def)

lemma handle_client_role: "emits (role_may ''client'') (handle_client E a)"
  by (rule phased_emits [OF phased_handle_client]) (auto simp: role_may_def)

lemma handle_ip_role: "emits (role_may ''ip'') (handle_ip E a)"
proof -
  have ip: "role_may ''ip'' = (\<lambda>e. \<not> calls_aws e)" by (simp add: fun_eq_iff role_may_def)
  have "emits (\<lambda>e. \<not> calls_aws e) (show_ip conf ip)" for conf ip
    by (cases ip) (auto simp: show_ip_def wrong_family_def intro!: emits_intros)
  then show ?thesis
    unfolding handle_ip_def ip by (intro emits_intros emits_query_for_ip) simp_all
qed

lemma handle_server_role:
  assumes "handle_server E a s = Some (r, t)"
  shows "\<exists>es. trace t = trace s @ es \<and> list_all (role_may ''server'') es"
proof -
  from handle_server_in_phases [OF assms] obtain es where es: "trace t = trace s @ es"
    and phases: "in_phases [is_print, is_s3_read, is_print, is_file_call, is_privilege_call, is_dns_post, is_cleanup] es"
    by blast
  from phases have "list_all (role_may ''server'') es"
    by (rule in_phases_all) (use server_phases_no_put in \<open>force simp: role_may_def\<close>)
  with es show ?thesis by blast
qed

lemma cli_parse_command:
  "cli_parse tgt cmd C = Ok c \<Longrightarrow>
     (case c of Server a \<Rightarrow> cmd = ''server'' | Client a \<Rightarrow> cmd = ''client'' | IP a \<Rightarrow> cmd = ''ip'')"
  by (auto simp: cli_parse_def ok_iff split: if_splits)

lemma dispatch_role:
  assumes "cli_parse tgt cmd C = Ok c" and "dispatch E c s = Some (r, t)"
  shows "\<exists>es. trace t = trace s @ es \<and> list_all (role_may cmd) es"
proof (cases c)
  case (Server a)
  with assms show ?thesis
    using handle_server_role cli_parse_command by (fastforce simp: dispatch_def)
next
  case (Client a)
  with assms(2) have run: "handle_client E a s = (r, t)" by (simp add: dispatch_def lo_once_def)
  have "cmd = ''client''" using cli_parse_command [OF assms(1)] Client by simp
  with emitsD [OF handle_client_role run] show ?thesis by simp
next
  case (IP a)
  with assms(2) have run: "handle_ip E a s = (r, t)" by (simp add: dispatch_def lo_once_def)
  have "cmd = ''ip''" using cli_parse_command [OF assms(1)] IP by simp
  with emitsD [OF handle_ip_role run] show ?thesis by simp
qed

lemma main_entry_role:
  assumes "main_entry Y env_log tgt cmd C E s = Some (r, t)"
  shows "\<exists>es. trace t = trace s @ es \<and> list_all (role_may cmd) es"
  using assms unfolding main_entry_def
proof (cases rule: lo_bind_Some)
  case (stop r')
  then have "trace t = trace s" by (auto simp: lo_once_def quietly_def split: prod.splits)
  then show ?thesis by simp
next
  case (go x u)
  from go(1) have u: "trace u = trace s" by (auto simp: lo_once_def quietly_def split: prod.splits)
  from go(2) show ?thesis
  proof (cases rule: lo_bind_Some)
    case (stop r')
    then show ?thesis using u by (simp add: lo_once_def)
  next
    case (go c v)
    then have "cli_parse tgt cmd C = Ok c" and "v = u" by (simp_all add: lo_once_def)
    with dispatch_role go(2) u show ?thesis by fastforce
  qed
qed

text \<open>
  C12: the roles of the README are separate. Of all calls of S3 and Route 53, a run as client makes
  only puts of objects; a run as server makes no put; any other run makes none at all.
\<close>

theorem roles_are_separated:
  assumes "main_entry Y env_log tgt cmd C E s = Some (r, t)"
    and "e \<in> set (drop (length (trace s)) (trace t))" and "calls_aws e"
  shows "cmd = ''client'' \<and> is_s3_put e \<or> cmd = ''server'' \<and> \<not> is_s3_put e"
proof -
  from main_entry_role [OF assms(1)] obtain es
    where "trace t = trace s @ es" and "list_all (role_may cmd) es" by blast
  with assms(2) have "role_may cmd e" by (auto simp: list_all_iff)
  with assms(3) show ?thesis by (auto simp: role_may_def split: if_splits)
qed

text \<open>
  C40: without a syslog service there is no run: whatever the command line says, even for a dry run or
  the address query, the program ends with this error before it parsed its arguments, and made no call.
\<close>

theorem no_syslog_no_run:
  assumes "sy_unix Y \<lparr>fm_facility = LOG_USER, fm_hostname = None, fm_process = app_name\<rparr> (world s) = (Err e, w)"
  shows "main_entry Y env_log tgt cmd C E s = Some (Err (Bail ''Cannot contact syslog service''), s\<lparr>world := w\<rparr>)"
  using assms
  by (simp add: main_entry_def lo_bind_def lo_once_def quietly_def init_global_loggers_def syslog5424_new_def)

end
