(* ===== verification/System.thy ===== *)
theory System
  imports Entry
begin

text \<open>
  The client and the server together: what the client puts into the bucket is what the server accepts,
  and, with the delimiter that the server lists by, where the server finds it.
\<close>

section \<open>From the client to the DNS\<close>

text \<open>The key that the first certificate for a domain has, and a request that comes in time.\<close>

definition trusts :: "cert_match list \<Rightarrow> string \<Rightarrow> verifying_key \<Rightarrow> bool" where
  "trusts certs d vk \<longleftrightarrow> (\<exists>c. find (\<lambda>x. common_name x = d) certs = Some c \<and> cert_key c = vk)"

definition in_time :: "('k, 'b, 'w) env \<Rightarrow> int \<Rightarrow> unverified_request \<Rightarrow> 'w sys \<Rightarrow> bool" where
  "in_time E age r s \<longleftrightarrow>
     (\<exists>latest now w. latest_accept E age r latest \<and> http_clock (e_http E) (world s) = (now, w) \<and> now \<le> latest)"

text \<open>The name of the DNS record for a domain, and its data for an address.\<close>

definition fqdn :: "string \<Rightarrow> string" where
  "fqdn d = (if ends_with ''.'' d then d else d @ ''.'')"

lemma fixed_name_fqdn: "fixed_name r = fqdn (rr_name r)"
  by (cases "data_record_type (rr_data r)") (simp_all add: fixed_name_def fqdn_def)

lemma fetch_object_reads:
  assumes "ends_with ddns_json_file_ext key" and "s3_get_object (e_s3 E) b key (world x) = (Ok bs, w)"
    and "signed_payload_from_slice (e_hex E) (e_json E) record_set_of_json bs = Ok sp"
  shows "fetch_object E b key acc x =
    (Ok (fst acc @ [\<lparr>ur_signed_payload = sp, ur_s3_key = S3_Key key\<rparr>], snd acc),
     x\<lparr>world := w, trace := trace x @ [Ev_Get_Object key]\<rparr>)"
  using assms by (cases acc) (simp add: fetch_object_def io_match_def perform_def)

lemma trusted_request_accepted:
  assumes "trusts certs (request_name r) vk" and "in_time E age r v"
    and "signed_bytes (e_json E) record_set_to_json (envelope (ur_signed_payload r)) = Some m"
    and "verify_strict (e_dalek E) vk m (signature_inner (signature (ur_signed_payload r)))"
  shows "fst (check_valid_ddns_request E r certs age False v) = Ok (to_verified r)"
proof -
  have "authentic E certs r" using assms(1,3,4) unfolding authentic_def trusts_def by blast
  moreover from assms(2) obtain latest now w where "latest_accept E age r latest"
    "http_clock (e_http E) (world v) = (now, w)" "now \<le> latest" unfolding in_time_def by blast
  ultimately have "check_valid_ddns_request E r certs age False v = (Ok (to_verified r), v\<lparr>world := w\<rparr>)"
    unfolding check_valid_Ok_iff by blast
  then show ?thesis by simp
qed

text \<open>
  C2: the round trip of the system. Let a client run succeed, and a server with the same crates get the
  object that this run has put. Then the server reads a request from it, accepts it with every list of
  certificates whose first one for the domain has the public half of the client's key, as long as it
  comes in time, and the change it makes of it sets the fully qualified name of the client's domain to
  the address that the address service had answered to the client, with the client's time to live.
\<close>

theorem client_request_is_accepted:
  assumes libs: "hex_roundtrips (e_hex E)" "json_roundtrips (e_json E)" "signatures_verify (e_dalek E)"
    and same: "e_hex E' = e_hex E" "e_json E' = e_json E" "e_dalek E' = e_dalek E"
    and run: "handle_client E a s = (Ok (), t)" and wet: "\<not> ca_is_dry_run a"
    and conf: "config_client_parse (e_lower E) a = Ok conf" and key: "client_signing_key E conf s = (Ok sk, u)"
    and put: "Ev_Put_Object k bs \<in> set (drop (length (trace s)) (trace t))"
    and got: "s3_get_object (e_s3 E') b k (world x) = (Ok bs, w)"
  shows "\<exists>r ip. answered (e_http E) (ca_ip_addr_check_url a) (world u) ip \<and>
    fetch_object E' b k acc x =
      (Ok (fst acc @ [r], snd acc), x\<lparr>world := w, trace := trace x @ [Ev_Get_Object k]\<rparr>) \<and>
    (\<forall>certs age v. trusts certs (domain_inner (cc_domain conf)) (verifying_key_of (e_dalek E) sk) \<longrightarrow>
       in_time E' age r v \<longrightarrow> fst (check_valid_ddns_request E' r certs age False v) = Ok (to_verified r)) \<and>
    build_change (to_verified r) =
      \<lparr>action = Upsert, record_set =
         \<lparr>rr_name = fqdn (domain_inner (cc_domain conf)),
          rr_ttl = (case ca_ttl a of None \<Rightarrow> 300 | Some n \<Rightarrow> n),
          rr_data = (case ip of V4 y \<Rightarrow> A [y] | V6 y \<Rightarrow> AAAA [y])\<rparr>\<rparr>"
proof -
  obtain ip sp m bs' before out where trace: "trace t = trace s @ before @
      [Ev_Put_Object (ca_s3_ddns_json_dir a @ ''/'' @ domain_inner (cc_domain conf) @ ''.ddns.json'') bs', Ev_Print out]"
    and before: "list_all (\<lambda>e. \<not> mutates e) before"
    and sp: "signed_payload_from_slice (e_hex E) (e_json E) record_set_of_json bs' = Ok sp"
    and payload: "payload (envelope sp) = \<lparr>rr_name = domain_inner (cc_domain conf),
      rr_ttl = (case ca_ttl a of None \<Rightarrow> 300 | Some n \<Rightarrow> n), rr_data = (case ip of V4 y \<Rightarrow> A [y] | V6 y \<Rightarrow> AAAA [y])\<rparr>"
    and ip: "answered (e_http E) (ca_ip_addr_check_url a) (world u) ip"
    and signed: "signed_bytes (e_json E) record_set_to_json (envelope sp) = Some m"
    and verified: "verify_strict (e_dalek E) (verifying_key_of (e_dalek E) sk) m (signature_inner (signature sp))"
    using client_run_uploads [OF libs run wet] conf key by auto
  have "Ev_Put_Object k bs \<notin> set before" using before by (auto simp: list_all_iff mutates_def)
  with put trace have k: "k = ca_s3_ddns_json_dir a @ ''/'' @ domain_inner (cc_domain conf) @ ''.ddns.json''"
    and bs: "bs' = bs" by auto
  let ?r = "\<lparr>ur_signed_payload = sp, ur_s3_key = S3_Key k\<rparr>"
  have name: "request_name ?r = domain_inner (cc_domain conf)"
    by (simp add: request_name_def payload)
  have "ends_with ddns_json_file_ext k"
  proof -
    have "k = (ca_s3_ddns_json_dir a @ ''/'' @ domain_inner (cc_domain conf)) @ ddns_json_file_ext"
      by (simp add: k ddns_json_file_ext_def)
    then show ?thesis by (simp only: ends_with_append)
  qed
  from fetch_object_reads [OF this got] sp have "fetch_object E' b k acc x =
      (Ok (fst acc @ [?r], snd acc), x\<lparr>world := w, trace := trace x @ [Ev_Get_Object k]\<rparr>)"
    by (simp add: same bs)
  moreover have "fst (check_valid_ddns_request E' ?r certs age False v) = Ok (to_verified ?r)"
    if "trusts certs (domain_inner (cc_domain conf)) (verifying_key_of (e_dalek E) sk)" "in_time E' age ?r v"
    for certs age v
    using that signed verified by (intro trusted_request_accepted) (simp_all add: name same)
  moreover have "build_change (to_verified ?r) =
      \<lparr>action = Upsert, record_set =
         \<lparr>rr_name = fqdn (domain_inner (cc_domain conf)),
          rr_ttl = (case ca_ttl a of None \<Rightarrow> 300 | Some n \<Rightarrow> n),
          rr_data = (case ip of V4 y \<Rightarrow> A [y] | V6 y \<Rightarrow> AAAA [y])\<rparr>\<rparr>"
    by (simp add: build_change_def to_verified_def payload fixed_name_fqdn Let_def)
  ultimately show ?thesis using ip by blast
qed

section \<open>Where the server looks\<close>

text \<open>
  What S3 documents of a listing with the delimiter \<open>/\<close>: the contents are the keys under the prefix
  with no delimiter after it; all others are only counted among the common prefixes.
\<close>

definition s3_lists_by_delimiter :: "('b, 'w) s3_calls \<Rightarrow> bool" where
  "s3_lists_by_delimiter S \<longleftrightarrow>
     (\<forall>b p tok w page w' k. s3_list_page S b p (Some ''/'') tok w = (Ok page, w') \<longrightarrow>
        k \<in> set (page_keys page) \<longrightarrow> (\<exists>rest. k = p @ rest \<and> CHR ''/'' \<notin> set rest))"

text \<open>A key directly under a prefix.\<close>

definition directly_under :: "string \<Rightarrow> string \<Rightarrow> bool" where
  "directly_under p k \<longleftrightarrow> (\<exists>rest. k = p @ rest \<and> CHR ''/'' \<notin> set rest)"

lemma slash_not_directly_under: "\<not> directly_under p (p @ ''/'' @ name)"
  by (simp add: directly_under_def)

definition reads_under :: "string \<Rightarrow> event \<Rightarrow> bool" where
  "reads_under p e \<longleftrightarrow> (case e of Ev_Get_Object k \<Rightarrow> directly_under p k | _ \<Rightarrow> True)"

lemma listed_directly_under:
  "s3_lists_by_delimiter S \<Longrightarrow> s3_list_page S b p (Some ''/'') tok w = (Ok page, w') \<Longrightarrow>
     k \<in> set (page_keys page) \<Longrightarrow> directly_under p k"
  unfolding s3_lists_by_delimiter_def directly_under_def by blast

lemma reads_under_other:
  "is_print e \<or> is_file_call e \<or> is_privilege_call e \<or> is_dns_post e \<or> is_cleanup e \<Longrightarrow> reads_under p e"
  by (cases e) (simp_all add: reads_under_def is_file_call_def is_privilege_call_def is_cleanup_def)

lemma server_setup_prints: "emits (reads_under p) (server_setup E a)"
  by (rule server_setup_emits) (rule reads_under_other, simp)

lemma fetch_ddns_reads_under:
  assumes "s3_lists_by_delimiter (e_s3 E)" and "fetch_ddns_jsons_from_s3 E conf creds s = Some (r, t)"
  shows "\<exists>es. trace t = trace s @ es \<and> list_all (reads_under (cs_s3_ddns_json_directory conf)) es"
  using assms(2) unfolding fetch_ddns_jsons_from_s3_def
proof (cases rule: lo_bind_Some)
  case (stop r')
  then show ?thesis by (simp add: lo_once_def)
next
  case (go bucket u)
  then have u: "u = s" by (simp add: lo_once_def)
  from go(2) show ?thesis
  proof (cases rule: lo_bind_Some)
    case (stop r')
    with u have "t = s" by (auto simp: lo_once_def print_def split: if_splits)
    then show ?thesis by (intro exI [of _ "[]"]) simp
  next
    case (go x v)
    let ?P = "reads_under (cs_s3_ddns_json_directory conf)"
    have "emits ?P (fetch_page E conf bucket tok acc)" for tok acc
      by (rule emits_fetch_page_listed)
         (simp_all add: reads_under_def listed_directly_under [OF assms(1)])
    from fetch_pages_emits_if [OF go(2) this] obtain es
      where "trace t = trace v @ es" "list_all ?P es" by auto
    with go(1) u show ?thesis by (auto simp: lo_once_def print_Ok_iff reads_under_def)
  qed
qed

lemma server_process_reads_nothing: "emits (reads_under p) (server_process E conf creds fetched)"
  by (rule phased_emits [OF phased_server_process], rule reads_under_other) auto

lemma handle_server_reads_under:
  assumes "s3_lists_by_delimiter (e_s3 E)" and "handle_server E a s = Some (r, t)"
  shows "\<exists>es. trace t = trace s @ es \<and> list_all (reads_under (sa_s3_ddns_json_dir a)) es"
proof -
  have dir: "cs_s3_ddns_json_directory conf = sa_s3_ddns_json_dir a"
    if "server_setup E a s = (Ok (conf, creds), u)" for conf creds u
    using server_setup_Ok [OF that] by (auto simp: config_server_parse_def)
  from assms(2) show ?thesis
  proof (cases rule: handle_server_stages)
    case (at_setup r')
    from emitsD [OF server_setup_prints at_setup(1)] show ?thesis .
  next
    case (at_fetch conf creds u r')
    from emitsD [OF server_setup_prints at_fetch(1)] fetch_ddns_reads_under [OF assms(1) at_fetch(2)]
      dir [OF at_fetch(1)] show ?thesis by fastforce
  next
    case (at_process conf creds u fetched v)
    from emitsD [OF server_setup_prints at_process(1)] obtain es
      where "trace u = trace s @ es" "list_all (reads_under (sa_s3_ddns_json_dir a)) es" by blast
    moreover from fetch_ddns_reads_under [OF assms(1) at_process(2)] obtain fs
      where "trace v = trace u @ fs" "list_all (reads_under (sa_s3_ddns_json_dir a)) fs"
      using dir [OF at_process(1)] by auto
    moreover from emitsD [OF server_process_reads_nothing at_process(3)] obtain gs
      where "trace t = trace v @ gs" "list_all (reads_under (sa_s3_ddns_json_dir a)) gs" by blast
    ultimately show ?thesis by (intro exI [of _ "es @ fs @ gs"]) simp
  qed
qed

text \<open>
  C11: a client and a server that are given the same directory never meet, as both do by default. The
  client puts its request below the directory and a slash, but the server lists the directory without
  the slash and with the delimiter, which leaves such a key out: in no run does it get the object.
\<close>

theorem same_directory_is_never_read:
  assumes "s3_lists_by_delimiter (e_s3 E)" and "handle_server E a s = Some (r, t)"
    and "config_client_parse lower c = Ok conf" and "ca_s3_ddns_json_dir c = sa_s3_ddns_json_dir a"
  shows "Ev_Get_Object (ddns_json_path conf (client_record conf ip)) \<notin> set (drop (length (trace s)) (trace t))"
proof
  assume ev: "Ev_Get_Object (ddns_json_path conf (client_record conf ip)) \<in> set (drop (length (trace s)) (trace t))"
  from handle_server_reads_under [OF assms(1,2)] obtain es
    where "trace t = trace s @ es" "list_all (reads_under (sa_s3_ddns_json_dir a)) es" by blast
  with ev have "directly_under (sa_s3_ddns_json_dir a) (ddns_json_path conf (client_record conf ip))"
    by (auto simp: list_all_iff reads_under_def)
  moreover have "ddns_json_path conf (client_record conf ip) =
      sa_s3_ddns_json_dir a @ ''/'' @ make_filename (client_record conf ip)"
    using config_client_parse_Ok [OF assms(3)] assms(4) by (simp add: ddns_json_path_def)
  ultimately show False using slash_not_directly_under by simp
qed

end
