(* ===== verification/Route53_Text.thy ===== *)
theory Route53_Text
  imports Route53
begin

text \<open>
  What Route 53 reads in the request that \<open>build_change_xml\<close> builds. The reader here collects the
  elements that carry text (\<open>Comment\<close>, \<open>Action\<close>, \<open>Name\<close>, \<open>Type\<close>, \<open>TTL\<close>, \<open>Value\<close>) with the
  entities decoded, in document order; whatever stands in a name or comment, it finds the changes
  that were given and nothing else.
\<close>

section \<open>A reader of text elements\<close>

definition leaf_tags :: "string list" where
  "leaf_tags = [''Comment'', ''Action'', ''Name'', ''Type'', ''TTL'', ''Value'']"

text \<open>An element with the tag at the front: its text and what follows.\<close>

definition leaf_at :: "string \<Rightarrow> string \<Rightarrow> (string \<times> string) option" where
  "leaf_at tag s =
     (case strip_prefix (''<'' @ tag @ ''>'') s of
        None \<Rightarrow> None
      | Some r \<Rightarrow>
          (case strip_prefix (''</'' @ tag @ ''>'') (dropWhile (\<lambda>c. c \<noteq> CHR ''<'') r) of
             None \<Rightarrow> None
           | Some rest \<Rightarrow> Some (takeWhile (\<lambda>c. c \<noteq> CHR ''<'') r, rest)))"

fun first_leaf :: "string list \<Rightarrow> string \<Rightarrow> ((string \<times> string) \<times> string) option" where
  "first_leaf [] s = None"
| "first_leaf (t # ts) s =
     (case leaf_at t s of Some (x, rest) \<Rightarrow> Some ((t, xml_unescape x), rest) | None \<Rightarrow> first_leaf ts s)"

lemma leaf_at_shorter: "leaf_at tag s = Some (x, rest) \<Longrightarrow> length rest < length s"
proof -
  assume "leaf_at tag s = Some (x, rest)"
  then obtain r where s: "s = (''<'' @ tag @ ''>'') @ r"
    and r: "dropWhile (\<lambda>c. c \<noteq> CHR ''<'') r = (''</'' @ tag @ ''>'') @ rest"
    by (auto simp: leaf_at_def strip_prefix_Some_iff split: option.splits)
  have "length ((''</'' @ tag @ ''>'') @ rest) \<le> length r"
    unfolding r [symmetric] by (rule length_dropWhile_le)
  with s show ?thesis by simp
qed

lemma first_leaf_shorter: "first_leaf ts s = Some (f, rest) \<Longrightarrow> length rest < length s"
  by (induction ts) (auto dest: leaf_at_shorter split: option.splits prod.splits)

function xml_leaves :: "string \<Rightarrow> (string \<times> string) list" where
  "xml_leaves [] = []"
| "xml_leaves (c # cs) =
     (if c \<noteq> CHR ''<'' then xml_leaves cs
      else (case first_leaf leaf_tags (c # cs) of
              None \<Rightarrow> xml_leaves cs
            | Some (f, rest) \<Rightarrow> f # xml_leaves rest))"
  by pat_completeness auto
termination
  by (relation "measure length") (auto dest: first_leaf_shorter)

section \<open>Texts that are read independently of what follows\<close>

definition reads :: "string \<Rightarrow> (string \<times> string) list \<Rightarrow> bool" where
  "reads s fs \<longleftrightarrow> (\<forall>r. xml_leaves (s @ r) = fs @ xml_leaves r)"

named_theorems reads_intros "texts and the elements read in them"

lemma reads_append [reads_intros]: "reads s fs \<Longrightarrow> reads t gs \<Longrightarrow> reads (s @ t) (fs @ gs)"
  by (simp add: reads_def)

lemma reads_concat: "(\<And>x. x \<in> set xs \<Longrightarrow> reads (f x) (g x)) \<Longrightarrow> reads (concat (map f xs)) (concat (map g xs))"
  by (induction xs) (simp_all add: reads_def)

lemma readsD: "reads s fs \<Longrightarrow> xml_leaves s = fs"
  by (metis append_Nil2 reads_def xml_leaves.simps(1))

lemma reads_no_markup: "CHR ''<'' \<notin> set s \<Longrightarrow> reads s []"
  by (induction s) (auto simp: reads_def)

lemma escape_no_lt: "CHR ''<'' \<notin> set (xml_escape s)"
  using xml_escape_no_markup [of "CHR ''<''" s] by (auto simp: markup_char_def)

lemma takeWhile_no_lt:
  "CHR ''<'' \<notin> set x \<Longrightarrow> takeWhile (\<lambda>c. c \<noteq> CHR ''<'') (x @ CHR ''<'' # r) = x"
  "CHR ''<'' \<notin> set x \<Longrightarrow> dropWhile (\<lambda>c. c \<noteq> CHR ''<'') (x @ CHR ''<'' # r) = CHR ''<'' # r"
  by (induction x) auto

lemma leaf_at_element:
  "CHR ''<'' \<notin> set x \<Longrightarrow> leaf_at tag (''<'' @ tag @ ''>'' @ x @ ''</'' @ tag @ ''>'' @ r) = Some (x, r)"
proof -
  assume x: "CHR ''<'' \<notin> set x"
  have "strip_prefix (''<'' @ tag @ ''>'') (''<'' @ tag @ ''>'' @ x @ ''</'' @ tag @ ''>'' @ r) =
      Some (x @ ''</'' @ tag @ ''>'' @ r)" by (simp add: strip_prefix_Some_iff)
  moreover have "strip_prefix (''</'' @ tag @ ''>'') (''</'' @ tag @ ''>'' @ r) = Some r"
    by (simp add: strip_prefix_Some_iff)
  ultimately show ?thesis using x by (simp add: leaf_at_def takeWhile_no_lt)
qed

text \<open>No tag starts another, so at most one of them opens a text.\<close>

lemma leaf_at_other:
  "t \<in> set leaf_tags \<Longrightarrow> u \<in> set leaf_tags \<Longrightarrow> u \<noteq> t \<Longrightarrow> leaf_at u (''<'' @ t @ ''>'' @ r) = None"
  by (auto simp: leaf_tags_def leaf_at_def)

lemma first_leaf_only:
  "t \<in> set ts \<Longrightarrow> (\<And>u. u \<in> set ts \<Longrightarrow> u \<noteq> t \<Longrightarrow> leaf_at u s = None) \<Longrightarrow> leaf_at t s = Some (x, rest) \<Longrightarrow>
     first_leaf ts s = Some ((t, xml_unescape x), rest)"
proof (induction ts)
  case (Cons u us)
  then show ?case by (cases "u = t") auto
qed simp

lemma reads_element:
  assumes tag: "tag \<in> set leaf_tags" and x: "CHR ''<'' \<notin> set x"
  shows "reads (''<'' @ tag @ ''>'' @ x @ ''</'' @ tag @ ''>'') [(tag, xml_unescape x)]"
  unfolding reads_def
proof
  fix r
  have "first_leaf leaf_tags (''<'' @ tag @ ''>'' @ x @ ''</'' @ tag @ ''>'' @ r) =
      Some ((tag, xml_unescape x), r)"
    by (rule first_leaf_only [OF tag leaf_at_other [OF tag] leaf_at_element [OF x]])
  then show "xml_leaves ((''<'' @ tag @ ''>'' @ x @ ''</'' @ tag @ ''>'') @ r) =
      [(tag, xml_unescape x)] @ xml_leaves r" by simp
qed

lemma reads_line:
  assumes tag: "tag \<in> set leaf_tags" and x: "CHR ''<'' \<notin> set x"
    and open_tag: "opening = replicate n CHR '' '' @ ''<'' @ tag @ ''>''"
    and close_tag: "closing = ''</'' @ tag @ ''>''"
  shows "reads (writeln (opening @ x @ closing)) [(tag, xml_unescape x)]"
proof -
  have "reads (replicate n CHR '' '') []" "reads nl []"
    by (auto intro!: reads_no_markup simp: nl_def)
  from reads_append [OF reads_append [OF this(1) reads_element [OF tag x]] this(2)]
  show ?thesis by (simp add: open_tag close_tag writeln_def)
qed

section \<open>The lines of a request\<close>

lemmas fixed_line = reads_def nl_def leaf_tags_def leaf_at_def

lemma reads_frame [reads_intros]:
  "reads ''            <ResourceRecord>'' []" "reads ''            </ResourceRecord>'' []"
  "reads ''      <Change>'' []" "reads ''      </Change>'' []"
  "reads ''        <ResourceRecordSet>'' []" "reads ''        </ResourceRecordSet>'' []"
  "reads ''          <ResourceRecords>'' []" "reads ''          </ResourceRecords>'' []"
  "reads ''    <Changes>'' []" "reads ''    </Changes>'' []"
  "reads ''  <ChangeBatch>'' []" "reads ''  </ChangeBatch>'' []"
  "reads ''</ChangeResourceRecordSetsRequest>'' []" "reads nl []"
  by (simp_all add: fixed_line)

lemma reads_prologue [reads_intros]:
  "reads ''<?xml version='' []" "reads ''<ChangeResourceRecordSetsRequest xmlns='' []"
  by (simp_all add: fixed_line)

lemma xml_unescape_plain: "CHR ''&'' \<notin> set s \<Longrightarrow> xml_unescape s = s"
  by (induction s) auto

lemma fmt_dec_plain: "CHR ''<'' \<notin> set (fmt_dec n)" "CHR ''&'' \<notin> set (fmt_dec n)"
  by (auto simp: is_ascii_digit_def dest!: fmt_dec_digits)

lemma display_plain:
  "CHR ''<'' \<notin> set (ipv4_display a)" "CHR ''&'' \<notin> set (ipv4_display a)"
  "CHR ''<'' \<notin> set (ipv6_display b)" "CHR ''&'' \<notin> set (ipv6_display b)"
  by (auto simp: is_ascii_digit_def dest!: ipv4_display_chars ipv6_display_chars)

section \<open>A change and the request\<close>

definition change_fields :: "change \<Rightarrow> (string \<times> string) list" where
  "change_fields ch =
     [(''Action'', change_action_display (action ch)), (''Name'', rr_name (record_set ch)),
      (''Type'', record_type_display (data_record_type (rr_data (record_set ch)))),
      (''TTL'', fmt_dec (unat (rr_ttl (record_set ch))))] @
     map (Pair ''Value'') (data_addresses (rr_data (record_set ch)))"

definition request_fields :: "string option \<Rightarrow> change list \<Rightarrow> (string \<times> string) list" where
  "request_fields comment changes =
     (case comment of None \<Rightarrow> [] | Some c \<Rightarrow> [(''Comment'', c)]) @ concat (map change_fields changes)"

lemma reads_value:
  assumes "CHR ''<'' \<notin> set a" and "CHR ''&'' \<notin> set a"
  shows "reads (resource_record_xml a) [(''Value'', a)]"
proof -
  have "reads (writeln (''                     <Value>'' @ a @ ''</Value>'')) [(''Value'', a)]"
    using reads_line [of "''Value''" a "''                     <Value>''" 21 "''</Value>''"] assms
    by (simp add: leaf_tags_def xml_unescape_plain numeral_eq_Suc)
  from reads_append [OF reads_append [OF reads_frame(1) reads_frame(14)]
      reads_append [OF this reads_append [OF reads_frame(2) reads_frame(14)]]]
  show ?thesis by (simp add: resource_record_xml_def)
qed

lemma reads_each_value:
  assumes "\<And>a. CHR ''<'' \<notin> set (f a)" and "\<And>a. CHR ''&'' \<notin> set (f a)"
  shows "reads (concat (map (\<lambda>a. resource_record_xml (f a)) xs)) (map (Pair ''Value'') (map f xs))"
proof (induction xs)
  case Nil
  then show ?case by (simp add: reads_def)
next
  case (Cons x xs)
  from reads_append [OF reads_value [OF assms, of x] Cons.IH] show ?case by simp
qed

lemma reads_values:
  "reads (case d of
            A addrs \<Rightarrow> concat (map (\<lambda>a. resource_record_xml (ipv4_display a)) addrs)
          | AAAA addrs \<Rightarrow> concat (map (\<lambda>a. resource_record_xml (ipv6_display a)) addrs))
     (map (Pair ''Value'') (data_addresses d))"
  by (cases d) (simp_all add: data_addresses_def reads_each_value display_plain del: map_map)

lemma reads_change: "reads (change_xml ch) (change_fields ch)"
proof -
  let ?r = "record_set ch"
  have act: "reads (writeln (''        <Action>'' @ change_action_display (action ch) @ ''</Action>''))
      [(''Action'', change_action_display (action ch))]"
    using reads_line [of "''Action''" "change_action_display (action ch)" "''        <Action>''" 8 "''</Action>''"]
    by (cases "action ch") (simp add: leaf_tags_def change_action_display_def numeral_eq_Suc)
  have name: "reads (writeln (''          <Name>'' @ xml_escape (rr_name ?r) @ ''</Name>''))
      [(''Name'', rr_name ?r)]"
    using reads_line [of "''Name''" "xml_escape (rr_name ?r)" "''          <Name>''" 10 "''</Name>''"]
    by (simp add: leaf_tags_def escape_no_lt xml_unescape_escape numeral_eq_Suc)
  have type: "reads (writeln (''          <Type>'' @ record_type_display (data_record_type (rr_data ?r)) @ ''</Type>''))
      [(''Type'', record_type_display (data_record_type (rr_data ?r)))]"
    using reads_line [of "''Type''" "record_type_display (data_record_type (rr_data ?r))"
        "''          <Type>''" 10 "''</Type>''"]
    by (cases "rr_data ?r") (simp_all add: leaf_tags_def record_type_display_def numeral_eq_Suc)
  have ttl: "reads (writeln (''          <TTL>'' @ fmt_dec (unat (rr_ttl ?r)) @ ''</TTL>''))
      [(''TTL'', fmt_dec (unat (rr_ttl ?r)))]"
    using reads_line [of "''TTL''" "fmt_dec (unat (rr_ttl ?r))" "''          <TTL>''" 10 "''</TTL>''"]
    by (simp add: leaf_tags_def fmt_dec_plain xml_unescape_plain numeral_eq_Suc)
  note parts = reads_append [OF reads_append [OF reads_frame(3) reads_frame(14)]
      reads_append [OF act reads_append [OF reads_append [OF reads_frame(5) reads_frame(14)]
      reads_append [OF name reads_append [OF type reads_append [OF ttl
      reads_append [OF reads_append [OF reads_frame(7) reads_frame(14)] reads_append [OF reads_values
      reads_append [OF reads_append [OF reads_frame(8) reads_frame(14)]
      reads_append [OF reads_append [OF reads_frame(6) reads_frame(14)]
      reads_append [OF reads_frame(4) reads_frame(14)]]]]]]]]]]]
  from parts show ?thesis by (simp add: change_xml_def change_fields_def Let_def)
qed

lemma reads_comment:
  "reads (case comment of None \<Rightarrow> [] | Some c \<Rightarrow> writeln (''    <Comment>'' @ xml_escape c @ ''</Comment>''))
     (case comment of None \<Rightarrow> [] | Some c \<Rightarrow> [(''Comment'', c)])"
proof (cases comment)
  case None
  then show ?thesis by (simp add: reads_def)
next
  case (Some c)
  then show ?thesis
    using reads_line [of "''Comment''" "xml_escape c" "''    <Comment>''" 4 "''</Comment>''"]
    by (simp add: leaf_tags_def escape_no_lt xml_unescape_escape numeral_eq_Suc)
qed

lemma reads_quoted [reads_intros]:
  "reads [CHR 0x22] []" "reads ''1.0'' []" "reads '' encoding='' []" "reads ''UTF-8'' []" "reads ''?>'' []"
  "reads ''https://route53.amazonaws.com/doc/2013-04-01/'' []" "reads ''>'' []"
  by (simp_all add: reads_no_markup)

lemma build_change_xml_reads: "reads (build_change_xml comment changes) (request_fields comment changes)"
proof -
  have each: "reads (concat (map change_xml changes)) (concat (map change_fields changes))"
    by (rule reads_concat) (rule reads_change)
  have start: "reads (''<?xml version='' @ [CHR 0x22] @ ''1.0'' @ [CHR 0x22] @ '' encoding='' @ [CHR 0x22] @
      ''UTF-8'' @ [CHR 0x22] @ ''?>'' @ nl) ([] @ [] @ [] @ [] @ [] @ [] @ [] @ [] @ [] @ [])"
    by (intro reads_append reads_prologue reads_quoted reads_frame)
  have element: "reads (''<ChangeResourceRecordSetsRequest xmlns='' @ [CHR 0x22] @
      ''https://route53.amazonaws.com/doc/2013-04-01/'' @ [CHR 0x22] @ ''>'' @ nl)
      ([] @ [] @ [] @ [] @ [] @ [])"
    by (intro reads_append reads_prologue reads_quoted reads_frame)
  note parts = reads_append [OF start reads_append [OF element
      reads_append [OF reads_append [OF reads_frame(11) reads_frame(14)]
      reads_append [OF reads_comment [of comment]
      reads_append [OF reads_append [OF reads_frame(9) reads_frame(14)] reads_append [OF each
      reads_append [OF reads_append [OF reads_frame(10) reads_frame(14)]
      reads_append [OF reads_append [OF reads_frame(12) reads_frame(14)] reads_frame(13)]]]]]]]]
  from parts show ?thesis by (simp add: build_change_xml_def request_fields_def)
qed

section \<open>The request determines the changes\<close>

lemma data_of_fields:
  "data_record_type d = data_record_type e \<Longrightarrow> data_addresses d = data_addresses e \<Longrightarrow> d = e"
  by (cases d; cases e)
     (auto simp: data_addresses_def ipv4_text.encode_list_inj ipv6_text.encode_list_inj)

lemma map_tagged_cut:
  assumes "map (Pair t) xs @ us = map (Pair t) ys @ vs"
    and "us = [] \<or> fst (hd us) \<noteq> t" and "vs = [] \<or> fst (hd vs) \<noteq> t"
  shows "xs = ys \<and> us = vs"
  using assms
proof (induction xs arbitrary: ys)
  case Nil
  then show ?case by (cases ys) auto
next
  case (Cons x xs)
  then show ?case by (cases ys) auto
qed

lemma change_fields_start: "change_fields ch \<noteq> []" "fst (hd (change_fields ch)) = ''Action''"
  by (simp_all add: change_fields_def)

lemma fields_start:
  "concat (map change_fields chs) = [] \<or> fst (hd (concat (map change_fields chs))) \<noteq> ''Value''"
  by (cases chs) (simp_all add: change_fields_start)

lemma change_fields_cut:
  assumes "change_fields ch @ concat (map change_fields chs) = change_fields dh @ concat (map change_fields dhs)"
  shows "ch = dh \<and> concat (map change_fields chs) = concat (map change_fields dhs)"
proof -
  let ?r = "record_set ch" and ?q = "record_set dh"
  from assms have heads: "rr_name ?r = rr_name ?q" "unat (rr_ttl ?r) = unat (rr_ttl ?q)"
      "data_record_type (rr_data ?r) = data_record_type (rr_data ?q)"
    and rest: "map (Pair ''Value'') (data_addresses (rr_data ?r)) @ concat (map change_fields chs) =
      map (Pair ''Value'') (data_addresses (rr_data ?q)) @ concat (map change_fields dhs)"
    by (simp_all add: change_fields_def fmt_dec_inj record_type_display_inj)
  from map_tagged_cut [OF rest fields_start fields_start]
  have "data_addresses (rr_data ?r) = data_addresses (rr_data ?q)"
    and tail: "concat (map change_fields chs) = concat (map change_fields dhs)" by simp_all
  with heads(3) have "rr_data ?r = rr_data ?q" by (simp add: data_of_fields)
  moreover have "rr_ttl ?r = rr_ttl ?q" using heads(2) by (simp add: word_unat_eq_iff)
  ultimately have "?r = ?q" using heads(1) by (simp add: resource_record_set.equality)
  moreover have "action ch = action dh" by (cases "action ch"; cases "action dh") simp
  ultimately show ?thesis using tail by (simp add: change.equality)
qed

lemma changes_of_fields:
  "concat (map change_fields chs) = concat (map change_fields dhs) \<Longrightarrow> chs = dhs"
proof (induction chs arbitrary: dhs)
  case Nil
  then show ?case by (cases dhs) (simp_all add: change_fields_start)
next
  case (Cons c cs)
  then show ?case
    by (cases dhs) (use change_fields_cut in \<open>fastforce simp: change_fields_start\<close>)+
qed

lemma request_of_fields:
  "request_fields c chs = request_fields d dhs \<Longrightarrow> c = d \<and> chs = dhs"
proof -
  assume eq: "request_fields c chs = request_fields d dhs"
  have no_comment: "(''Comment'', x) # fs \<noteq> concat (map change_fields xs)" for x fs xs
    by (cases xs) (auto simp: change_fields_def)
  from eq no_comment no_comment [symmetric] show ?thesis
    by (cases c; cases d) (auto simp: request_fields_def changes_of_fields)
qed

section \<open>The property\<close>

text \<open>
  C6: whatever the names, the comment and the addresses are, the text elements of the request are, with
  the entities decoded, the comment and then for each change its action, name, type, time to live and
  addresses; so two requests are the same text only if they have the same comment and changes, and no
  name can add or hide a change.
\<close>

theorem request_carries_its_changes:
  "xml_leaves (build_change_xml comment changes) = request_fields comment changes \<and>
   (build_change_xml comment changes = build_change_xml comment' changes' \<longleftrightarrow>
      comment = comment' \<and> changes = changes')"
proof -
  have fields: "xml_leaves (build_change_xml c chs) = request_fields c chs" for c chs
    by (rule readsD [OF build_change_xml_reads])
  have "comment = comment' \<and> changes = changes'"
    if "build_change_xml comment changes = build_change_xml comment' changes'"
  proof (rule request_of_fields)
    show "request_fields comment changes = request_fields comment' changes'"
      using that fields by metis
  qed
  with fields show ?thesis by blast
qed

end
