(* ===== verification/Examples.thy ===== *)
theory Examples
  imports System Route53_Text
begin

text \<open>
  Runs of the whole program in the world of \<open>Demo\<close>: a request that is fetched, validated, posted
  and cleaned up, and the failures. The properties of the server, of the program and of the two roles
  together are applied to them, so their hypotheses hold together.
\<close>

section \<open>Arguments, objects and the request\<close>

definition demo_server_args :: "bool \<Rightarrow> server_args" where
  "demo_server_args dry =
     \<lparr>sa_is_dry_run = dry, sa_s3_queue_bucket = ''queue'', sa_s3_ddns_json_dir = ''ddns/'',
      sa_hosted_dns_zone_id = ''/hostedzone/Z1'', sa_keys_search_path = ''/certs'',
      sa_aws_region = ''us-east-1'', sa_aws_access_key_id = Some ''AK'',
      sa_aws_secret_access_key = Some ''SK'', sa_max_time_ago_signed_at_secs = 3600,
      sa_drop_to_user = ''dyndynser'', sa_insecure_skip_verify = False\<rparr>"

definition demo_conf :: config_server where
  "demo_conf =
     \<lparr>cs_keys_search_path = ''/certs'', cs_s3_queue_bucket = ''queue'', cs_s3_ddns_json_directory = ''ddns/'',
      cs_hosted_dns_zone_id = ''/hostedzone/Z1'', cs_is_dry_run = False,
      cs_max_time_ago_signed_at = 3600000000000,
      cs_aws_config = \<lparr>region = ''us-east-1'', access_key_id = Some ''AK'', secret_access_key = Some ''SK''\<rparr>,
      cs_drop_to_user = ''dyndynser'', cs_insecure_skip_verify = False\<rparr>"

lemma demo_conf: "config_server_parse (demo_server_args False) = Ok demo_conf"
  by (simp add: config_server_parse_def demo_server_args_def demo_conf_def time_delta_seconds_def)

definition demo_cr :: aws_credentials where
  "demo_cr = \<lparr>access_key = Some ''AK'', secret_key = Some ''SK'', security_token = None, session_token = None\<rparr>"

definition good_objects :: "(string \<times> bytes) list" where
  "good_objects = [(''ddns/home.example.ddns.json'', ''request 1'')]"

lemma start_stdout: "stdout_refuses (demo_start objs) = (\<lambda>es out. False)"
  by (simp add: demo_start_def)

abbreviation "good_world \<equiv> world (demo_start good_objects)"

definition demo_request :: unverified_request where
  "demo_request = \<lparr>ur_signed_payload = demo_payload demo_record demo_secs demo_key ''envelope 1'',
     ur_s3_key = S3_Key ''ddns/home.example.ddns.json''\<rparr>"

lemma demo_listing:
  "s3_list_page (e_s3 demo_E) () ''ddns/'' (Some ''/'') None good_world =
     (Ok \<lparr>page_keys = [''ddns/home.example.ddns.json''], next_continuation_token = None\<rparr>, good_world)"
  by code_simp

lemma demo_read:
  "signed_payload_from_slice (e_hex demo_E) (e_json demo_E) record_set_of_json ''request 1'' =
     Ok (demo_payload demo_record demo_secs demo_key ''envelope 1'')"
  by code_simp

lemma demo_object: "s3_get_object (e_s3 demo_E) () ''ddns/home.example.ddns.json'' good_world = (Ok ''request 1'', good_world)"
  by code_simp

section \<open>A good run\<close>

lemma demo_fetch_object:
  "world s = good_world \<Longrightarrow> fetch_objects demo_E () [''ddns/home.example.ddns.json''] ([], server_errors_new) s =
     (Ok ([demo_request], server_errors_new), s\<lparr>trace := trace s @ [Ev_Get_Object ''ddns/home.example.ddns.json'']\<rparr>)"
proof -
  assume w: "world s = good_world"
  have "ends_with ddns_json_file_ext ''ddns/home.example.ddns.json''" by code_simp
  with w show ?thesis
    by (simp add: fetch_object_def io_match_def perform_def demo_object demo_read demo_request_def io_bind_def)
qed

lemma demo_page_run:
  assumes "world s = good_world"
  shows "page_run demo_E demo_conf () None ([], server_errors_new) s
    [\<lparr>page_keys = [''ddns/home.example.ddns.json''], next_continuation_token = None\<rparr>]
    ([demo_request], server_errors_new)
    (s\<lparr>trace := trace s @ [Ev_List_Page ''ddns/'' ''/'' None, Ev_Get_Object ''ddns/home.example.ddns.json'']\<rparr>)"
proof (rule last_page)
  have dir: "cs_s3_ddns_json_directory demo_conf = ''ddns/''" by (simp add: demo_conf_def)
  show "perform (Ev_List_Page (cs_s3_ddns_json_directory demo_conf) ''/'' None)
      (s3_list_page (e_s3 demo_E) () (cs_s3_ddns_json_directory demo_conf) (Some ''/'') None) s =
    (Ok \<lparr>page_keys = [''ddns/home.example.ddns.json''], next_continuation_token = None\<rparr>,
     s\<lparr>trace := trace s @ [Ev_List_Page ''ddns/'' ''/'' None]\<rparr>)"
    using assms by (simp add: perform_def dir demo_listing)
  show "fetch_objects demo_E () (page_keys \<lparr>page_keys = [''ddns/home.example.ddns.json''], next_continuation_token = None\<rparr>)
      ([], server_errors_new) (s\<lparr>trace := trace s @ [Ev_List_Page ''ddns/'' ''/'' None]\<rparr>) =
    (Ok ([demo_request], server_errors_new),
     s\<lparr>trace := trace s @ [Ev_List_Page ''ddns/'' ''/'' None, Ev_Get_Object ''ddns/home.example.ddns.json'']\<rparr>)"
    using demo_fetch_object [of "s\<lparr>trace := trace s @ [Ev_List_Page ''ddns/'' ''/'' None]\<rparr>"] assms by simp
qed simp

definition demo_fetched :: "demo sys" where
  "demo_fetched = (demo_start good_objects)\<lparr>trace :=
     [Ev_Print (Line ''Querying Bucket: queue/ddns/''), Ev_List_Page ''ddns/'' ''/'' None,
      Ev_Get_Object ''ddns/home.example.ddns.json'']\<rparr>"

lemma demo_setup:
  "server_setup demo_E (demo_server_args False) (demo_start good_objects) = (Ok (demo_conf, demo_cr), demo_start good_objects)"
  by (simp add: server_setup_def demo_conf io_bind_def)
     (simp add: demo_conf_def demo_cr_def get_s3_credentials_def io_ctx_def io_bind_def quietly_def demo_env_def demo_creds_def)

lemma demo_fetch:
  "fetch_ddns_jsons_from_s3 demo_E demo_conf demo_cr (demo_start good_objects) =
     Some (Ok ([demo_request], server_errors_new), demo_fetched)"
proof -
  let ?p = "Ev_Print (Line ''Querying Bucket: queue/ddns/'')"
  let ?s = "(demo_start good_objects)\<lparr>trace := [?p]\<rparr>"
  have "fetch_pages demo_E demo_conf () None ([], server_errors_new) ?s =
      Some (Ok ([demo_request], server_errors_new), demo_fetched)"
    using fetch_pages_of_run [OF demo_page_run [of ?s]] by (simp add: demo_fetched_def)
  moreover have "get_s3_bucket demo_E demo_conf demo_cr = Ok ()"
    by (simp add: get_s3_bucket_def demo_env_def demo_s3_def)
  moreover have "trace (demo_start good_objects) = []" by (simp add: demo_start_def)
  ultimately show ?thesis
    by (simp add: fetch_ddns_jsons_from_s3_def lo_bind_def lo_once_def print_def demo_conf_def start_stdout)
qed

abbreviation "demo_cert \<equiv> \<lparr>common_name = demo_domain, cert_key = Verifying_Key demo_key\<rparr>"

text \<open>A run from its result, its world and its events; the standard output takes everything.\<close>

lemma run_eqI:
  assumes "\<And>es out. case p of (r', t) \<Rightarrow> r' = r \<and> world t = w \<and> trace t = tr \<and> \<not> stdout_refuses t es out"
  shows "p = (r, \<lparr>world = w, trace = tr, stdout_refuses = (\<lambda>es out. False)\<rparr>)"
  using assms by (cases p) (auto simp: fun_eq_iff)

lemma demo_certs:
  "domain_certs demo_E demo_conf server_errors_new \<lparr>world = good_world, trace = tr, stdout_refuses = (\<lambda>es out. False)\<rparr> =
     (Ok ([demo_cert], server_errors_new), \<lparr>world = good_world, trace = tr @
        [Ev_Read_Dir ''/certs'', Ev_Metadata ''/certs/home.crt'', Ev_Open ''/certs/home.crt''], stdout_refuses = (\<lambda>es out. False)\<rparr>)"
proof (rule run_eqI)
  fix es out
  show "case domain_certs demo_E demo_conf server_errors_new \<lparr>world = good_world, trace = tr, stdout_refuses = (\<lambda>es out. False)\<rparr> of
    (r, t) \<Rightarrow> r = Ok ([demo_cert], server_errors_new) \<and> world t = good_world \<and> trace t = tr @
        [Ev_Read_Dir ''/certs'', Ev_Metadata ''/certs/home.crt'', Ev_Open ''/certs/home.crt''] \<and> \<not> stdout_refuses t es out"
    by code_simp simp
qed

lemma demo_authentic: "authentic demo_E [demo_cert] demo_request"
proof -
  have "find (\<lambda>x. common_name x = request_name demo_request) [demo_cert] = Some demo_cert" by code_simp
  moreover have "signed_bytes (e_json demo_E) record_set_to_json (envelope (ur_signed_payload demo_request)) =
      Some ''envelope 1''" by code_simp
  moreover have "verify_strict (e_dalek demo_E) (cert_key demo_cert) ''envelope 1''
      (signature_inner (signature (ur_signed_payload demo_request)))" by code_simp
  ultimately show ?thesis unfolding authentic_def by blast
qed

lemma demo_latest: "latest_accept demo_E 3600000000000 demo_request ((demo_secs + 3615) * 1000000000)"
proof -
  have "from_timestamp (e_chrono demo_E) (sint (signed_at_unix_secs (envelope (ur_signed_payload demo_request)))) =
      Some (demo_secs * 1000000000)" by code_simp
  moreover have "add_delta (e_chrono demo_E) (demo_secs * 1000000000) 3600000000000 =
      Some ((demo_secs + 3600) * 1000000000)" by code_simp
  moreover have "add_delta (e_chrono demo_E) ((demo_secs + 3600) * 1000000000) clock_tolerance =
      Some ((demo_secs + 3615) * 1000000000)" by code_simp
  ultimately show ?thesis unfolding latest_accept_def by blast
qed

lemma demo_clock: "http_clock (e_http demo_E) w = (clock w, w)"
  by (simp add: demo_env_def demo_http_def)

lemma demo_check:
  assumes "clock (world s) \<le> (demo_secs + 3615) * 1000000000"
  shows "check_valid_ddns_request demo_E demo_request [demo_cert] 3600000000000 False s = (Ok (to_verified demo_request), s)"
  unfolding check_valid_Ok_iff using assms demo_authentic demo_latest by (auto simp: demo_clock)

lemma demo_validate:
  "validate_unverified_dns_requests demo_E [demo_cert] 3600000000000 False [demo_request] ([], server_errors_new)
     \<lparr>world = good_world, trace = tr, stdout_refuses = (\<lambda>es out. False)\<rparr> = (Ok ([to_verified demo_request], server_errors_new), \<lparr>world = good_world, trace = tr, stdout_refuses = (\<lambda>es out. False)\<rparr>)"
proof -
  have "clock good_world \<le> (demo_secs + 3615) * 1000000000" by code_simp
  then show ?thesis by (simp add: validate_one_def io_match_def io_ctx_def io_bind_def demo_check)
qed

definition dropped_world :: demo where
  "dropped_world = good_world\<lparr>os := demo_linux\<lparr>cred := \<lparr>ruid = 990, euid = 990, suid = 990, rgid = 991, egid = 991, sgid = 991, groups = []\<rparr>\<rparr>\<rparr>"

definition drop_events :: "event list" where
  "drop_events = [Ev_Setgroups [], Ev_Setresgid 991 991 991, Ev_Setresuid 990 990 990, Ev_Setuid 0]"

lemma demo_drop:
  "maybe_drop_privileges (e_unix demo_E) ''dyndynser'' \<lparr>world = good_world, trace = tr, stdout_refuses = (\<lambda>es out. False)\<rparr> =
     (Ok (), \<lparr>world = dropped_world, trace = tr @ drop_events, stdout_refuses = (\<lambda>es out. False)\<rparr>)"
proof (rule run_eqI)
  fix es out
  show "case maybe_drop_privileges (e_unix demo_E) ''dyndynser'' \<lparr>world = good_world, trace = tr, stdout_refuses = (\<lambda>es out. False)\<rparr> of
    (r, t) \<Rightarrow> r = Ok () \<and> world t = dropped_world \<and> trace t = tr @ drop_events \<and> \<not> stdout_refuses t es out"
    by code_simp simp
qed

definition demo_url :: string where
  "demo_url = ''https://'' @ host @ rrset_path ''/hostedzone/Z1''"

lemma to_header_map_demo: "\<exists>hm. to_header_map demo_header hs = Ok hm"
proof -
  have "\<exists>hm'. insert_headers demo_header hs hm = Ok hm'" for hm
    by (induction demo_header hs hm rule: insert_headers.induct) (auto simp: demo_header_def)
  then show ?thesis by (simp add: to_header_map_def)
qed

lemma demo_commit:
  "commit_changes demo_E demo_conf demo_cr chs s =
     (Ok (change_info_of demo_answer),
      s\<lparr>world := (world s)\<lparr>posts := posts (world s) @ [build_change_xml (Some ''Updated via dyndynser'') chs]\<rparr>,
        trace := trace s @ [Ev_Route53_Post demo_url (build_change_xml (Some ''Updated via dyndynser'') chs)]\<rparr>)"
proof -
  have client: "from_s3_credentials (e_http demo_E) demo_cr s =
      (Ok \<lparr>rc_access_key = ''AK'', rc_secret_key = ''SK'', rc_session_token = None\<rparr>, s)"
    by (simp add: from_s3_credentials_def route53_client_new_def io_bind_def io_ctx_def quietly_def
        demo_env_def demo_http_def demo_cr_def)
  have headers: "\<exists>hs. client_signed_headers (e_sigv4 demo_E) (e_http demo_E) rc verb path body s = (Ok hs, s)" for rc verb path body
    by (simp add: client_signed_headers_def read_clock_def quietly_def io_bind_def demo_http_def e_sigv4_def
        demo_env_def to_header_map_demo prod_eq_iff)
  have post: "http_post (e_http demo_E) url hs body w =
      (Ok \<lparr>http_status = 200, http_status_text = ''200 OK'', http_body = Ok demo_answer\<rparr>, w\<lparr>posts := posts w @ [body]\<rparr>)"
    for url hs body w by (simp add: demo_env_def demo_http_def)
  have zone: "cs_hosted_dns_zone_id demo_conf = ''/hostedzone/Z1''" by (simp add: demo_conf_def)
  obtain hs where "client_signed_headers (e_sigv4 demo_E) (e_http demo_E)
      \<lparr>rc_access_key = ''AK'', rc_secret_key = ''SK'', rc_session_token = None\<rparr> ''POST''
      (rrset_path ''/hostedzone/Z1'') (build_change_xml (Some ''Updated via dyndynser'') chs) s = (Ok hs, s)"
    using headers by blast
  then show ?thesis
    by (simp add: commit_changes_def io_bind_def io_ctx_def client change_resource_record_sets_def Let_def
        zone perform_def post check_response_def demo_url_def)
qed

abbreviation "home_key \<equiv> ''ddns/home.example.ddns.json''"

lemma demo_cleanup:
  "cleanup demo_E demo_conf demo_cr [S3_Key home_key] errors s =
     (Ok errors, s\<lparr>world := (world s)\<lparr>objects := AList.delete home_key (objects (world s))\<rparr>,
        trace := trace s @ [Ev_Delete_Object home_key]\<rparr>)"
  by (simp add: cleanup_def get_s3_bucket_def demo_env_def demo_s3_def io_bind_def cleanup_one_def
      io_match_def io_ctx_def perform_def)

lemma demo_build_changes:
  "build_changes [to_verified demo_request] =
     [\<lparr>action = Upsert, record_set = demo_record\<lparr>rr_name := ''home.example.''\<rparr>\<rparr>]"
  by code_simp

lemma demo_delete_keys: "delete_keys [to_verified demo_request] server_errors_new = [S3_Key home_key]"
  by code_simp

lemma demo_no_errors: "\<not> has_errors server_errors_new"
  by (simp add: has_errors_def server_errors_new_def)

definition demo_posted :: string where
  "demo_posted = build_change_xml (Some ''Updated via dyndynser'')
     [\<lparr>action = Upsert, record_set = demo_record\<lparr>rr_name := ''home.example.''\<rparr>\<rparr>]"

lemma demo_apply:
  assumes "stdout_refuses s = (\<lambda>es out. False)"
  shows "\<exists>t. apply_changes demo_E demo_conf demo_cr [to_verified demo_request] server_errors_new s = (Ok (), t) \<and>
     Ev_Route53_Post demo_url demo_posted \<in> set (trace t) \<and> Ev_Delete_Object home_key \<in> set (trace t)"
proof -
  have wet: "cs_is_dry_run demo_conf = False" by (simp add: demo_conf_def)
  show ?thesis
    by (simp add: apply_changes_def Let_def wet demo_build_changes demo_delete_keys io_bind_def io_ctx_def
        demo_commit demo_cleanup print_def print_summary_def demo_no_errors demo_posted_def assms
        del: build_changes.simps)
qed

lemma demo_process:
  "\<exists>t. server_process demo_E demo_conf demo_cr ([demo_request], server_errors_new) demo_fetched = (Ok (), t) \<and>
     Ev_Route53_Post demo_url demo_posted \<in> set (trace t) \<and> Ev_Delete_Object home_key \<in> set (trace t)"
proof -
  have conf: "cs_insecure_skip_verify demo_conf = False" "cs_max_time_ago_signed_at demo_conf = 3600000000000"
    "cs_drop_to_user demo_conf = ''dyndynser''" by (simp_all add: demo_conf_def)
  obtain tr where names: "print_names [demo_request] demo_fetched = (Ok (), \<lparr>world = good_world, trace = tr, stdout_refuses = (\<lambda>es out. False)\<rparr>)"
    by (simp add: print_names_def print_def io_bind_def demo_fetched_def demo_start_def)
  show ?thesis
    using demo_apply
    by (simp add: server_process_def io_bind_def names demo_certs conf validate_and_apply_def demo_validate
        io_ctx_def demo_drop del: validate_unverified_dns_requests.simps)
qed

lemma demo_run:
  "\<exists>t. handle_server demo_E (demo_server_args False) (demo_start good_objects) = Some (Ok (), t) \<and>
     Ev_Route53_Post demo_url demo_posted \<in> set (trace t) \<and> Ev_Delete_Object home_key \<in> set (trace t)"
  using demo_process by (simp add: handle_server_def lo_bind_def lo_once_def lo_ctx_def demo_setup demo_fetch)

section \<open>The properties at these runs\<close>

lemma demo_tokens_progress: "tokens_progress (e_s3 demo_E) b dir (\<lambda>tok. 1000 - index_of_token tok)"
  by (auto simp: tokens_progress_def demo_env_def demo_s3_def next_index_def index_of_token_def Let_def
      split: if_splits option.splits)

lemma start_trace [simp]: "trace (demo_start objs) = []"
  by (simp add: demo_start_def)

lemma server_phases_witness:
  "\<exists>t. handle_server demo_E (demo_server_args False) (demo_start good_objects) = Some (Ok (), t) \<and>
     in_phases [is_print, is_s3_read, is_print, is_file_call, is_privilege_call, is_dns_post, is_cleanup] (trace t)"
proof -
  from demo_run obtain t where run: "handle_server demo_E (demo_server_args False) (demo_start good_objects) = Some (Ok (), t)"
    by blast
  from server_phases [OF run] run show ?thesis by auto
qed

lemma server_posts_witness:
  "\<exists>chs. chs \<noteq> [] \<and> demo_posted = build_change_xml (Some ''Updated via dyndynser'') chs \<and>
     (\<forall>ch \<in> set chs. \<exists>r certs. ch = build_change (to_verified r) \<and> authentic demo_E certs r)"
proof -
  from demo_run obtain t where run: "handle_server demo_E (demo_server_args False) (demo_start good_objects) = Some (Ok (), t)"
    and "Ev_Route53_Post demo_url demo_posted \<in> set (trace t)" by blast
  then have "Ev_Route53_Post demo_url demo_posted \<in> set (drop (length (trace (demo_start good_objects))) (trace t))" by simp
  from server_posts_only_signed_changes [OF run demo_conf this] show ?thesis
    by (simp add: demo_conf_def) blast
qed

lemma server_deletes_witness:
  "\<exists>t. handle_server demo_E (demo_server_args False) (demo_start good_objects) = Some (Ok (), t) \<and>
     Ev_Delete_Object home_key \<in> set (trace t) \<and> ends_with ddns_json_file_ext home_key"
proof -
  from demo_run obtain t where run: "handle_server demo_E (demo_server_args False) (demo_start good_objects) = Some (Ok (), t)"
    and ev: "Ev_Delete_Object home_key \<in> set (trace t)" by blast
  then have "Ev_Delete_Object home_key \<in> set (drop (length (trace (demo_start good_objects))) (trace t))" by simp
  from server_deletes_only_request_files [OF run this] run ev show ?thesis by (auto simp: mutates_def)
qed

lemma handle_server_terminates_witness:
  "handle_server demo_E (demo_server_args False) (demo_start good_objects) \<noteq> None"
  by (rule handle_server_terminates) (rule demo_tokens_progress)

lemma failed_update_witness:
  "\<exists>e t. apply_changes demo_E demo_conf (demo_cr\<lparr>access_key := None\<rparr>) [to_verified demo_request] server_errors_new
       (demo_start good_objects) = (Err (Context ''failed to commit dns changes'' e), t) \<and>
     list_all is_dns_post (trace t)"
proof -
  have wet: "\<not> cs_is_dry_run demo_conf" by (simp add: demo_conf_def)
  obtain e t where "commit_changes demo_E demo_conf (demo_cr\<lparr>access_key := None\<rparr>)
      (build_changes [to_verified demo_request]) (demo_start good_objects) = (Err e, t)"
    by (simp add: commit_changes_def from_s3_credentials_def io_bind_def io_ctx_def)
  from failed_update_deletes_nothing [OF wet this] show ?thesis by auto
qed

lemma no_verified_request_witness:
  "\<exists>t. validate_and_apply demo_E demo_conf demo_cr [demo_request] [] server_errors_new
       \<lparr>world = good_world, trace = [], stdout_refuses = (\<lambda>es out. False)\<rparr> = (Ok (), t) \<and>
     trace t = drop_events @ [Ev_Print (Line ''No verified requests found, nothing to do.'')]"
proof -
  have conf: "cs_insecure_skip_verify demo_conf = False" "cs_drop_to_user demo_conf = ''dyndynser''"
    by (simp_all add: demo_conf_def)
  have "\<exists>errors. validate_unverified_dns_requests demo_E [] (cs_max_time_ago_signed_at demo_conf)
      (cs_insecure_skip_verify demo_conf) [demo_request] ([], server_errors_new) \<lparr>world = good_world, trace = [], stdout_refuses = (\<lambda>es out. False)\<rparr> =
      (Ok ([], errors), \<lparr>world = good_world, trace = [], stdout_refuses = (\<lambda>es out. False)\<rparr>)"
    by (simp add: conf validate_one_def check_valid_ddns_request_def find_key_def io_match_def io_ctx_def io_bind_def)
  then obtain errors where check: "validate_unverified_dns_requests demo_E [] (cs_max_time_ago_signed_at demo_conf)
      (cs_insecure_skip_verify demo_conf) [demo_request] ([], server_errors_new) \<lparr>world = good_world, trace = [], stdout_refuses = (\<lambda>es out. False)\<rparr> =
      (Ok ([], errors), \<lparr>world = good_world, trace = [], stdout_refuses = (\<lambda>es out. False)\<rparr>)" by blast
  have drop: "maybe_drop_privileges (e_unix demo_E) (cs_drop_to_user demo_conf) \<lparr>world = good_world, trace = [], stdout_refuses = (\<lambda>es out. False)\<rparr> =
      (Ok (), \<lparr>world = dropped_world, trace = drop_events, stdout_refuses = (\<lambda>es out. False)\<rparr>)" using demo_drop [of "[]"] conf by simp
  from no_verified_request_drops_errors [OF check drop, of demo_cr]
  have "validate_and_apply demo_E demo_conf demo_cr [demo_request] [] server_errors_new \<lparr>world = good_world, trace = [], stdout_refuses = (\<lambda>es out. False)\<rparr> =
      (Ok (), \<lparr>world = dropped_world, trace = drop_events @ [Ev_Print (Line ''No verified requests found, nothing to do.'')], stdout_refuses = (\<lambda>es out. False)\<rparr>)"
    by (simp add: server_errors_new_def)
  then show ?thesis by simp
qed

lemma demo_cleanup_any:
  "\<exists>t. cleanup demo_E demo_conf demo_cr keys errors s = (Ok errors, t) \<and> stdout_refuses t = stdout_refuses s"
proof -
  have "stdout_refuses s = q \<Longrightarrow>
      \<exists>t. cleanup_loop demo_E () keys errors s = (Ok errors, t) \<and> stdout_refuses t = q" for s q
    by (induction keys arbitrary: s)
       (simp_all add: cleanup_one_def io_match_def io_ctx_def perform_def io_bind_def demo_env_def demo_s3_def)
  then show ?thesis by (simp add: cleanup_def get_s3_bucket_def demo_env_def demo_s3_def io_bind_def)
qed

abbreviation "locked_errors \<equiv>
  server_errors_new\<lparr>failed_s3_fetches := [(S3_Key ''ddns/locked.ddns.json'', External ''AccessDenied'')]\<rparr>"

lemma unread_requests_witness:
  "\<exists>t. apply_changes demo_E demo_conf demo_cr [to_verified demo_request] locked_errors (demo_start good_objects) =
       (Err (Bail ''errors occurred while executing this dyndynser run''), t) \<and>
     Ev_Delete_Object ''ddns/locked.ddns.json'' \<in> set (trace t)"
proof -
  have wet: "\<not> cs_is_dry_run demo_conf" by (simp add: demo_conf_def)
  let ?s = "demo_start good_objects"
  have "\<exists>t. apply_changes demo_E demo_conf demo_cr [to_verified demo_request] locked_errors ?s =
      (Err (Bail ''errors occurred while executing this dyndynser run''), t)"
  proof -
    have open_out: "\<not> stdout_refuses ?s es out" for es out by (simp add: start_stdout)
    obtain u where step: "apply_changes demo_E demo_conf demo_cr [to_verified demo_request] locked_errors ?s =
      io_bind (io_ctx ''failed to cleanup s3 ddns.json items''
        (cleanup demo_E demo_conf demo_cr (delete_keys [to_verified demo_request] locked_errors) locked_errors))
        print_summary u" and u: "stdout_refuses u = stdout_refuses ?s"
    proof -
      obtain line u0 where "apply_changes demo_E demo_conf demo_cr [to_verified demo_request] locked_errors ?s =
        io_bind (print line) (\<lambda>_. io_bind (io_ctx ''failed to cleanup s3 ddns.json items''
          (cleanup demo_E demo_conf demo_cr (delete_keys [to_verified demo_request] locked_errors) locked_errors))
          print_summary) u0" and u0: "stdout_refuses u0 = stdout_refuses ?s"
        by (rule apply_changes_committed [OF wet demo_commit]) (erule that, simp)
      moreover have "print line u0 = (Ok (), u0\<lparr>trace := trace u0 @ [Ev_Print line]\<rparr>)"
        by (simp add: print_def u0 open_out)
      ultimately show thesis by (intro that [of "u0\<lparr>trace := trace u0 @ [Ev_Print line]\<rparr>"]) (simp_all add: io_bind_def)
    qed
    obtain v where clean: "cleanup demo_E demo_conf demo_cr (delete_keys [to_verified demo_request] locked_errors) locked_errors u = (Ok locked_errors, v)"
      and v: "stdout_refuses v = stdout_refuses u"
      using demo_cleanup_any by blast
    have "has_errors locked_errors" by (simp add: has_errors_def)
    with spec [OF print_summary_reports [of locked_errors, unfolded reports_def], of v]
    obtain w where "print_summary locked_errors v = (Err (Bail ''errors occurred while executing this dyndynser run''), w)"
      by (auto simp: summary_result_def v u open_out)
    with step clean show ?thesis by (simp add: io_bind_def io_ctx_def)
  qed
  then obtain t where run: "apply_changes demo_E demo_conf demo_cr [to_verified demo_request] locked_errors ?s =
      (Err (Bail ''errors occurred while executing this dyndynser run''), t)" by blast
  from unread_requests_are_deleted [OF wet run, of "S3_Key ''ddns/locked.ddns.json''" "External ''AccessDenied''"]
  have "Ev_Delete_Object ''ddns/locked.ddns.json'' \<in> set (trace t)" by simp
  with run show ?thesis by blast
qed

lemma fetch_pages_handles_witness:
  "\<exists>pages. page_run demo_E demo_conf () None ([], server_errors_new) (demo_start good_objects) pages
       ([demo_request], server_errors_new) ((demo_start good_objects)\<lparr>trace :=
         [Ev_List_Page ''ddns/'' ''/'' None, Ev_Get_Object home_key]\<rparr>) \<and>
     next_continuation_token (last pages) = None \<and> collected demo_E ([demo_request], server_errors_new)"
proof -
  have "fetch_pages demo_E demo_conf () None ([], server_errors_new) (demo_start good_objects) =
      Some (Ok ([demo_request], server_errors_new), (demo_start good_objects)\<lparr>trace :=
         [Ev_List_Page ''ddns/'' ''/'' None, Ev_Get_Object home_key]\<rparr>)"
    using fetch_pages_of_run [OF demo_page_run [of "demo_start good_objects"]] by simp
  from fetch_pages_handles_every_request_file [OF this] show ?thesis by blast
qed

lemma fetch_pages_follows_tokens_witness:
  "\<exists>t. fetch_pages demo_E demo_conf () None ([], server_errors_new) (demo_start good_objects) =
       Some (Ok ([demo_request], server_errors_new), t) \<and>
     hd (filter is_list_page (trace t)) = Ev_List_Page ''ddns/'' ''/'' None"
proof -
  let ?t = "(demo_start good_objects)\<lparr>trace := [Ev_List_Page ''ddns/'' ''/'' None, Ev_Get_Object home_key]\<rparr>"
  have run: "fetch_pages demo_E demo_conf () None ([], server_errors_new) (demo_start good_objects) =
      Some (Ok ([demo_request], server_errors_new), ?t)"
    using fetch_pages_of_run [OF demo_page_run [of "demo_start good_objects"]] by simp
  have dir: "cs_s3_ddns_json_directory demo_conf = ''ddns/''" by (simp add: demo_conf_def)
  obtain es where es: "trace ?t = trace (demo_start good_objects) @ es"
    and "hd (filter is_list_page es) = Ev_List_Page (cs_s3_ddns_json_directory demo_conf) ''/'' None"
    using fetch_pages_follows_tokens [OF demo_tokens_progress run] by auto
  then have "hd (filter is_list_page (trace ?t)) = Ev_List_Page ''ddns/'' ''/'' None"
    unfolding es dir start_trace by simp
  with run show ?thesis by blast
qed

text \<open>Of two files, the second is not a certificate.\<close>

definition two_files :: "demo sys" where
  "two_files = (demo_start [])\<lparr>world := (world (demo_start []))\<lparr>files :=
     [(''/certs/home.crt'', demo_key @ demo_domain), (''/certs/bad.crt'', ''not a certificate'')]\<rparr>\<rparr>"

definition two_entries :: "dir_entry list" where
  "two_entries = [\<lparr>entry_name = ''home.crt'', entry_is_file = Some True\<rparr>,
     \<lparr>entry_name = ''bad.crt'', entry_is_file = Some True\<rparr>]"

lemma key_map_sorts_files_witness:
  "\<exists>files es t. key_map_loop demo_E ''/certs'' two_entries ([], server_errors_new) two_files =
       (Ok ([demo_cert], server_errors_new\<lparr>failed_key_parses := es\<rparr>), t) \<and>
     map fst files = two_entries \<and> sorted_certs demo_E ''/certs'' files \<and> List.map_filter (\<lambda>(x, bs, c). c) files = [demo_cert] \<and>
     map fst es = map (\<lambda>(x, bs, c). from_utf8_lossy (entry_name x)) (filter (\<lambda>(x, bs, c). c = None) files)"
proof -
  have "map_option (\<lambda>acc. (fst acc, map fst (failed_key_parses (snd acc))))
      (case fst (key_map_loop demo_E ''/certs'' two_entries ([], server_errors_new) two_files) of
         Ok acc \<Rightarrow> Some acc | Err e \<Rightarrow> None | Panic p \<Rightarrow> None) = Some ([demo_cert], [''bad.crt''])"
    by code_simp
  then obtain errors t where run: "key_map_loop demo_E ''/certs'' two_entries ([], server_errors_new) two_files =
      (Ok ([demo_cert], errors), t)"
    by (cases "key_map_loop demo_E ''/certs'' two_entries ([], server_errors_new) two_files")
       (auto split: result.splits)
  from key_map_sorts_files [OF run] obtain files es where "map fst files = two_entries"
    "sorted_certs demo_E ''/certs'' files"
    "[demo_cert] = [] @ List.map_filter (\<lambda>(x, bs, c). c) files"
    "errors = server_errors_new\<lparr>failed_key_parses := failed_key_parses server_errors_new @ es\<rparr>"
    "map fst es = map (\<lambda>(x, bs, c). from_utf8_lossy (entry_name x)) (filter (\<lambda>(x, bs, c). c = None) files)"
    by blast
  moreover have "failed_key_parses server_errors_new = []" by (simp add: server_errors_new_def)
  ultimately show ?thesis using run
    by (intro exI [of _ files] exI [of _ es] exI [of _ t]) simp
qed

lemma unreadable_certificate_witness:
  "\<exists>e v. key_map_loop demo_E ''/certs'' ([] @ \<lparr>entry_name = ''gone.crt'', entry_is_file = Some True\<rparr> # [])
     ([], server_errors_new) (demo_start good_objects) = (Err (Context ''invalid key_path'' e), v)"
proof -
  let ?x = "\<lparr>entry_name = ''gone.crt'', entry_is_file = Some True\<rparr>"
  have "fst (read_file_limited (e_fs demo_E) (path_join ''/certs'' (entry_name ?x)) file_size_max_bytes (demo_start good_objects)) =
      Err (Io NotFound)" by code_simp
  then obtain v where read: "read_file_limited (e_fs demo_E) (path_join ''/certs'' (entry_name ?x)) file_size_max_bytes
      (demo_start good_objects) = (Err (Io NotFound), v)" by (metis prod.collapse)
  have "key_map_loop demo_E ''/certs'' [] ([], server_errors_new) (demo_start good_objects) =
      (Ok ([], server_errors_new), demo_start good_objects)" by simp
  from unreadable_certificate_aborts [OF this read, of "[]"] show ?thesis by blast
qed

text \<open>A service that refuses to delete the first key and fails for the second.\<close>

definition refusing_E :: "(unit, unit, demo) env" where
  "refusing_E = demo_E\<lparr>e_s3 := demo_s3\<lparr>s3_delete_object := (\<lambda>b k w.
     (if k = ''a'' then Ok 403 else if k = ''b'' then Err (External ''timeout'') else Ok 204, w))\<rparr>\<rparr>"

lemma cleanup_deletes_witness:
  "\<exists>errors t. cleanup_loop refusing_E () [S3_Key ''a'', S3_Key ''b'', S3_Key ''c''] server_errors_new (demo_start good_objects) =
       (Ok errors, t) \<and>
     filter is_s3_delete (trace t) = [Ev_Delete_Object ''a'', Ev_Delete_Object ''b'', Ev_Delete_Object ''c''] \<and>
     map fst (failed_s3_deletions errors) = [S3_Key ''a'', S3_Key ''b'']"
proof -
  let ?keys = "[S3_Key ''a'', S3_Key ''b'', S3_Key ''c'']"
  have "fst (s3_delete_object (e_s3 refusing_E) () k w) \<noteq> Panic p" for k w p
    by (simp add: refusing_E_def)
  moreover have "\<not> stdout_refuses (demo_start good_objects) es out" for es out by (simp add: start_stdout)
  moreover have "map fst (deletion_failures ?keys (fst (delete_answers (e_s3 refusing_E) () ?keys w))) =
      [S3_Key ''a'', S3_Key ''b'']" for w
    by (simp add: refusing_E_def deletion_failures_def deletion_failure_def)
  ultimately show ?thesis
    using cleanup_deletes_each_key [of refusing_E "()" "demo_start good_objects" ?keys server_errors_new]
    by (fastforce simp: server_errors_new_def)
qed

lemma demo_chrono_exact: "chrono_exact demo_chrono"
  by (auto simp: chrono_exact_def demo_chrono_def time_delta_seconds_def split: if_splits)

lemma demo_clock_start: "http_clock (e_http demo_E) (world (demo_start objs)) = (demo_secs * 1000000000, world (demo_start objs))"
  by (simp add: demo_clock demo_start_def)

lemma demo_check_start:
  "check_valid_ddns_request demo_E demo_request [demo_cert] (time_delta_seconds 3600) False (demo_start objs) =
     (Ok (to_verified demo_request), demo_start objs)"
  using demo_check [of "demo_start objs"] by (simp add: time_delta_seconds_def demo_start_def)

lemma accepted_request_is_not_stale_witness:
  "demo_secs * 1000000000 \<le> time_delta_seconds
     (sint (signed_at_unix_secs (envelope (ur_signed_payload demo_request))) + 3600 + 15)"
  by (rule accepted_request_is_not_stale [OF _ demo_check_start demo_clock_start])
     (simp add: demo_env_def demo_chrono_exact)

lemma earlier_clock_accepts_witness:
  "check_valid_ddns_request demo_E demo_request [demo_cert] (time_delta_seconds 3600) False
     (demo_start []\<lparr>world := (world (demo_start []))\<lparr>clock := 0\<rparr>\<rparr>) =
   (Ok (to_verified demo_request), demo_start []\<lparr>world := (world (demo_start []))\<lparr>clock := 0\<rparr>\<rparr>)"
proof -
  let ?s = "demo_start []\<lparr>world := (world (demo_start []))\<lparr>clock := 0\<rparr>\<rparr>"
  have clock: "http_clock (e_http demo_E) (world ?s) = (0, world ?s)" by (simp add: demo_clock)
  have "0 \<le> demo_secs * 1000000000" by (simp add: demo_secs_def)
  from earlier_clock_accepts [OF demo_check_start [of "[]"] demo_clock_start clock this] show ?thesis by simp
qed

definition late_request :: unverified_request where
  "late_request = \<lparr>ur_signed_payload = demo_payload demo_record chrono_max_secs demo_key ''envelope 4'',
     ur_s3_key = S3_Key ''ddns/late.ddns.json''\<rparr>"

lemma overflowing_time_stamp_witness:
  "\<exists>v. validate_unverified_dns_requests demo_E [demo_cert] (time_delta_seconds 3600) False
     ([] @ late_request # [demo_request]) ([], server_errors_new) (demo_start []) =
     (Panic ''`DateTime + TimeDelta` overflowed'', v)"
proof (rule overflowing_time_stamp_panics)
  have "find (\<lambda>x. common_name x = request_name late_request) [demo_cert] = Some demo_cert" by code_simp
  moreover have "signed_bytes (e_json demo_E) record_set_to_json (envelope (ur_signed_payload late_request)) =
      Some ''envelope 4''" by code_simp
  moreover have "verify_strict (e_dalek demo_E) (cert_key demo_cert) ''envelope 4''
      (signature_inner (signature (ur_signed_payload late_request)))" by code_simp
  ultimately show "authentic demo_E [demo_cert] late_request" unfolding authentic_def by blast
  show "from_timestamp (e_chrono demo_E) (sint (signed_at_unix_secs (envelope (ur_signed_payload late_request)))) =
      Some (chrono_max_secs * 1000000000)" by code_simp
  show "add_delta (e_chrono demo_E) (chrono_max_secs * 1000000000) (time_delta_seconds 3600) = None" by code_simp
  show "validate_unverified_dns_requests demo_E [demo_cert] (time_delta_seconds 3600) False [] ([], server_errors_new)
      (demo_start []) = (Ok ([], server_errors_new), demo_start [])" by simp
qed

text \<open>Of two requests, the first has no certificate.\<close>

definition stranger :: unverified_request where
  "stranger = \<lparr>ur_signed_payload = demo_payload (demo_record\<lparr>rr_name := ''other.example''\<rparr>) demo_secs demo_key ''envelope 1'',
     ur_s3_key = S3_Key ''ddns/other.ddns.json''\<rparr>"

lemma validate_loop_sorts_requests_witness:
  "\<exists>es t. validate_unverified_dns_requests demo_E [demo_cert] 3600000000000 False [stranger, demo_request]
       ([], server_errors_new) (demo_start []) =
     (Ok ([to_verified demo_request], server_errors_new\<lparr>failed_signature_checks := zip [''other.example''] es\<rparr>), t)"
proof -
  have name: "request_name stranger = ''other.example''" by code_simp
  have none: "find (\<lambda>x. common_name x = request_name stranger) [demo_cert] = None" by code_simp
  then have "\<not> authentic demo_E [demo_cert] stranger" by (simp add: authentic_def)
  moreover have "accepts demo_E [demo_cert] 3600000000000 False demo_request (world (demo_start []))"
  proof -
    have "clock (world (demo_start [])) \<le> (demo_secs + 3615) * 1000000000" by code_simp
    with demo_authentic demo_latest show ?thesis by (auto simp: accepts_def demo_clock)
  qed
  ultimately have ref: "\<exists>w. sort_out demo_E [demo_cert] 3600000000000 False [stranger, demo_request]
      (world (demo_start [])) = ([demo_request], [stranger], w)"
    by (simp add: accepts_def after_check_def)
  have calm: "\<not> (authentic demo_E [demo_cert] r \<and> overflows demo_E 3600000000000 r)"
    if "r \<in> set [stranger, demo_request]" for r
    using that \<open>\<not> authentic demo_E [demo_cert] stranger\<close> demo_latest by (auto simp: overflows_def)
  obtain r t where run: "validate_unverified_dns_requests demo_E [demo_cert] 3600000000000 False [stranger, demo_request]
      ([], server_errors_new) (demo_start []) = (r, t)" by (metis prod.collapse)
  with validate_loop_sorts_requests [where E = demo_E and certs = "[demo_cert]" and age = 3600000000000
      and skip = False and rs = "[stranger, demo_request]" and verified = "[]" and errors = server_errors_new
      and s = "demo_start []"] ref calm name
  show ?thesis
    by (cases r) (auto simp: server_errors_new_def simp del: validate_unverified_dns_requests.simps sort_out.simps)
qed

section \<open>The whole program\<close>

text \<open>A command line: the texts of its options, with the declared defaults for the others.\<close>

definition demo_options :: "(string \<times> string) list" where
  "demo_options =
     [(''bucket'', ''queue''), (''bucket-ddns-dir'', ''ddns/''), (''hosted-zone-id'', ''/hostedzone/Z1''),
      (''keys-search-path'', ''/certs''), (''aws-region'', '' us-east-1 ''),
      (''aws-access-key-id'', ''AK''), (''aws-secret-access-key'', ''SK'')]"

definition demo_clap :: clap_crate where
  "demo_clap =
     \<lparr>clap = (\<lambda>a. case map_of demo_options (long a) of Some v \<Rightarrow> Some v | None \<Rightarrow> default_value a),
      clap_flag = (\<lambda>l. False),
      clap_u32 = (\<lambda>s. if s = ''3600'' then Some 3600 else None)\<rparr>"

lemma demo_command_line: "cli_parse Linux ''server'' demo_clap = Ok (Server (demo_server_args False))"
  by code_simp

definition no_log :: "unit result \<Rightarrow> demo syslog_crate" where
  "no_log r = \<lparr>sy_unix = (\<lambda>f w. (r, w)), sy_poisoned = (\<lambda>w. False), sy_write = (\<lambda>v p w. w)\<rparr>"

lemma demo_main:
  "main_entry (no_log (Ok ())) (demo_env_logger (Up_To Error)) Linux ''server'' demo_clap demo_E s =
     handle_server demo_E (demo_server_args False) s"
proof -
  have "quietly (init_global_loggers (no_log (Ok ())) (demo_env_logger (Up_To Error)) app_name
      \<lparr>boxed_logger = None, max_level = Off\<rparr>) s =
    (Ok \<lparr>boxed_logger = Some (multi_logger [el_logger (demo_env_logger (Up_To Error)),
       syslog_logger (no_log (Ok ())) (Up_To Info)]), max_level = Up_To Error\<rparr>, s)"
    by (simp add: quietly_def init_global_loggers_def syslog5424_new_def no_log_def demo_env_logger_def)
  then show ?thesis
    by (simp add: main_entry_def lo_bind_def lo_once_def demo_command_line dispatch_def)
qed

lemma roles_are_separated_witness:
  "\<exists>t. main_entry (no_log (Ok ())) (demo_env_logger (Up_To Error)) Linux ''server'' demo_clap demo_E
       (demo_start good_objects) = Some (Ok (), t) \<and>
     Ev_Delete_Object home_key \<in> set (trace t) \<and> \<not> is_s3_put (Ev_Delete_Object home_key)"
proof -
  from demo_run obtain t where "handle_server demo_E (demo_server_args False) (demo_start good_objects) = Some (Ok (), t)"
    and ev: "Ev_Delete_Object home_key \<in> set (trace t)" by blast
  then have run: "main_entry (no_log (Ok ())) (demo_env_logger (Up_To Error)) Linux ''server'' demo_clap demo_E
       (demo_start good_objects) = Some (Ok (), t)" by (simp add: demo_main)
  have "Ev_Delete_Object home_key \<in> set (drop (length (trace (demo_start good_objects))) (trace t))"
    using ev by simp
  from roles_are_separated [OF run this] run ev show ?thesis by (auto simp: calls_aws_def mutates_def)
qed

lemma no_syslog_no_run_witness:
  "main_entry (no_log (Err (External ''ENOENT''))) (demo_env_logger (Up_To Error)) Linux ''server'' demo_clap demo_E
     (demo_start []) = Some (Err (Bail ''Cannot contact syslog service''), demo_start [])"
proof -
  have "sy_unix (no_log (Err (External ''ENOENT'')))
      \<lparr>fm_facility = LOG_USER, fm_hostname = None, fm_process = app_name\<rparr> (world (demo_start [])) =
    (Err (External ''ENOENT''), world (demo_start []))" by (simp add: no_log_def)
  from no_syslog_no_run [OF this] show ?thesis by simp
qed

section \<open>The client and the server\<close>

lemma demo_client_run:
  obtains conf sk u t bs where "handle_client demo_E (demo_client_args False) (demo_start []) = (Ok (), t)"
    and "config_client_parse (e_lower demo_E) (demo_client_args False) = Ok conf"
    and "client_signing_key demo_E conf (demo_start []) = (Ok sk, u)"
    and "Ev_Put_Object (''ddns/'' @ domain_inner (cc_domain conf) @ ''.ddns.json'') bs \<in> set (trace t)"
proof -
  obtain t where run: "handle_client demo_E (demo_client_args False) (demo_start []) = (Ok (), t)"
    using demo_client_runs(2) by (metis prod.collapse)
  have wet: "\<not> ca_is_dry_run (demo_client_args False)" by (simp add: demo_client_args_def)
  from client_run_uploads [OF demo_crates run wet] obtain conf sk u bs before out where
    conf: "config_client_parse (e_lower demo_E) (demo_client_args False) = Ok conf"
    and key: "client_signing_key demo_E conf (demo_start []) = (Ok sk, u)"
    and trace: "trace t = trace (demo_start []) @ before @
      [Ev_Put_Object (ca_s3_ddns_json_dir (demo_client_args False) @ ''/'' @ domain_inner (cc_domain conf) @ ''.ddns.json'') bs,
       Ev_Print out]" by blast
  have "ca_s3_ddns_json_dir (demo_client_args False) = ''ddns''" by (simp add: demo_client_args_def)
  with trace have "Ev_Put_Object (''ddns/'' @ domain_inner (cc_domain conf) @ ''.ddns.json'') bs \<in> set (trace t)"
    by simp
  with run conf key show thesis by (rule that)
qed

lemma client_request_is_accepted_witness:
  "\<exists>bs r ip. fetch_object demo_E () home_key ([], server_errors_new) (demo_start [(home_key, bs)]) =
       (Ok ([r], server_errors_new), (demo_start [(home_key, bs)])\<lparr>trace := [Ev_Get_Object home_key]\<rparr>) \<and>
     build_change (to_verified r) =
       \<lparr>action = Upsert, record_set = \<lparr>rr_name = ''home.example.'', rr_ttl = 300, rr_data = ip\<rparr>\<rparr>"
proof -
  obtain conf sk u t bs where run: "handle_client demo_E (demo_client_args False) (demo_start []) = (Ok (), t)"
    and conf: "config_client_parse (e_lower demo_E) (demo_client_args False) = Ok conf"
    and key: "client_signing_key demo_E conf (demo_start []) = (Ok sk, u)"
    and put: "Ev_Put_Object (''ddns/'' @ domain_inner (cc_domain conf) @ ''.ddns.json'') bs \<in> set (trace t)"
    by (rule demo_client_run)
  have wet: "\<not> ca_is_dry_run (demo_client_args False)" by (simp add: demo_client_args_def)
  have "parse_domain (e_lower demo_E) (ca_domain_to_update (demo_client_args False)) = Ok (Domain_Name ''home.example'')"
    by code_simp
  with config_client_parse_Ok [OF conf] have domain: "cc_domain conf = Domain_Name ''home.example''"
    and ttl: "cc_ttl conf = None" by (simp_all add: demo_client_args_def)
  have put': "Ev_Put_Object home_key bs \<in> set (drop (length (trace (demo_start []))) (trace t))"
    using put by (simp add: domain)
  have "\<not> ends_with ''locked.ddns.json'' home_key" by code_simp
  then have got: "s3_get_object (e_s3 demo_E) () home_key (world (demo_start [(home_key, bs)])) =
      (Ok bs, world (demo_start [(home_key, bs)]))"
    by (simp add: demo_env_def demo_s3_def demo_start_def)
  have name: "fqdn ''home.example'' = ''home.example.''" by code_simp
  from client_request_is_accepted [OF demo_crates refl refl refl run wet conf key put' got,
      of "([], server_errors_new)"] obtain r ip where
    "fetch_object demo_E () home_key ([], server_errors_new) (demo_start [(home_key, bs)]) =
       (Ok ([r], server_errors_new), (demo_start [(home_key, bs)])\<lparr>trace := [Ev_Get_Object home_key]\<rparr>)"
    and "build_change (to_verified r) = \<lparr>action = Upsert, record_set =
         \<lparr>rr_name = fqdn (domain_inner (cc_domain conf)),
          rr_ttl = (case ca_ttl (demo_client_args False) of None \<Rightarrow> 300 | Some n \<Rightarrow> n),
          rr_data = (case ip of V4 y \<Rightarrow> A [y] | V6 y \<Rightarrow> AAAA [y])\<rparr>\<rparr>"
    by auto
  moreover have "ca_ttl (demo_client_args False) = None" by (simp add: demo_client_args_def)
  ultimately show ?thesis
    by (intro exI [of _ bs] exI [of _ r] exI [of _ "case ip of V4 y \<Rightarrow> A [y] | V6 y \<Rightarrow> AAAA [y]"])
       (simp add: domain name)
qed

lemma demo_lists_by_delimiter: "s3_lists_by_delimiter (e_s3 demo_E)"
proof -
  have slash: "find_str ''/'' r = None \<Longrightarrow> CHR ''/'' \<notin> set r" for r
    by (induction r) (auto simp: starts_with_iff split: if_splits option.splits)
  have pre: "strip_prefix p k = Some r \<Longrightarrow> k = p @ r" for p k r
    by (induction p k rule: strip_prefix.induct) (auto split: if_splits)
  show ?thesis
    unfolding s3_lists_by_delimiter_def
  proof (intro allI impI)
    fix b p tok w page w' k
    assume "s3_list_page (e_s3 demo_E) b p (Some ''/'') tok w = (Ok page, w')" "k \<in> set (page_keys page)"
    then have "k \<in> set (s3_contents p (Some ''/'') (map fst (objects w)))"
      by (auto simp: demo_env_def demo_s3_def Let_def dest!: in_set_takeD in_set_dropD)
    then obtain rest where "strip_prefix p k = Some rest" "find_str ''/'' rest = None"
      by (auto simp: s3_contents_def split: option.splits)
    with slash pre show "\<exists>rest. k = p @ rest \<and> CHR ''/'' \<notin> set rest" by blast
  qed
qed

lemma same_directory_witness:
  "\<exists>conf r t. config_client_parse (e_lower demo_E) (demo_client_args False) = Ok conf \<and>
     handle_server demo_E ((demo_server_args False)\<lparr>sa_s3_ddns_json_dir := ''ddns''\<rparr>) (demo_start good_objects) = Some (r, t) \<and>
     Ev_Get_Object (ddns_json_path conf (client_record conf (V4 (Ipv4_Addr 192 0 2 7)))) \<notin> set (trace t)"
proof -
  let ?a = "(demo_server_args False)\<lparr>sa_s3_ddns_json_dir := ''ddns''\<rparr>"
  have "handle_server demo_E ?a (demo_start good_objects) \<noteq> None"
    by (rule handle_server_ends) (rule demo_tokens_progress)
  then obtain r t where run: "handle_server demo_E ?a (demo_start good_objects) = Some (r, t)" by auto
  obtain conf where conf: "config_client_parse (e_lower demo_E) (demo_client_args False) = Ok conf"
    by (rule demo_client_run)
  have "ca_s3_ddns_json_dir (demo_client_args False) = sa_s3_ddns_json_dir ?a" by (simp add: demo_client_args_def)
  from same_directory_is_never_read [OF demo_lists_by_delimiter run conf this, of "V4 (Ipv4_Addr 192 0 2 7)"]
  have "Ev_Get_Object (ddns_json_path conf (client_record conf (V4 (Ipv4_Addr 192 0 2 7)))) \<notin> set (trace t)" by simp
  with run conf show ?thesis by blast
qed

end
