(* ===== verification/Examples_Units.thy ===== *)
theory Examples_Units
  imports Demo Route53_Text
begin

text \<open>
  The properties of the single components at concrete inputs: hypotheses that can hold together do so
  here, with the crates and the world of \<open>Demo\<close>.
\<close>

lemma signed_record_roundtrip_witness:
  "signed_payload_of_json demo_hex record_set_of_json (signed_payload_to_json demo_hex record_set_to_json
     (demo_payload demo_record demo_secs demo_key ''envelope 1'')) =
   Some (demo_payload demo_record demo_secs demo_key ''envelope 1'')"
  unfolding signed_record_roundtrip [OF demo_hex_roundtrips]
  by (simp add: demo_payload_def wf_signature_def check_sum_def)

lemma read_file_is_bounded_witness:
  "\<exists>t bs. read_file_limited (e_fs demo_E) ''/certs/home.crt'' file_size_max_bytes (demo_start []) = (Ok bs, t) \<and>
     length bs \<le> file_size_max_bytes"
proof -
  have "is_ok (fst (read_file_limited (e_fs demo_E) ''/certs/home.crt'' file_size_max_bytes (demo_start [])))"
    by code_simp
  then obtain bs t where
    "read_file_limited (e_fs demo_E) ''/certs/home.crt'' file_size_max_bytes (demo_start []) = (Ok bs, t)"
    unfolding is_ok_fst by blast
  from read_file_is_bounded [OF this] this show ?thesis by blast
qed

lemma parsed_domain_is_normal_witness:
  "\<exists>dn. parse_domain (\<lambda>s i. []) '' Home.Example.'' = Ok dn \<and> parse_domain (\<lambda>s i. []) (domain_inner dn) = Ok dn"
proof -
  have "lower_is_lower (\<lambda>s i. [])" by (simp add: lower_is_lower_def)
  moreover have "parse_domain (\<lambda>s i. []) '' Home.Example.'' = Ok (Domain_Name ''home.example.'')" by code_simp
  ultimately show ?thesis using parsed_domain_is_normal by blast
qed

text \<open>A command line that gives every option the same text.\<close>

definition same_text :: "string \<Rightarrow> clap_crate" where
  "same_text v = \<lparr>clap = (\<lambda>a. Some v), clap_flag = (\<lambda>l. False), clap_u32 = (\<lambda>s. Some 60)\<rparr>"

lemma parsed_arguments_are_trimmed_witness:
  "\<exists>c. cli_parse Other_Os ''client'' (same_text '' x '') = Ok (Client c) \<and> wf_client_args c"
proof -
  have "is_ok (cli_parse Other_Os ''client'' (same_text '' x ''))" by code_simp
  then obtain c where run: "cli_parse Other_Os ''client'' (same_text '' x '') = Ok c" by (auto simp: is_ok_iff)
  then obtain a where c: "c = Client a" by (auto simp: cli_parse_def ok_iff)
  from parsed_arguments_are_trimmed [OF run] run show ?thesis by (simp add: c wf_sub_commands_def)
qed

lemma zone_id_forms_agree_witness:
  "rrset_path (''hostedzone/'' @ ''Z1'') = ''/2013-04-01/hostedzone/Z1/rrset/''"
proof -
  have "trim ''Z1'' = ''Z1''" by code_simp
  from zone_id_forms_agree [OF _ this] show ?thesis by simp
qed

lemma sigv4_signs_every_header_witness:
  "\<exists>a hdrs. aws_sigv4_headers demo_hash demo_hex demo_chrono 0 ''POST'' host ''/'' [] ''x'' service route53_region
       ''AK'' ''SK'' None = (''authorization'', a) # hdrs \<and>
     map fst hdrs = [''content-type'', ''host'', ''x-amz-content-sha256'', ''x-amz-date'']"
proof -
  let ?h = "sha256_hex demo_hash demo_hex ''x''"
  let ?d = "chrono_format demo_chrono ''%Y%m%dT%H%M%SZ'' 0"
  let ?hdrs = "base_headers host ''x'' ?h ?d None"
  have "list_all (\<lambda>(k, v). CHR 0x0A \<notin> set k \<and> CHR 0x0A \<notin> set v) ?hdrs" by code_simp
  then have fresh: "\<And>k v. (k, v) \<in> set ?hdrs \<Longrightarrow> CHR 0x0A \<notin> set k \<and> CHR 0x0A \<notin> set v"
    by (auto simp: list_all_iff)
  have parts: "CHR 0x0A \<notin> set ''POST''" "CHR 0x0A \<notin> set ''/''" "CHR 0x0A \<notin> set []" "CHR 0x0A \<notin> set ?h"
    by code_simp+
  have "\<exists>a key scope request. aws_sigv4_headers demo_hash demo_hex demo_chrono 0 ''POST'' host ''/'' [] ''x''
        service route53_region ''AK'' ''SK'' None = (''authorization'', a) # ?hdrs \<and>
      map fst ?hdrs = (if ''x'' = [] then [] else [''content-type'']) @
        [''host'', ''x-amz-content-sha256'', ''x-amz-date''] @
        (if None = (None :: string option) then [] else [''x-amz-security-token''])"
    using sigv4_signs_every_header [where service = service and region = route53_region and
        access_key = "''AK''" and secret_key = "''SK''", OF refl refl refl parts fresh]
    by blast
  then obtain a where "aws_sigv4_headers demo_hash demo_hex demo_chrono 0 ''POST'' host ''/'' [] ''x''
        service route53_region ''AK'' ''SK'' None = (''authorization'', a) # ?hdrs"
    and "map fst ?hdrs = [''content-type'', ''host'', ''x-amz-content-sha256'', ''x-amz-date'']" by auto
  then show ?thesis by (intro exI conjI)
qed

lemma privileges_are_dropped_witness:
  "\<exists>t. maybe_drop_privileges demo_unix ''dyndynser'' (demo_start []) = (Ok (), t) \<and>
     euid (cred (os (world t))) \<noteq> 0 \<and> groups (cred (os (world t))) = [] \<and>
     suid (cred (os (world t))) = ruid (cred (os (world t)))"
proof -
  have "is_ok (fst (maybe_drop_privileges demo_unix ''dyndynser'' (demo_start [])))" by code_simp
  then obtain r t where "maybe_drop_privileges demo_unix ''dyndynser'' (demo_start []) = (Ok r, t)"
    unfolding is_ok_fst by blast
  then have run: "maybe_drop_privileges demo_unix ''dyndynser'' (demo_start []) = (Ok (), t)" by simp
  have "euid (cred (os (world (demo_start [])))) = 0" by (simp add: demo_start_def demo_linux_def)
  with privileges_are_dropped [OF demo_unix.posix_credentials_axioms run] run show ?thesis by auto
qed

end
