(* ===== verification/Spec2Isabelle.thy ===== *)
theory Spec2Isabelle
  imports Examples Examples_Units
begin

text \<open>
  A model of dyndynser, a dynamic DNS program (Rust, \<open>src/src/\<close>), and what holds of it.

  The program has three commands. The \<^emph>\<open>client\<close> loads a private key, asks a service for the address
  of its machine, signs a record set for its domain and puts it into an S3 bucket as
  \<open><domain>.ddns.json\<close>. The \<^emph>\<open>server\<close> lists the bucket, reads the requests, checks each against the
  X.509 certificates of a directory, drops its privileges, sends one batch of upserts to Route 53,
  deletes the keys it is done with and reports what failed. The third command prints the address. They
  share the configuration, key, signature and DNS code, and meet only in the bucket.

  \<^bold>\<open>How the code is modelled.\<close> A Rust \<open>Result<T, anyhow::Error>\<close> is a value of \<open>'a result\<close>: \<open>Ok\<close>,
  \<open>Err\<close> with the chain of contexts, or \<open>Panic\<close>, which no code of the program catches; the operator
  \<open>?\<close> is \<open>and_then\<close>, or \<open>io_bind\<close> where there is state. A function that leaves the process is a
  function of a state \<open>'w sys\<close>: the state of the world, of any type, the list of the calls and
  outputs so far, which the properties about order and absence of effects are about, and whether the
  standard output takes a line (\<open>println!\<close> panics where it does not). Strings are
  lists of bytes (UTF-8), so \<open>length\<close> is \<open>len()\<close>; \<open>u8\<close>, \<open>u16\<close>, \<open>u32\<close> and \<open>i64\<close> are words. Each crate,
  service and system interface is a record of functions that a definition takes as an argument, and
  nothing is assumed of it but what a theorem names as a hypothesis: \<open>hex_roundtrips\<close>,
  \<open>json_roundtrips\<close>, \<open>signatures_verify\<close>, \<open>chrono_exact\<close>, \<open>tokens_progress\<close>, \<open>posix_credentials\<close>,
  \<open>s3_lists_by_delimiter\<close>, \<open>http_get_panic_free\<close>, \<open>lower_is_lower\<close>. Calls of the log macros are left out
  of the components; what the loggers do with a record is modelled in \<open>Logging\<close>.

  \<^bold>\<open>The theories\<close>, in the order of the imports:

  \<^item> \<open>Prelude\<close>: outcomes, the two forms of \<open>?\<close>, contexts; the locales \<open>codec\<close> (an encoder and its
    decoder) and \<open>accumulating_loop\<close> (a loop that records the failures of its items and goes on).
  \<^item> \<open>Rust_Str\<close>, \<open>Rust_Text\<close>, \<open>Net_Addr\<close>: what the program uses of the standard library. Prefixes,
    \<open>split\<close>, \<open>find\<close>; ASCII classes, \<open>trim\<close>, \<open>to_lowercase\<close>, UTF-8 decoding, number output; the text
    forms of IPv4 and IPv6 addresses and their parsers. \<open>Net_Addr\<close> interprets \<open>codec\<close> three times: every
    printed address reads back.
  \<^item> \<open>Dns\<close> (\<open>dns/mod.rs\<close>), \<open>Serde\<close> (its derived JSON forms), \<open>Signatures\<close> (\<open>signatures.rs\<close>): record
    sets, changes, envelopes and signing. What is signed reads back and verifies.
  \<^item> \<open>World\<close>: the state, the kinds of events, \<open>emits\<close> (which events a computation adds), \<open>phased\<close> (in
    which order), \<open>panic_free\<close>; the locale \<open>world_loop\<close>, an \<open>accumulating_loop\<close> over the world.
  \<^item> \<open>Unix_Priv\<close> (\<open>unix.rs\<close>), \<open>Keys\<close> (\<open>keys.rs\<close>): dropping privileges under the locale
    \<open>posix_credentials\<close>, interpreted on the credentials of a Linux process; certificates, private keys
    and bounded reading of a file, whose open form is the list of the answers of its reads.
  \<^item> \<open>Cli\<close> (\<open>cli/mod.rs\<close>), \<open>Config\<close> (\<open>config.rs\<close>): the options and their structs, the configurations,
    and the domain parser with the specification \<open>rfc1123\<close> that it implements.
  \<^item> \<open>Aws_Signature\<close> (\<open>dns/route53/aws_signature.rs\<close>): request signing; the locale \<open>ordered_map\<close> is the
    interface of \<open>BTreeMap\<close>, interpreted on sorted association lists.
  \<^item> \<open>Route53\<close>, \<open>Route53_Text\<close> (\<open>dns/route53/aws_route53.rs\<close>): the client of the DNS service, and a
    reader of text elements that shows what its XML says.
  \<^item> \<open>Env\<close>: everything a command depends on, in one record; \<open>Demo\<close>: an instance of it in memory.
  \<^item> \<open>Client\<close> (\<open>client.rs\<close>), \<open>Ip_Cmd\<close> (\<open>ip.rs\<close>).
  \<^item> \<open>Server_Check\<close>, \<open>Server_Io\<close>, \<open>Server\<close> (\<open>server.rs\<close>): checking requests, the change set and the
    summary; the bucket, the certificates, committing and cleaning up; the run. The four loops of the
    server interpret \<open>world_loop\<close>, and that nothing collected is lost and no item is skipped comes from
    there.
  \<^item> \<open>Logging\<close> (\<open>logging.rs\<close>), \<open>Entry\<close> (\<open>main.rs\<close>), \<open>System\<close>: the loggers, the whole program, and the
    client and the server together.
  \<^item> \<open>Examples_Units\<close>, \<open>Examples\<close>: the properties at concrete inputs.

  \<^bold>\<open>What is shown.\<close> For each component its results on every branch: what exactly is accepted
  (domains, certificates, requests), bounds (file size, age, time to live, pages), round trips (addresses,
  JSON, XML, the signed request), and what each loop of the server makes of its items: the checking loop
  is a reference that sorts the requests (\<open>sort_out\<close>), the loading of certificates and the cleaning up
  record exactly the files and keys that failed. For the commands: the order of their calls,
  what a dry run leaves alone, which services each role calls, what an error keeps from happening. For
  the system: every update of the DNS goes back to a request that was signed with the key of a trusted
  certificate for its name, and a request of the client is accepted. Some theorems
  state what the code does where its documentation says otherwise; the manifest lists them.

  \<^bold>\<open>Loops and termination.\<close> All loops but one run over lists and are structural. Paging through the
  bucket depends on the service: \<open>fetch_pages\<close> is a partial function in the option monad, whose
  value \<open>None\<close> is a run that never ends. It ends where a measure of the continuation token decreases,
  and then asks for at most as many pages as that measure allows. The instance \<open>Demo\<close> cuts a listing at
  1000 pages of one key, which is more than its runs have.

  \<^bold>\<open>Not modelled.\<close> The log calls inside the components, help texts and \<open>--help\<close>, the \<open>Debug\<close> forms
  of values (the summary and a dry run print the values themselves), the 30 second timeout of the HTTP
  client (one of the errors its call may answer), memory, and the unit tests; packaging. Only one thread
  runs, as in the program.
\<close>

end
